theory Spec2Isabelle
  imports Complex_Main
begin

section \<open>Strings as the program sees them\<close>

text \<open>
  A JavaScript string is a sequence of 16-bit code units. The model takes the strings
  whose code units are below 256 (the Latin-1 range) and writes them as a
  \<^typ>\<open>string\<close>, one character for each code unit. In that range \<open>\\d\<close> is the ten
  ASCII digits; \<open>\\s\<close>, \<open>trim\<close> and the white space that \<open>parseFloat\<close> skips are the
  six ASCII blanks and the no-break space U+00A0; \<open>toLowerCase\<close> maps the ASCII capitals
  and the accented capitals U+00C0 to U+00DE (the multiplication sign U+00D7 is not a
  letter).
\<close>

definition isDigit :: "char \<Rightarrow> bool" where
  "isDigit c = ((48::nat) \<le> of_char c \<and> of_char c \<le> (57::nat))"

definition isSpace :: "char \<Rightarrow> bool" where
  "isSpace c = (c = CHR '' '' \<or> c = CHR 0x09 \<or> c = CHR 0x0A \<or> c = CHR 0x0B
     \<or> c = CHR 0x0C \<or> c = CHR 0x0D \<or> c = CHR 0xA0)"

definition isUpper :: "char \<Rightarrow> bool" where
  "isUpper c = ((65::nat) \<le> of_char c \<and> of_char c \<le> (90::nat))"

definition isAccentedUpper :: "char \<Rightarrow> bool" where
  "isAccentedUpper c =
     ((192::nat) \<le> of_char c \<and> of_char c \<le> (222::nat) \<and> of_char c \<noteq> (215::nat))"

definition lowerChar :: "char \<Rightarrow> char" where
  "lowerChar c =
     (if isUpper c \<or> isAccentedUpper c then char_of (of_char c + (32::nat)) else c)"

definition toLowerCase :: "string \<Rightarrow> string" where
  "toLowerCase s = map lowerChar s"

fun startsWith :: "string \<Rightarrow> string \<Rightarrow> bool" where
  "startsWith s [] = True"
| "startsWith [] (k # ks) = False"
| "startsWith (c # cs) (k # ks) = (c = k \<and> startsWith cs ks)"

text \<open>\<open>s.includes(k)\<close>: \<open>k\<close> occurs in \<open>s\<close> as a contiguous substring.\<close>

fun strIncludes :: "string \<Rightarrow> string \<Rightarrow> bool" where
  "strIncludes [] k = (k = [])"
| "strIncludes (c # cs) k = (startsWith (c # cs) k \<or> strIncludes cs k)"

section \<open>The categorizer of the upload server\<close>

record rule =
  categoryId :: string  \<comment> \<open>the field \<open>keywords\<close> is spelled \<open>keywordList\<close> below\<close>
  keywordList :: "string list"

definition mkRule :: "string \<Rightarrow> string list \<Rightarrow> rule" where
  "mkRule c ks = \<lparr>categoryId = c, keywordList = ks\<rparr>"

definition rules :: "rule list" where
  "rules =
   [mkRule ''subscriptions'' [''netflix'', ''spotify'', ''apple music'', ''youtube premium'',
      ''disney+'', ''hulu'', ''amazon prime'', ''subscription'', ''claude.ai'', ''anthropic'',
      ''openai'', ''gpt'', ''notion'', ''slack'', ''zoom'', ''adobe'', ''microsoft'',
      ''office 365'', ''google one'', ''dropbox'', ''icloud''],
    mkRule ''fitness'' [''gym'', ''fitness'', ''yoga'', ''pilates'', ''crossfit'',
      ''planet fitness'', ''la fitness'', ''equinox'', ''24 hour fitness'',
      ''bintang badminton'', ''badminton'', ''sports club'', ''tennis'', ''swimming'',
      ''martial arts''],
    mkRule ''education'' [''udemy'', ''coursera'', ''khan academy'', ''skillshare'',
      ''pluralsight'', ''linkedin learning'', ''education'', ''tuition'', ''school'',
      ''university'', ''college'', ''textbook'', ''course'', ''training'', ''certification'',
      ''interviewing.io'', ''hellointerview''],
    mkRule ''personal_care'' [''salon'', ''spa'', ''barber'', ''haircut'', ''massage'',
      ''manicure'', ''pedicure'', ''facial'', ''beauty'', ''cosmetics'', ''skincare'',
      ''footlax'', ''kashish salon''],
    mkRule ''bills'' [''insurance'', ''phone bill'', ''internet'', ''cable'', ''wireless'',
      ''verizon'', ''at&t'', ''comcast'', ''xfinity'', ''mortgage'', ''rent'', ''hoa'',
      ''property tax''],
    mkRule ''home_garden'' [''home depot'', ''lowes'', ''ikea'', ''furniture'', ''appliances'',
      ''garden'', ''hardware'', ''home improvement'', ''decor''],
    mkRule ''groceries'' [''grocery'', ''supermarket'', ''walmart'', ''target'', ''costco'',
      ''safeway'', ''apni mandi'', ''mandi'', ''trader joe'', ''whole foods'', ''kroger'',
      ''new india bazar''],
    mkRule ''restaurants'' [''restaurant'', ''cafe'', ''coffee'', ''pizza'', ''burger'',
      ''starbucks'', ''mcdonald'', ''biryani'', ''indian'', ''namaste'', ''paradise'',
      ''mylapore'', ''jollibee'', ''doordash'', ''tst*'', ''sq *'', ''dd *'', ''uber eats'',
      ''grubhub'', ''postmates'', ''food delivery'', ''kitchen'', ''cuisine'', ''hungry bear'',
      ''chick-fil-a''],
    mkRule ''gas'' [''gas'', ''fuel'', ''shell'', ''exxon'', ''chevron'', ''bp'', ''valero'',
      ''electrify america''],
    mkRule ''shopping'' [''amazon'', ''ebay'', ''shop'', ''store'', ''retail'', ''mktpl'',
      ''marketplace'', ''mall'', ''clothing'', ''fashion'', ''shoes'', ''electronics'',
      ''flavcity''],
    mkRule ''utilities'' [''electric'', ''water'', ''utility'', ''power'', ''pge'', ''sdge'',
      ''gas company''],
    mkRule ''transport'' [''uber'', ''lyft'', ''taxi'', ''bus'', ''parking'', ''metro'',
      ''clipper'', ''bart'', ''caltrain'', ''bridge toll'', ''monterey parking''],
    mkRule ''entertainment'' [''movie'', ''theater'', ''cinema'', ''concert'', ''show'',
      ''ticket'', ''entertainment'', ''mystery spot'', ''amusement'', ''park''],
    mkRule ''healthcare'' [''pharmacy'', ''cvs'', ''walgreens'', ''doctor'', ''hospital'',
      ''medical'', ''dentist'', ''vision'', ''health''],
    mkRule ''travel'' [''hotel'', ''flight'', ''airline'', ''airbnb'', ''booking'', ''expedia'',
      ''travel'', ''vacation'', ''resort'', ''lodge'', ''ynp'', ''curry village'', ''degnans'',
      ''basecamp eatery'']]"

text \<open>\<open>rule.keywords.some(keyword => text.includes(keyword))\<close>\<close>

definition ruleMatches :: "string \<Rightarrow> 'a rule_scheme \<Rightarrow> bool" where
  "ruleMatches text r = list_ex (\<lambda>keyword. strIncludes text keyword) (keywordList r)"

text \<open>The \<open>for (const rule of rules)\<close> loop with its early return.\<close>

fun scanRules :: "rule list \<Rightarrow> string \<Rightarrow> string" where
  "scanRules [] text = ''other''"
| "scanRules (r # rs) text = (if ruleMatches text r then categoryId r else scanRules rs text)"

text \<open>\<open>merchantName || ''\<close>: an absent merchant name contributes the empty string.\<close>

definition orEmpty :: "string option \<Rightarrow> string" where
  "orEmpty m = (case m of None \<Rightarrow> [] | Some s \<Rightarrow> s)"

definition searchText :: "string \<Rightarrow> string option \<Rightarrow> string" where
  "searchText description merchantName = toLowerCase (description @ '' '' @ orEmpty merchantName)"

definition categorizeTransaction :: "string \<Rightarrow> string option \<Rightarrow> string" where
  "categorizeTransaction description merchantName =
     scanRules rules (searchText description merchantName)"


section \<open>Numbers\<close>

text \<open>
  A JavaScript number is a double: \<open>NaN\<close>, an infinity, or a finite value, which is kept
  as the rational that the double denotes. The two zeros are one value here; the programs
  below compare numbers and never look at the sign of a zero.
\<close>

datatype number = NaN | Num rat | Infinity | NegInfinity

subsection \<open>Rounding to the nearest double\<close>

text \<open>
  A real value becomes a number by rounding to the nearest double, ties to the even
  significand. \<open>binade a\<close> is the exponent \<open>e\<close> with \<open>2^e \<le> a < 2^(e+1)\<close>; the doubles
  of that binade are the multiples of \<open>2^(e-52)\<close>, and below \<open>2^-1022\<close> (the subnormal
  range) the multiples of \<open>2^-1074\<close>. A value that rounds to \<open>2^1024\<close> or more becomes
  an infinity, one that rounds to no multiple but zero becomes zero.
\<close>

definition pow2 :: "int \<Rightarrow> rat" where
  "pow2 k = (if 0 \<le> k then 2 ^ nat k else 1 / 2 ^ nat (- k))"

function bitLength :: "int \<Rightarrow> int" where
  "bitLength n = (if n \<le> 0 then 0 else 1 + bitLength (n div 2))"
  by pat_completeness auto
termination
  by (relation "measure nat") auto

declare bitLength.simps [simp del]

definition binade :: "rat \<Rightarrow> int" where
  "binade a =
     (let (p, d) = quotient_of a; k = bitLength p - bitLength d
      in if pow2 k \<le> a then k else k - 1)"

definition roundHalfEven :: "rat \<Rightarrow> int" where
  "roundHalfEven x =
     (let f = \<lfloor>x\<rfloor>; d = x - of_int f
      in if d < 1 / 2 then f else if 1 / 2 < d then f + 1 else if even f then f else f + 1)"

text \<open>The nearest double of a positive value, \<open>None\<close> when it is beyond the largest.\<close>

definition nearestDouble :: "rat \<Rightarrow> rat option" where
  "nearestDouble a =
     (let e = max (binade a) (- 1022);
          ulp = pow2 (e - 52);
          n = roundHalfEven (a / ulp)
      in if 1023 < e \<or> (e = 1023 \<and> n = 2 ^ 53) then None else Some (of_int n * ulp))"

definition toDouble :: "rat \<Rightarrow> number" where
  "toDouble q =
     (if q = 0 then Num 0
      else (case nearestDouble \<bar>q\<bar> of
              None \<Rightarrow> if q < 0 then NegInfinity else Infinity
            | Some r \<Rightarrow> Num (if q < 0 then - r else r)))"

subsection \<open>Operations on numbers\<close>

fun isNaN :: "number \<Rightarrow> bool" where
  "isNaN NaN = True"
| "isNaN _ = False"

text \<open>\<open>Math.abs\<close> and unary minus.\<close>

fun mathAbs :: "number \<Rightarrow> number" where
  "mathAbs NaN = NaN"
| "mathAbs (Num q) = Num \<bar>q\<bar>"
| "mathAbs Infinity = Infinity"
| "mathAbs NegInfinity = Infinity"

fun neg :: "number \<Rightarrow> number" where
  "neg NaN = NaN"
| "neg (Num q) = Num (- q)"
| "neg Infinity = NegInfinity"
| "neg NegInfinity = Infinity"

text \<open>\<open>x === 0\<close>, \<open>x > 0\<close> and \<open>x < 0\<close>; each is false on \<open>NaN\<close>.\<close>

fun isZero :: "number \<Rightarrow> bool" where
  "isZero (Num q) = (q = 0)"
| "isZero _ = False"

fun gtZero :: "number \<Rightarrow> bool" where
  "gtZero (Num q) = (0 < q)"
| "gtZero Infinity = True"
| "gtZero _ = False"

fun ltZero :: "number \<Rightarrow> bool" where
  "ltZero (Num q) = (q < 0)"
| "ltZero NegInfinity = True"
| "ltZero _ = False"

subsection \<open>The built-in \<open>parseInt\<close> and \<open>parseFloat\<close>\<close>

definition digitVal :: "char \<Rightarrow> nat" where
  "digitVal c = of_char c - 48"

definition digitsVal :: "string \<Rightarrow> nat" where
  "digitsVal ds = foldl (\<lambda>a c. 10 * a + digitVal c) 0 ds"

text \<open>The same value as an integer, for the digits of a decimal literal.\<close>

definition digitsInt :: "string \<Rightarrow> int" where
  "digitsInt ds = foldl (\<lambda>a c. 10 * a + int (digitVal c)) 0 ds"

text \<open>
  \<open>parseFloat\<close> skips leading white space, reads an optional sign, then either the word
  \<open>Infinity\<close> or the longest decimal literal that starts there (digits with an optional
  fraction, or a fraction alone, and an exponent when digits follow the \<open>e\<close>); whatever
  comes after is ignored. With no such literal the result is \<open>NaN\<close>; otherwise it is
  the double nearest to the value that the literal denotes.
\<close>

definition scale10 :: "rat \<Rightarrow> int \<Rightarrow> rat" where
  "scale10 q e = (if 0 \<le> e then q * 10 ^ nat e else q / 10 ^ nat (- e))"

definition exponentOf :: "string \<Rightarrow> int" where
  "exponentOf t =
     (case t of
        [] \<Rightarrow> 0
      | c # r \<Rightarrow>
          if c = CHR ''e'' \<or> c = CHR ''E'' then
            (case r of
               [] \<Rightarrow> 0
             | sg # r' \<Rightarrow>
                 if sg = CHR ''-'' then - int (digitsVal (takeWhile isDigit r'))
                 else if sg = CHR ''+'' then int (digitsVal (takeWhile isDigit r'))
                 else int (digitsVal (takeWhile isDigit r)))
          else 0)"

definition unsignedLiteral :: "string \<Rightarrow> rat option" where
  "unsignedLiteral t =
     (let ip = takeWhile isDigit t; r1 = dropWhile isDigit t;
          dotted = (r1 \<noteq> [] \<and> hd r1 = CHR ''.'');
          fp = (if dotted then takeWhile isDigit (tl r1) else []);
          r2 = (if dotted then dropWhile isDigit (tl r1) else r1)
      in if ip = [] \<and> fp = [] then None
         else Some (scale10
                (of_int (digitsInt ip) + of_int (digitsInt fp) / 10 ^ length fp)
                (exponentOf r2)))"

definition dropSign :: "string \<Rightarrow> string" where
  "dropSign t = (if t \<noteq> [] \<and> (hd t = CHR ''-'' \<or> hd t = CHR ''+'') then tl t else t)"

definition parseFloat :: "string \<Rightarrow> number" where
  "parseFloat s =
     (let t = dropWhile isSpace s;
          negative = (t \<noteq> [] \<and> hd t = CHR ''-'');
          u = dropSign t
      in if startsWith u ''Infinity'' then (if negative then NegInfinity else Infinity)
         else (case unsignedLiteral u of
                 None \<Rightarrow> NaN
               | Some q \<Rightarrow> toDouble (if negative then - q else q)))"

section \<open>Field normalizer: amounts\<close>

text \<open>
  \<open>parseAmount\<close> is the same text in the stand-alone parser and in the upload server.
  \<open>replace(/[$,\\s]/g, '')\<close> and \<open>replace(/[()]/g, '')\<close> delete every character of the
  class.
\<close>

definition stripAmount :: "string \<Rightarrow> string" where
  "stripAmount amountStr =
     filter (\<lambda>c. \<not> (c = CHR ''$'' \<or> c = CHR '','' \<or> isSpace c)) amountStr"

definition stripParens :: "string \<Rightarrow> string" where
  "stripParens t = filter (\<lambda>c. \<not> (c = CHR ''('' \<or> c = CHR '')'')) t"

definition hasParens :: "string \<Rightarrow> bool" where
  "hasParens t = (strIncludes t ''('' \<and> strIncludes t '')'')"

definition parseAmount :: "string \<Rightarrow> number" where
  "parseAmount amountStr =
     (let cleanAmount = stripAmount amountStr
      in if hasParens cleanAmount then
           (let number = parseFloat (stripParens cleanAmount)
            in if isNaN number then NaN else neg (mathAbs number))
         else
           (let number = parseFloat cleanAmount
            in if isNaN number then NaN else number))"

subsection \<open>Vocabulary for the amount properties\<close>

text \<open>
  \<open>startsNumeric t\<close>: after leading white space and an optional sign, \<open>t\<close> begins with
  \<open>Infinity\<close>, with a digit, or with a point followed by a digit.
\<close>

definition startsNumeric :: "string \<Rightarrow> bool" where
  "startsNumeric t =
     (let u = dropSign (dropWhile isSpace t)
      in startsWith u ''Infinity''
         \<or> (case u of
               [] \<Rightarrow> False
             | c # r \<Rightarrow> isDigit c
                 \<or> (c = CHR ''.'' \<and> (case r of [] \<Rightarrow> False | d # _ \<Rightarrow> isDigit d))))"

text \<open>
  \<open>decimalNumeral t\<close>, following the specification's words "a valid number": the whole
  of \<open>t\<close> is a sign-prefixed decimal numeral, digits with an optional fraction.
\<close>

definition decimalNumeral :: "string \<Rightarrow> bool" where
  "decimalNumeral t =
     (let u = dropSign t; ip = takeWhile isDigit u; r = dropWhile isDigit u
      in (ip \<noteq> [] \<and> r = [])
         \<or> (r \<noteq> [] \<and> hd r = CHR ''.'' \<and> list_all isDigit (tl r) \<and> (ip \<noteq> [] \<or> tl r \<noteq> [])))"

text \<open>
  The value that a decimal numeral denotes, and the characters that could continue a
  numeral: a digit, a point, and the letter of an exponent.
\<close>

definition numeralValue :: "string \<Rightarrow> rat" where
  "numeralValue t =
     (let u = dropSign t; ip = takeWhile isDigit u; r = dropWhile isDigit u;
          fp = (if r = [] then [] else tl r);
          v = of_int (digitsInt ip) + of_int (digitsInt fp) / 10 ^ length fp
      in if t \<noteq> [] \<and> hd t = CHR ''-'' then - v else v)"

definition continuesNumeral :: "char \<Rightarrow> bool" where
  "continuesNumeral c = (isDigit c \<or> c = CHR ''.'' \<or> c = CHR ''e'' \<or> c = CHR ''E'')"

text \<open>The text that \<open>parseAmount\<close> hands to \<open>parseFloat\<close>.\<close>

definition amountResidue :: "string \<Rightarrow> string" where
  "amountResidue amountStr =
     (if hasParens (stripAmount amountStr) then stripParens (stripAmount amountStr)
      else stripAmount amountStr)"

section \<open>Regular expressions\<close>

text \<open>
  The parsers match their input against regular-expression literals. The literals are
  kept as data and run by a backtracking matcher that returns the possible matches in
  the order in which the engine tries them: a greedy quantifier tries the longest
  repetition first, a lazy one the shortest, an alternation its left branch first. Every
  quantifier in the source applies to a single character class, which is what
  \<open>Repeat\<close> covers.
\<close>

datatype item = Digit | Space | Upper | Ch char

datatype cls = AnyChar | In "item list" | NotIn "item list"

fun itemOk :: "item \<Rightarrow> char \<Rightarrow> bool" where
  "itemOk Digit c = isDigit c"
| "itemOk Space c = isSpace c"
| "itemOk Upper c = isUpper c"
| "itemOk (Ch k) c = (c = k)"

text \<open>The dot matches every character but a line terminator.\<close>

fun clsOk :: "cls \<Rightarrow> char \<Rightarrow> bool" where
  "clsOk AnyChar c = (c \<noteq> CHR 0x0A \<and> c \<noteq> CHR 0x0D)"
| "clsOk (In its) c = list_ex (\<lambda>i. itemOk i c) its"
| "clsOk (NotIn its) c = (\<not> list_ex (\<lambda>i. itemOk i c) its)"

datatype rx =
    Atom cls
  | Repeat cls nat "nat option" bool  \<comment> \<open>class, least and most repetitions, greedy\<close>
  | Seq rx rx
  | Alt rx rx
  | Group nat rx  \<comment> \<open>capturing group with its number\<close>
  | StartAnchor
  | EndAnchor
  | Eps

type_synonym rxState = "nat \<times> string \<times> (nat \<times> string) list"
  \<comment> \<open>position, remaining input, captures (latest first)\<close>

fun rxRun :: "rx \<Rightarrow> rxState \<Rightarrow> rxState list" where
  "rxRun (Atom c) (p, s, g) =
     (case s of [] \<Rightarrow> [] | x # xs \<Rightarrow> if clsOk c x then [(Suc p, xs, g)] else [])"
| "rxRun (Repeat c lo hi greedy) (p, s, g) =
     (let avail = length (takeWhile (clsOk c) s);
          m = (case hi of None \<Rightarrow> avail | Some h \<Rightarrow> min h avail);
          ks = [lo..<Suc m]
      in map (\<lambda>k. (p + k, drop k s, g)) (if greedy then rev ks else ks))"
| "rxRun (Seq a b) st = concat (map (rxRun b) (rxRun a st))"
| "rxRun (Alt a b) st = rxRun a st @ rxRun b st"
| "rxRun (Group k r) (p, s, g) =
     map (\<lambda>(p', s', g'). (p', s', (k, take (p' - p) s) # g')) (rxRun r (p, s, g))"
| "rxRun StartAnchor (p, s, g) = (if p = 0 then [(p, s, g)] else [])"
| "rxRun EndAnchor (p, s, g) = (if s = [] then [(p, s, g)] else [])"
| "rxRun Eps st = [st]"

fun seqs :: "rx list \<Rightarrow> rx" where
  "seqs [] = Eps"
| "seqs [r] = r"
| "seqs (r # rs) = Seq r (seqs rs)"

text \<open>
  A match: where it starts, the matched text and the captures. \<open>rxSearch\<close> is the
  search of \<open>String.prototype.match\<close> without the global flag: the leftmost start
  position that admits a match, and there the first match in the engine's order.
\<close>

record rxMatch =
  mIndex :: nat
  mText :: string
  mGroups :: "(nat \<times> string) list"

fun rxSearch :: "rx \<Rightarrow> nat \<Rightarrow> string \<Rightarrow> rxMatch option" where
  "rxSearch r p [] =
     (case rxRun r (p, [], []) of
        [] \<Rightarrow> None
      | (e, s', g) # _ \<Rightarrow> Some \<lparr>mIndex = p, mText = [], mGroups = g\<rparr>)"
| "rxSearch r p (x # xs) =
     (case rxRun r (p, x # xs, []) of
        [] \<Rightarrow> rxSearch r (Suc p) xs
      | (e, s', g) # _ \<Rightarrow> Some \<lparr>mIndex = p, mText = take (e - p) (x # xs), mGroups = g\<rparr>)"

definition match :: "string \<Rightarrow> rx \<Rightarrow> rxMatch option" where
  "match s r = rxSearch r 0 s"

text \<open>\<open>m[k]\<close> for a capture group; a group that took no part in the match is undefined.\<close>

definition grp :: "rxMatch \<Rightarrow> nat \<Rightarrow> string option" where
  "grp m k = map_of (mGroups m) k"

text \<open>
  \<open>Array.from(s.matchAll(re))\<close> for a global expression: the matches from left to right,
  each search starting where the previous match ended (one further after an empty match).
\<close>

function matchAllFrom :: "rx \<Rightarrow> nat \<Rightarrow> string \<Rightarrow> rxMatch list" where
  "matchAllFrom r p s =
     (case rxSearch r p s of
        None \<Rightarrow> []
      | Some m \<Rightarrow>
          (let next = mIndex m - p + max 1 (length (mText m))
           in m # (if next \<le> length s then matchAllFrom r (p + next) (drop next s) else [])))"
  by pat_completeness auto
termination
  by (relation "measure (\<lambda>(r, p, s). length s)") auto

declare matchAllFrom.simps [simp del]

definition matchAll :: "string \<Rightarrow> rx \<Rightarrow> rxMatch list" where
  "matchAll s r = matchAllFrom r 0 s"

abbreviation digit :: cls where "digit \<equiv> In [Digit]"
abbreviation space :: cls where "space \<equiv> In [Space]"
abbreviation lit :: "char \<Rightarrow> cls" where "lit c \<equiv> In [Ch c]"
abbreviation digitOrComma :: cls where "digitOrComma \<equiv> In [Digit, Ch CHR '','']"

section \<open>Dates\<close>

text \<open>
  A valid \<open>Date\<close> object is modelled by its local calendar fields: \<open>getFullYear()\<close>,
  \<open>getMonth()\<close> (0 to 11), \<open>getDate()\<close> and the time of day in milliseconds. Two dates
  have the same \<open>toISOString()\<close> exactly when these fields agree. An invalid date is
  \<open>None\<close>.
\<close>

record jsDate =
  fullYear :: int
  month :: nat
  dayOfMonth :: nat
  msOfDay :: nat

definition isLeap :: "int \<Rightarrow> bool" where
  "isLeap y = (y mod 4 = 0 \<and> (y mod 100 \<noteq> 0 \<or> y mod 400 = 0))"

definition daysInMonth :: "int \<Rightarrow> nat \<Rightarrow> nat" where
  "daysInMonth y m =
     (if m = 1 then (if isLeap y then 29 else 28)
      else if m = 3 \<or> m = 5 \<or> m = 8 \<or> m = 10 then 30 else 31)"

definition nextMonth :: "int \<times> nat \<Rightarrow> int \<times> nat" where
  "nextMonth ym = (if snd ym = 11 then (fst ym + 1, 0) else (fst ym, Suc (snd ym)))"

definition prevMonth :: "int \<times> nat \<Rightarrow> int \<times> nat" where
  "prevMonth ym = (if snd ym = 0 then (fst ym - 1, 11) else (fst ym, snd ym - 1))"

text \<open>A day number past the end of its month is carried into the months that follow.\<close>

function rollForward :: "int \<times> nat \<Rightarrow> nat \<Rightarrow> jsDate" where
  "rollForward ym d =
     (if daysInMonth (fst ym) (snd ym) < d
      then rollForward (nextMonth ym) (d - daysInMonth (fst ym) (snd ym))
      else \<lparr>fullYear = fst ym, month = snd ym, dayOfMonth = d, msOfDay = 0\<rparr>)"
  by pat_completeness auto
termination
  by (relation "measure (\<lambda>(ym, d). d)") (auto simp: daysInMonth_def)

declare rollForward.simps [simp del]

text \<open>
  \<open>new Date(year, monthIndex, day)\<close> for integers, with a day that is not negative (the
  callers pass \<open>parseInt\<close> of a run of digits): a year from 0 to 99 stands for 1900 plus
  that year; a month index outside 0 to 11 moves the year; day 0 is the last day of the
  month before; local midnight.
\<close>

definition newDate :: "int \<Rightarrow> int \<Rightarrow> nat \<Rightarrow> jsDate" where
  "newDate y mi d =
     (let yr = (if 0 \<le> y \<and> y \<le> 99 then 1900 + y else y);
          ym = (yr + mi div 12, nat (mi mod 12))
      in if d = 0
         then (let pm = prevMonth ym
               in \<lparr>fullYear = fst pm, month = snd pm,
                   dayOfMonth = daysInMonth (fst pm) (snd pm), msOfDay = 0\<rparr>)
         else rollForward ym d)"

text \<open>\<open>parseInt\<close> of a run of decimal digits.\<close>

definition parseInt :: "string \<Rightarrow> int" where
  "parseInt ds = int (digitsVal ds)"

section \<open>Field normalizer: dates\<close>

text \<open>
  Two things come from outside the program: the current year (\<open>new Date().getFullYear()\<close>)
  and what the built-in constructor \<open>new Date(string)\<close> makes of a string. Both are
  parameters: \<open>currentYear\<close>, and \<open>dateOfString\<close>, which returns \<open>None\<close> for an invalid
  date.
\<close>

definition cleanDateOf :: "string \<Rightarrow> string" where
  "cleanDateOf dateStr = filter (\<lambda>c. isDigit c \<or> c = CHR ''/'' \<or> c = CHR ''-'') dateStr"

definition formats :: "rx list" where
  "formats =
    [seqs [StartAnchor, Group 1 (Repeat digit 1 (Some 2) True), Atom (lit CHR ''/''),
           Group 2 (Repeat digit 1 (Some 2) True), Atom (lit CHR ''/''),
           Group 3 (Repeat digit 4 (Some 4) True), EndAnchor],
     seqs [StartAnchor, Group 1 (Repeat digit 4 (Some 4) True), Atom (lit CHR ''-''),
           Group 2 (Repeat digit 2 (Some 2) True), Atom (lit CHR ''-''),
           Group 3 (Repeat digit 2 (Some 2) True), EndAnchor],
     seqs [StartAnchor, Group 1 (Repeat digit 1 (Some 2) True), Atom (lit CHR ''/''),
           Group 2 (Repeat digit 1 (Some 2) True), EndAnchor]]"

text \<open>\<open>parseInt(match[k])\<close>; the groups of the three formats always take part in a match.\<close>

definition intGrp :: "rxMatch \<Rightarrow> nat \<Rightarrow> int" where
  "intGrp m k = parseInt (case grp m k of None \<Rightarrow> [] | Some t \<Rightarrow> t)"

text \<open>The date that a matching format builds; \<open>i\<close> is the format's index in \<open>formats\<close>.\<close>

definition dateOfFormat :: "int \<Rightarrow> nat \<Rightarrow> rxMatch \<Rightarrow> jsDate" where
  "dateOfFormat currentYear i m =
     (if i = 2 then newDate currentYear (intGrp m 1 - 1) (nat (intGrp m 2))
      else if i = 1 then newDate (intGrp m 1) (intGrp m 2 - 1) (nat (intGrp m 3))
      else newDate (intGrp m 3) (intGrp m 1 - 1) (nat (intGrp m 2)))"

subsection \<open>The stand-alone parser\<close>

definition isValidDate :: "jsDate option \<Rightarrow> bool" where
  "isValidDate date =
     (case date of None \<Rightarrow> False | Some d \<Rightarrow> 1900 < fullYear d \<and> fullYear d < 2100)"

text \<open>
  The loop over the formats, from index \<open>i\<close> on: a format that matches and builds a valid
  date returns it; otherwise the loop goes on.
\<close>

fun tryFormats :: "int \<Rightarrow> string \<Rightarrow> nat \<Rightarrow> rx list \<Rightarrow> jsDate option" where
  "tryFormats currentYear cleanDate i [] = None"
| "tryFormats currentYear cleanDate i (format # rest) =
     (case match cleanDate format of
        None \<Rightarrow> tryFormats currentYear cleanDate (Suc i) rest
      | Some m \<Rightarrow>
          (let date = dateOfFormat currentYear i m
           in if isValidDate (Some date) then Some date
              else tryFormats currentYear cleanDate (Suc i) rest))"

definition parseDate :: "(string \<Rightarrow> jsDate option) \<Rightarrow> int \<Rightarrow> string \<Rightarrow> jsDate option" where
  "parseDate dateOfString currentYear dateStr =
     (case tryFormats currentYear (cleanDateOf dateStr) 0 formats of
        Some date \<Rightarrow> Some date
      | None \<Rightarrow>
          (let date = dateOfString dateStr
           in if isValidDate date then date else None))"

subsection \<open>The upload server\<close>

text \<open>
  The server's copy returns the date of the first format that matches, without a check
  of the year; its fallback accepts every valid date.
\<close>

fun firstFormat :: "int \<Rightarrow> string \<Rightarrow> nat \<Rightarrow> rx list \<Rightarrow> jsDate option" where
  "firstFormat currentYear cleanDate i [] = None"
| "firstFormat currentYear cleanDate i (format # rest) =
     (case match cleanDate format of
        None \<Rightarrow> firstFormat currentYear cleanDate (Suc i) rest
      | Some m \<Rightarrow> Some (dateOfFormat currentYear i m))"

definition serverParseDate :: "(string \<Rightarrow> jsDate option) \<Rightarrow> int \<Rightarrow> string \<Rightarrow> jsDate option" where
  "serverParseDate dateOfString currentYear dateStr =
     (case firstFormat currentYear (cleanDateOf dateStr) 0 formats of
        Some date \<Rightarrow> Some date
      | None \<Rightarrow> dateOfString dateStr)"

subsection \<open>Vocabulary for the date properties\<close>

text \<open>
  What the built-in constructor makes of the strings used in the examples below: it
  reads \<open>01/01/1900\<close> as that day, and \<open>garbage\<close> and the other strings as no date.
\<close>

definition dateOfStringSample :: "string \<Rightarrow> jsDate option" where
  "dateOfStringSample s =
     (if s = ''01/01/1900''
      then Some \<lparr>fullYear = 1900, month = 0, dayOfMonth = 1, msOfDay = 0\<rparr>
      else None)"

text \<open>A date of the calendar: a month from 0 to 11 and a day of that month.\<close>

definition calendarDate :: "jsDate \<Rightarrow> bool" where
  "calendarDate d =
     (month d < 12 \<and> 1 \<le> dayOfMonth d \<and> dayOfMonth d \<le> daysInMonth (fullYear d) (month d))"

section \<open>String operations of the parsers\<close>

definition trim :: "string \<Rightarrow> string" where
  "trim s = rev (dropWhile isSpace (rev (dropWhile isSpace s)))"

text \<open>
  \<open>s.replace(re, r)\<close> for a global expression and \<open>s.split(re)\<close>, both from the matches
  of \<open>matchAll\<close>: the text between the matches is kept.
\<close>

fun splice :: "nat \<Rightarrow> string \<Rightarrow> rxMatch list \<Rightarrow> string \<Rightarrow> string" where
  "splice p s [] r = s"
| "splice p s (m # ms) r =
     take (mIndex m - p) s @ r
       @ splice (mIndex m + length (mText m)) (drop (mIndex m - p + length (mText m)) s) ms r"

definition replaceAll :: "string \<Rightarrow> rx \<Rightarrow> string \<Rightarrow> string" where
  "replaceAll s re r = splice 0 s (matchAll s re) r"

fun pieces :: "nat \<Rightarrow> string \<Rightarrow> rxMatch list \<Rightarrow> string list" where
  "pieces p s [] = [s]"
| "pieces p s (m # ms) =
     take (mIndex m - p) s
       # pieces (mIndex m + length (mText m)) (drop (mIndex m - p + length (mText m)) s) ms"

definition splitRx :: "string \<Rightarrow> rx \<Rightarrow> string list" where
  "splitRx s re = pieces 0 s (matchAll s re)"

text \<open>\<open>s.split(' ')\<close> and \<open>words.join(' ')\<close>.\<close>

fun splitChar :: "char \<Rightarrow> string \<Rightarrow> string list" where
  "splitChar k [] = [[]]"
| "splitChar k (c # cs) =
     (if c = k then [] # splitChar k cs
      else (case splitChar k cs of [] \<Rightarrow> [[c]] | w # ws \<Rightarrow> (c # w) # ws))"

fun joinWith :: "string \<Rightarrow> string list \<Rightarrow> string" where
  "joinWith sep [] = []"
| "joinWith sep [w] = w"
| "joinWith sep (w # ws) = w @ sep @ joinWith sep ws"

text \<open>
  \<open>s.indexOf(k)\<close> and \<open>s.lastIndexOf(k)\<close>, \<open>None\<close> for -1; \<open>s.substring(a, b)\<close>, which
  swaps its arguments when the first is the larger and reads -1 as 0; \<open>s.replace(k, r)\<close>
  for a string \<open>k\<close>, which replaces the first occurrence.
\<close>

fun indexFrom :: "nat \<Rightarrow> string \<Rightarrow> string \<Rightarrow> nat option" where
  "indexFrom p [] k = (if k = [] then Some p else None)"
| "indexFrom p (c # cs) k = (if startsWith (c # cs) k then Some p else indexFrom (Suc p) cs k)"

definition indexOf :: "string \<Rightarrow> string \<Rightarrow> nat option" where
  "indexOf s k = indexFrom 0 s k"

fun lastIndexFrom :: "nat \<Rightarrow> string \<Rightarrow> string \<Rightarrow> nat option" where
  "lastIndexFrom p [] k = (if k = [] then Some p else None)"
| "lastIndexFrom p (c # cs) k =
     (case lastIndexFrom (Suc p) cs k of
        Some i \<Rightarrow> Some i
      | None \<Rightarrow> if startsWith (c # cs) k then Some p else None)"

definition lastIndexOf :: "string \<Rightarrow> string \<Rightarrow> nat option" where
  "lastIndexOf s k = lastIndexFrom 0 s k"

definition orZero :: "nat option \<Rightarrow> nat" where
  "orZero i = (case i of None \<Rightarrow> 0 | Some n \<Rightarrow> n)"

definition substring :: "string \<Rightarrow> nat \<Rightarrow> nat \<Rightarrow> string" where
  "substring s a b = (let lo = min a b; hi = max a b in take (hi - lo) (drop lo s))"

definition replaceFirst :: "string \<Rightarrow> string \<Rightarrow> string \<Rightarrow> string" where
  "replaceFirst s k r =
     (case indexOf s k of
        None \<Rightarrow> s
      | Some i \<Rightarrow> take i s @ r @ drop (i + length k) s)"

section \<open>Parsed transactions\<close>

text \<open>
  A row is the object that the CSV reader builds for a line, written as the list of its
  properties in the order in which \<open>Object.keys\<close>, \<open>Object.values\<close> and
  \<open>JSON.stringify\<close> go through them; the keys of a row are distinct.
  \<open>originalText\<close> is either the line the transaction was read from or
  \<open>JSON.stringify(row)\<close>; the serialized row is kept as the row it serializes.
\<close>

type_synonym row = "(string \<times> string) list"

datatype original = Line string | JsonOf row

text \<open>
  The reader builds the object of a line by assigning the cells, in column order, to the
  names of the header line. \<open>objectOf\<close> gives the properties of the object so built:
  a name that comes again keeps its place and takes the later cell; the names that are
  array indices (\<open>0\<close>, or digits without a leading zero, below \<open>2^32 - 1\<close>) come first,
  in ascending order, and the other names follow in the order of their first assignment.
\<close>

definition isArrayIndex :: "string \<Rightarrow> bool" where
  "isArrayIndex k =
     (k \<noteq> [] \<and> list_all isDigit k \<and> (k = ''0'' \<or> hd k \<noteq> CHR ''0'')
      \<and> digitsInt k < 4294967295)"

fun assign :: "row \<Rightarrow> string \<Rightarrow> string \<Rightarrow> row" where
  "assign [] k v = [(k, v)]"
| "assign ((k', v') # r) k v = (if k' = k then (k, v) # r else (k', v') # assign r k v)"

definition objectOf :: "(string \<times> string) list \<Rightarrow> row" where
  "objectOf cells =
     (let created = foldl (\<lambda>r kv. assign r (fst kv) (snd kv)) [] cells
      in sort_key (\<lambda>kv. digitsInt (fst kv)) (filter (\<lambda>kv. isArrayIndex (fst kv)) created)
         @ filter (\<lambda>kv. \<not> isArrayIndex (fst kv)) created)"

record parsedTransaction =
  date :: jsDate
  description :: string
  amount :: number
  originalText :: original
  merchantName :: "string option"

text \<open>
  \<open>row[field]\<close> used as a condition: the field is present and its text is not empty.
  \<open>cell row field\<close> is the text, empty when the field is absent.
\<close>

definition truthy :: "row \<Rightarrow> string \<Rightarrow> bool" where
  "truthy r field = (case map_of r field of None \<Rightarrow> False | Some v \<Rightarrow> v \<noteq> [])"

definition cell :: "row \<Rightarrow> string \<Rightarrow> string" where
  "cell r field = (case map_of r field of None \<Rightarrow> [] | Some v \<Rightarrow> v)"

section \<open>The stand-alone parser: building transactions\<close>

definition whitespaceRun :: rx where
  "whitespaceRun = Repeat space 1 None True"

definition extractMerchantName :: "string \<Rightarrow> string" where
  "extractMerchantName desc =
     (let cleaned = trim (replaceAll
            (filter (\<lambda>c. \<not> (c = CHR ''#'' \<or> c = CHR ''*''))
               (replaceAll (replaceAll desc (Repeat (lit CHR ''*'') 1 None True) [])
                  (Repeat digit 4 None True) []))
            whitespaceRun '' '');
          words = splitRx cleaned whitespaceRun
      in if 3 < length words then joinWith '' '' (take 3 words) else cleaned)"

definition amountTail :: "rx list" where
  "amountTail =
     [Group 3 (seqs [Repeat digitOrComma 1 None True, Repeat (lit CHR ''.'') 0 (Some 1) True,
                     Repeat digit 0 (Some 2) True]),
      EndAnchor]"

definition patterns :: "rx list" where
  "patterns =
    [seqs ([Group 1 (seqs [Repeat digit 1 (Some 2) True, Atom (lit CHR ''/''),
                           Repeat digit 1 (Some 2) True, Atom (lit CHR ''/''),
                           Repeat digit 4 (Some 4) True]),
            Repeat space 1 None True, Group 2 (Repeat AnyChar 1 None False),
            Repeat space 1 None True, Repeat (lit CHR ''$'') 0 (Some 1) True] @ amountTail),
     seqs ([Group 1 (seqs [Repeat digit 1 (Some 2) True, Atom (lit CHR ''/''),
                           Repeat digit 1 (Some 2) True]),
            Repeat space 1 None True, Group 2 (Repeat AnyChar 1 None False),
            Repeat space 1 None True, Repeat (lit CHR ''$'') 0 (Some 1) True] @ amountTail),
     seqs ([Group 1 (seqs [Repeat digit 4 (Some 4) True, Atom (lit CHR ''-''),
                           Repeat digit 2 (Some 2) True, Atom (lit CHR ''-''),
                           Repeat digit 2 (Some 2) True]),
            Repeat space 1 None True, Group 2 (Repeat AnyChar 1 None False),
            Repeat space 1 None True] @ amountTail)]"

definition strGrp :: "rxMatch \<Rightarrow> nat \<Rightarrow> string" where
  "strGrp m k = (case grp m k of None \<Rightarrow> [] | Some t \<Rightarrow> t)"

text \<open>
  The body of \<open>if (match)\<close> in \<open>parsePDFLine\<close>: \<open>None\<close> where the source says
  \<open>continue\<close>.
\<close>

definition lineOfMatch ::
  "(string \<Rightarrow> jsDate option) \<Rightarrow> int \<Rightarrow> string \<Rightarrow> rxMatch \<Rightarrow> parsedTransaction option" where
  "lineOfMatch dateOfString currentYear line m =
     (case parseDate dateOfString currentYear (strGrp m 1) of
        None \<Rightarrow> None
      | Some d \<Rightarrow>
          (let a = parseAmount (strGrp m 3)
           in if isNaN a \<or> isZero a then None
              else (let cleanDescription = trim (replaceAll (strGrp m 2) whitespaceRun '' '')
                    in if cleanDescription = [] \<or> length cleanDescription < 2 then None
                       else Some \<lparr>date = d, description = cleanDescription,
                                  amount = (if gtZero a then neg a else a),
                                  originalText = Line line,
                                  merchantName = Some (extractMerchantName cleanDescription)\<rparr>)))"

fun tryPatterns ::
  "(string \<Rightarrow> jsDate option) \<Rightarrow> int \<Rightarrow> string \<Rightarrow> rx list \<Rightarrow> parsedTransaction option" where
  "tryPatterns dateOfString currentYear line [] = None"
| "tryPatterns dateOfString currentYear line (pattern # rest) =
     (case match line pattern of
        None \<Rightarrow> tryPatterns dateOfString currentYear line rest
      | Some m \<Rightarrow>
          (case lineOfMatch dateOfString currentYear line m of
             None \<Rightarrow> tryPatterns dateOfString currentYear line rest
           | Some t \<Rightarrow> Some t))"

definition parsePDFLine ::
  "(string \<Rightarrow> jsDate option) \<Rightarrow> int \<Rightarrow> string \<Rightarrow> parsedTransaction option" where
  "parsePDFLine dateOfString currentYear line = tryPatterns dateOfString currentYear line patterns"

section \<open>The statement parser class: building transactions from lines\<close>

text \<open>
  \<open>StatementParser\<close> has its own copies of the helpers: a \<open>parseDate\<close> without fallback
  and without a check of the year, a \<open>parseAmount\<close> that only removes dollar signs and
  commas, and a merchant name without the white-space normalization.
\<close>

record spTransaction = parsedTransaction +
  merchantCategory :: string

definition spParseDate :: "int \<Rightarrow> string \<Rightarrow> jsDate option" where
  "spParseDate currentYear dateStr = firstFormat currentYear (cleanDateOf dateStr) 0 formats"

definition spParseAmount :: "string \<Rightarrow> number" where
  "spParseAmount amountStr =
     parseFloat (filter (\<lambda>c. \<not> (c = CHR ''$'' \<or> c = CHR '','')) amountStr)"

definition spExtractMerchantName :: "string \<Rightarrow> string" where
  "spExtractMerchantName desc =
     (let cleaned = trim (filter (\<lambda>c. \<not> (c = CHR ''#'' \<or> c = CHR ''*''))
            (replaceAll (replaceAll desc (Repeat (lit CHR ''*'') 1 None True) [])
               (Repeat digit 4 None True) []));
          parts = splitRx cleaned whitespaceRun
      in if 3 < length parts then joinWith '' '' (take 3 parts) else cleaned)"

definition categoryKeywords :: "rule list" where
  "categoryKeywords =
    [mkRule ''groceries'' [''grocery'', ''supermarket'', ''food'', ''market'', ''safeway'',
       ''kroger'', ''walmart''],
     mkRule ''gas'' [''gas'', ''fuel'', ''exxon'', ''shell'', ''chevron'', ''bp''],
     mkRule ''restaurants'' [''restaurant'', ''cafe'', ''coffee'', ''mcdonald'', ''subway'',
       ''pizza''],
     mkRule ''shopping'' [''amazon'', ''target'', ''store'', ''shop'', ''retail''],
     mkRule ''utilities'' [''electric'', ''water'', ''gas company'', ''utility''],
     mkRule ''transport'' [''uber'', ''lyft'', ''taxi'', ''bus'', ''metro''],
     mkRule ''entertainment'' [''movie'', ''theater'', ''netflix'', ''spotify''],
     mkRule ''healthcare'' [''pharmacy'', ''doctor'', ''hospital'', ''medical'']]"

definition guessMerchantCategory :: "string \<Rightarrow> string" where
  "guessMerchantCategory desc = scanRules categoryKeywords (toLowerCase desc)"

definition dateRegex :: rx where
  "dateRegex =
     Group 1
       (Alt (seqs [Repeat digit 1 (Some 2) True, Atom (lit CHR ''/''),
                   Repeat digit 1 (Some 2) True, Atom (lit CHR ''/''),
                   Repeat digit 4 (Some 4) True])
         (Alt (seqs [Repeat digit 4 (Some 4) True, Atom (lit CHR ''-''),
                     Repeat digit 2 (Some 2) True, Atom (lit CHR ''-''),
                     Repeat digit 2 (Some 2) True])
              (seqs [Repeat digit 2 (Some 2) True, Atom (lit CHR ''/''),
                     Repeat digit 2 (Some 2) True])))"

definition amountRegex :: rx where
  "amountRegex =
     seqs [Repeat (lit CHR ''$'') 0 (Some 1) True,
           Group 1 (seqs [Repeat digitOrComma 1 None True,
                          Repeat (lit CHR ''.'') 0 (Some 1) True,
                          Repeat digit 0 (Some 2) True])]"

text \<open>An index as the source computes with it: -1 when the text is not found.\<close>

definition idx :: "nat option \<Rightarrow> int" where
  "idx i = (case i of None \<Rightarrow> - 1 | Some n \<Rightarrow> int n)"

definition substringInt :: "string \<Rightarrow> int \<Rightarrow> int \<Rightarrow> string" where
  "substringInt s a b = substring s (nat a) (nat b)"

definition hasCreditKeyword :: "string \<Rightarrow> bool" where
  "hasCreditKeyword line =
     (strIncludes (toLowerCase line) ''payment'' \<or> strIncludes (toLowerCase line) ''credit'')"

definition spParsePDFLine :: "int \<Rightarrow> string \<Rightarrow> spTransaction option" where
  "spParsePDFLine currentYear line =
     (case match line dateRegex of
        None \<Rightarrow> None
      | Some dateMatch \<Rightarrow>
     (case spParseDate currentYear (strGrp dateMatch 1) of
        None \<Rightarrow> None
      | Some d \<Rightarrow>
     (let amountMatches = matchAll line amountRegex
      in if amountMatches = [] then None
         else
     (let lastMatch = last amountMatches;
          a = spParseAmount (strGrp lastMatch 1)
      in if isNaN a \<or> isZero a then None
         else
     (let dateEndIndex = idx (indexOf line (strGrp dateMatch 1)) + int (length (strGrp dateMatch 1));
          amountStartIndex = idx (lastIndexOf line (mText lastMatch));
          between = trim (substringInt line dateEndIndex amountStartIndex);
          desc = (if between = []
                  then trim (replaceFirst (replaceFirst line (mText dateMatch) [])
                               (mText lastMatch) [])
                  else between)
      in if desc = [] \<or> length desc < 3 then None
         else Some \<lparr>date = d, description = desc,
                    amount = (if hasCreditKeyword line then a else neg a),
                    originalText = Line line,
                    merchantName = Some (spExtractMerchantName desc),
                    merchantCategory = guessMerchantCategory desc\<rparr>)))))"

subsection \<open>Vocabulary for the properties of matches\<close>

fun rxClasses :: "rx \<Rightarrow> cls list" where
  "rxClasses (Atom c) = [c]"
| "rxClasses (Repeat c lo hi greedy) = [c]"
| "rxClasses (Seq a b) = rxClasses a @ rxClasses b"
| "rxClasses (Alt a b) = rxClasses a @ rxClasses b"
| "rxClasses (Group k r) = rxClasses r"
| "rxClasses StartAnchor = []"
| "rxClasses EndAnchor = []"
| "rxClasses Eps = []"

text \<open>\<open>rxAccepts r c\<close>: some character class of \<open>r\<close> admits \<open>c\<close>.\<close>

definition rxAccepts :: "rx \<Rightarrow> char \<Rightarrow> bool" where
  "rxAccepts r c = list_ex (\<lambda>k. clsOk k c) (rxClasses r)"

text \<open>
  \<open>sound r st st'\<close>: from \<open>st\<close> to \<open>st'\<close> the matcher consumed a piece of the input made of
  characters that \<open>r\<close> admits, and every capture it added is made of such characters.
\<close>

definition sound :: "rx \<Rightarrow> rxState \<Rightarrow> rxState \<Rightarrow> bool" where
  "sound r st st' =
     (\<exists>t new. fst (snd st) = t @ fst (snd st') \<and> fst st' = fst st + length t
        \<and> snd (snd st') = new @ snd (snd st)
        \<and> list_all (rxAccepts r) t
        \<and> list_all (\<lambda>kx. list_all (rxAccepts r) (snd kx)) new)"


definition groupsOk :: "rx \<Rightarrow> rxMatch \<Rightarrow> bool" where
  "groupsOk r m = list_all (\<lambda>kx. list_all (rxAccepts r) (snd kx)) (mGroups m)"

section \<open>The stand-alone parser: rows of a delimited file\<close>

text \<open>The three \<open>for\<close> loops over candidate field names, each with its \<open>break\<close>.\<close>

fun findDate ::
  "(string \<Rightarrow> jsDate option) \<Rightarrow> int \<Rightarrow> row \<Rightarrow> string list \<Rightarrow> jsDate option" where
  "findDate dateOfString currentYear r [] = None"
| "findDate dateOfString currentYear r (field # rest) =
     (if truthy r field
      then (case parseDate dateOfString currentYear (cell r field) of
              Some d \<Rightarrow> Some d
            | None \<Rightarrow> findDate dateOfString currentYear r rest)
      else findDate dateOfString currentYear r rest)"

fun findDescription :: "row \<Rightarrow> string list \<Rightarrow> string" where
  "findDescription r [] = []"
| "findDescription r (field # rest) =
     (if truthy r field \<and> trim (cell r field) \<noteq> [] then trim (cell r field)
      else findDescription r rest)"

fun findAmount :: "row \<Rightarrow> string list \<Rightarrow> number" where
  "findAmount r [] = Num 0"
| "findAmount r (field # rest) =
     (if truthy r field
      then (let parsedAmount = parseAmount (cell r field)
            in if \<not> isNaN parsedAmount \<and> \<not> isZero parsedAmount then parsedAmount
               else findAmount r rest)
      else findAmount r rest)"

text \<open>\<open>row['Debit'] || row['debit'] || row['DEBIT']\<close>, when it is truthy.\<close>

fun firstTruthy :: "row \<Rightarrow> string list \<Rightarrow> string option" where
  "firstTruthy r [] = None"
| "firstTruthy r (field # rest) =
     (if truthy r field then Some (cell r field) else firstTruthy r rest)"

definition debitCredit :: "row \<Rightarrow> number \<Rightarrow> number" where
  "debitCredit r amount0 =
     (let afterDebit =
            (case firstTruthy r [''Debit'', ''debit'', ''DEBIT''] of
               None \<Rightarrow> amount0
             | Some debit \<Rightarrow>
                 (let debitAmount = parseAmount debit
                  in if \<not> isNaN debitAmount then neg (mathAbs debitAmount) else amount0))
      in (case firstTruthy r [''Credit'', ''credit'', ''CREDIT''] of
            None \<Rightarrow> afterDebit
          | Some credit \<Rightarrow>
              (let creditAmount = parseAmount credit
               in if \<not> isNaN creditAmount then mathAbs creditAmount else afterDebit)))"

definition parseCSVRow ::
  "(string \<Rightarrow> jsDate option) \<Rightarrow> int \<Rightarrow> row \<Rightarrow> parsedTransaction option" where
  "parseCSVRow dateOfString currentYear r =
     (let dateFound = findDate dateOfString currentYear r
            [''Date'', ''Transaction Date'', ''Posted Date'', ''date'', ''DATE''];
          desc = findDescription r
            [''Description'', ''Merchant'', ''Transaction Description'', ''description'',
             ''DESCRIPTION'', ''Payee''];
          amount0 = findAmount r
            [''Amount'', ''Transaction Amount'', ''Debit'', ''Credit'', ''amount'', ''AMOUNT''];
          amount1 = (if isZero amount0 then debitCredit r amount0 else amount0)
      in (case dateFound of
            None \<Rightarrow> None
          | Some d \<Rightarrow>
              if desc = [] \<or> isZero amount1 then None
              else Some \<lparr>date = d, description = desc, amount = amount1,
                         originalText = JsonOf r,
                         merchantName = Some (extractMerchantName desc)\<rparr>))"

section \<open>The upload server: rows of a delimited file\<close>

text \<open>
  Of the object that the server builds for a row, the fields that the storage loop reads
  are kept (date, description, amount, original text, merchant name); the transaction
  type, memo, location, reference and card number are not part of the model.
\<close>

fun findServerDate ::
  "(string \<Rightarrow> jsDate option) \<Rightarrow> int \<Rightarrow> row \<Rightarrow> string list \<Rightarrow> jsDate option" where
  "findServerDate dateOfString currentYear r [] = None"
| "findServerDate dateOfString currentYear r (field # rest) =
     (if truthy r field
      then (case serverParseDate dateOfString currentYear (cell r field) of
              Some d \<Rightarrow> Some d
            | None \<Rightarrow> findServerDate dateOfString currentYear r rest)
      else findServerDate dateOfString currentYear r rest)"

definition dateFields :: "string list" where
  "dateFields = [''Date'', ''Transaction Date'', ''Posted Date'', ''date'']"

definition descriptionFields :: "string list" where
  "descriptionFields = [''Description'', ''Merchant'', ''Transaction Description'', ''description'']"

definition amountFields :: "string list" where
  "amountFields = [''Amount'', ''Transaction Amount'', ''Debit'', ''Credit'', ''amount'']"

definition firstWords :: "string \<Rightarrow> string" where
  "firstWords desc = joinWith '' '' (take 3 (splitChar CHR '' '' desc))"

definition rowWithHeaders ::
  "(string \<Rightarrow> jsDate option) \<Rightarrow> int \<Rightarrow> row \<Rightarrow> parsedTransaction option" where
  "rowWithHeaders dateOfString currentYear r =
     (let dateFound = findServerDate dateOfString currentYear r
            (dateFields @ [''Transaction Date'', ''Posted Date'']);
          desc = findDescription r ([''Name''] @ descriptionFields @ [''Transaction'']);
          amount1 =
            (if truthy r ''Debit'' then neg (mathAbs (parseAmount (cell r ''Debit'')))
             else if truthy r ''Credit'' then mathAbs (parseAmount (cell r ''Credit''))
             else findAmount r amountFields)
      in (case dateFound of
            None \<Rightarrow> None
          | Some d \<Rightarrow>
              if desc \<noteq> [] \<and> \<not> isZero amount1
              then Some \<lparr>date = d, description = desc, amount = amount1,
                         originalText = JsonOf r, merchantName = Some (firstWords desc)\<rparr>
              else None))"

definition parseRowsWithHeaders ::
  "(string \<Rightarrow> jsDate option) \<Rightarrow> int \<Rightarrow> row list \<Rightarrow> parsedTransaction list" where
  "parseRowsWithHeaders dateOfString currentYear rows =
     List.map_filter (rowWithHeaders dateOfString currentYear) rows"

text \<open>
  \<open>parseRowsWithoutHeaders\<close> reads \<open>Object.values(row)\<close> by position: the values of the
  row in the order of its properties.
\<close>

definition unquote :: "string \<Rightarrow> string" where
  "unquote s = filter (\<lambda>c. c \<noteq> CHR 0x22) s"

definition rowWithoutHeaders ::
  "(string \<Rightarrow> jsDate option) \<Rightarrow> int \<Rightarrow> row \<Rightarrow> parsedTransaction option" where
  "rowWithoutHeaders dateOfString currentYear r =
     (let values = map snd r
      in if 5 \<le> length values
         then (let dateStr = unquote (values ! 0);
                   amountStr = unquote (values ! 1);
                   desc = unquote (values ! 4);
                   a = parseAmount amountStr
               in (case serverParseDate dateOfString currentYear dateStr of
                     None \<Rightarrow> None
                   | Some d \<Rightarrow>
                       if desc \<noteq> [] \<and> \<not> isNaN a \<and> \<not> isZero a
                       then Some \<lparr>date = d, description = desc, amount = a,
                                  originalText = JsonOf r, merchantName = Some (firstWords desc)\<rparr>
                       else None))
         else None)"

definition parseRowsWithoutHeaders ::
  "(string \<Rightarrow> jsDate option) \<Rightarrow> int \<Rightarrow> row list \<Rightarrow> parsedTransaction list" where
  "parseRowsWithoutHeaders dateOfString currentYear rows =
     List.map_filter (rowWithoutHeaders dateOfString currentYear) rows"

text \<open>
  The test \<open>/date|description|amount|transaction|debit|credit|name|memo/i\<close> on a key or
  a value of the first row.
\<close>

definition headerWords :: "string list" where
  "headerWords = [''date'', ''description'', ''amount'', ''transaction'', ''debit'', ''credit'',
     ''name'', ''memo'']"

definition looksLikeHeader :: "string \<Rightarrow> bool" where
  "looksLikeHeader s = list_ex (\<lambda>w. strIncludes (toLowerCase s) w) headerWords"

definition hasHeaders :: "row \<Rightarrow> bool" where
  "hasHeaders firstRow = list_ex (\<lambda>kv. looksLikeHeader (fst kv) \<or> looksLikeHeader (snd kv)) firstRow"

text \<open>
  \<open>parseCSV\<close>, from the rows that the CSV reader delivers (an empty list also when the
  reader reports an error).
\<close>

definition parseCSV ::
  "(string \<Rightarrow> jsDate option) \<Rightarrow> int \<Rightarrow> row list \<Rightarrow> parsedTransaction list" where
  "parseCSV dateOfString currentYear rows =
     (case rows of
        [] \<Rightarrow> []
      | firstRow # _ \<Rightarrow>
          if \<not> hasHeaders firstRow then parseRowsWithoutHeaders dateOfString currentYear rows
          else parseRowsWithHeaders dateOfString currentYear rows)"

text \<open>The server's \<open>parsePDF\<close> finds no transactions, whatever the file holds.\<close>

definition parsePDF :: "string \<Rightarrow> parsedTransaction list" where
  "parsePDF content = []"

section \<open>The upload handler\<close>

text \<open>
  The store is the SQLite database of the development configuration, reduced to the two
  tables that the handler writes, and the directory of uploaded temporary files. Of a
  transaction row the generated id and the creation time are left out; no query of the
  handler reads them. The database is taken to be in working order: a statement fails
  only where a constraint of the schema rejects it, which for the statements of the
  handler is the \<open>NOT NULL\<close> constraint on the amount of a transaction. A temporary file
  can be unreadable, and its removal can be refused.
\<close>

record txRow =
  rAmount :: number
  rDescription :: string
  rMerchantName :: "string option"
  rDate :: jsDate
  rCategoryId :: string
  rSourceId :: string
  rOriginalText :: original

record fileRecord =
  fOriginalName :: string
  fSourceId :: string
  fStatus :: string
  fErrorMessage :: "string option"
  fTransactionsCount :: nat
  fProcessedCount :: nat
  fDuplicateCount :: nat

datatype fileEntry = Readable string | Unreadable string
  \<comment> \<open>the content, or the message of the error that reading raises\<close>

record world =
  transactions :: "txRow list"
  uploadedFiles :: "string \<rightharpoonup> fileRecord"
  files :: "string \<rightharpoonup> fileEntry"
  undeletable :: "string \<Rightarrow> bool"  \<comment> \<open>the paths whose removal raises an error\<close>

record upload =
  path :: string
  originalname :: string

record request =
  reqFile :: "upload option"  \<comment> \<open>\<open>req.file\<close>\<close>
  sourceId :: "string option"
  source_id :: "string option"

record previewItem =
  pDescription :: string
  pAmount :: number
  pDate :: jsDate
  pCategory :: string

record success =
  filename :: string
  transactionCount :: nat
  duplicateCount :: nat
  totalAmount :: number
  fileId :: string
  preview :: "previewItem list"

datatype body = ErrorBody string | SuccessBody success

record response =
  statusCode :: nat
  payload :: body

text \<open>
  What the handler takes from its surroundings: the built-in date constructor and the
  current year, as before; the rows that the CSV reader delivers for a file's content;
  and the identifier generated for the file record.
\<close>

record env =
  dateOfString :: "string \<Rightarrow> jsDate option"
  currentYear :: int
  csvRows :: "string \<Rightarrow> row list"
  newFileId :: string

subsection \<open>Format detection\<close>

datatype strategy = Delimited | LineBased | Unsupported

definition endsWith :: "string \<Rightarrow> string \<Rightarrow> bool" where
  "endsWith s ending =
     (length ending \<le> length s \<and> drop (length s - length ending) s = ending)"

definition detect :: "string \<Rightarrow> string \<Rightarrow> strategy" where
  "detect fileName content =
     (let isPdf = (take 4 content = ''%PDF'');
          isLikelyCsv = (endsWith fileName ''.csv'' \<or> strIncludes (take 100 content) '','')
      in if isLikelyCsv \<or> endsWith fileName ''.csv'' then Delimited
         else if isPdf \<or> endsWith fileName ''.pdf'' then LineBased
         else Unsupported)"

subsection \<open>Duplicate check and storage\<close>

text \<open>
  \<open>SELECT COUNT(*) FROM transactions WHERE description = ? AND amount = ? AND date = ?\<close>
  is positive: some stored row, of whatever source, agrees on the three columns. A \<open>NaN\<close>
  amount is bound as \<open>NULL\<close>, which is equal to nothing.
\<close>

definition sameKey :: "parsedTransaction \<Rightarrow> txRow \<Rightarrow> bool" where
  "sameKey tx r =
     (rDescription r = description tx \<and> rAmount r = amount tx \<and> rDate r = date tx)"

definition isDuplicate :: "txRow list \<Rightarrow> parsedTransaction \<Rightarrow> bool" where
  "isDuplicate rows tx = (\<not> isNaN (amount tx) \<and> list_ex (sameKey tx) rows)"

text \<open>
  \<open>INSERT INTO transactions\<close>; the column \<open>amount\<close> is declared \<open>REAL NOT NULL\<close>, so the
  insertion of a \<open>NaN\<close> amount raises an error (\<open>None\<close>).
\<close>

definition insertTransaction ::
  "txRow list \<Rightarrow> parsedTransaction \<Rightarrow> string \<Rightarrow> string \<Rightarrow> txRow list option" where
  "insertTransaction rows tx category sid =
     (if isNaN (amount tx) then None
      else Some (rows @ [\<lparr>rAmount = amount tx, rDescription = description tx,
                           rMerchantName = merchantName tx, rDate = date tx,
                           rCategoryId = category, rSourceId = sid,
                           rOriginalText = originalText tx\<rparr>]))"

text \<open>
  The loop over the transactions, with the rows stored so far, \<open>storedCount\<close> and
  \<open>duplicateCount\<close>; an error raised for one transaction is caught and the loop goes on.
\<close>

fun storeLoop ::
  "string \<Rightarrow> parsedTransaction list \<Rightarrow> txRow list \<times> nat \<times> nat \<Rightarrow> txRow list \<times> nat \<times> nat" where
  "storeLoop sid [] acc = acc"
| "storeLoop sid (tx # txs) (rows, stored, dups) =
     (let category = categorizeTransaction (description tx) (merchantName tx)
      in if isDuplicate rows tx then storeLoop sid txs (rows, stored, Suc dups)
         else (case insertTransaction rows tx category sid of
                 None \<Rightarrow> storeLoop sid txs (rows, stored, dups)
               | Some rows' \<Rightarrow> storeLoop sid txs (rows', Suc stored, dups)))"

subsection \<open>The handler\<close>

fun addNumber :: "number \<Rightarrow> number \<Rightarrow> number" where
  "addNumber NaN _ = NaN"
| "addNumber _ NaN = NaN"
| "addNumber (Num a) (Num b) = toDouble (a + b)"
| "addNumber Infinity NegInfinity = NaN"
| "addNumber NegInfinity Infinity = NaN"
| "addNumber Infinity _ = Infinity"
| "addNumber _ Infinity = Infinity"
| "addNumber NegInfinity _ = NegInfinity"
| "addNumber _ NegInfinity = NegInfinity"

definition orElse :: "string option \<Rightarrow> string option \<Rightarrow> string option" where
  "orElse a b = (case a of Some s \<Rightarrow> if s \<noteq> [] then Some s else b | None \<Rightarrow> b)"

definition sourceOf :: "request \<Rightarrow> string" where
  "sourceOf req =
     (case orElse (sourceId req) (orElse (source_id req) (Some ''default_credit_card'')) of
        Some s \<Rightarrow> s
      | None \<Rightarrow> ''default_credit_card'')"

definition readFileSync :: "world \<Rightarrow> string \<Rightarrow> string + string" where
  "readFileSync w p =
     (case files w p of
        None \<Rightarrow> Inl ''ENOENT: no such file or directory''
      | Some (Unreadable msg) \<Rightarrow> Inl msg
      | Some (Readable content) \<Rightarrow> Inr content)"

text \<open>
  \<open>fs.unlinkSync\<close> removes the file, or raises an error (\<open>None\<close>) when there is no such
  file or the removal is refused. The handler calls it inside
  \<open>try { ... } catch (error) { console.warn(...) }\<close>: an error is logged and has no other
  effect.
\<close>

definition unlinkSync :: "world \<Rightarrow> string \<Rightarrow> world option" where
  "unlinkSync w p =
     (if files w p = None \<or> undeletable w p then None
      else Some (w\<lparr>files := (files w)(p := None)\<rparr>))"

definition tryUnlink :: "world \<Rightarrow> string \<Rightarrow> world" where
  "tryUnlink w p = (case unlinkSync w p of None \<Rightarrow> w | Some w' \<Rightarrow> w')"

definition setStatus :: "world \<Rightarrow> string \<Rightarrow> (fileRecord \<Rightarrow> fileRecord) \<Rightarrow> world" where
  "setStatus w fid change =
     (case uploadedFiles w fid of
        None \<Rightarrow> w
      | Some r \<Rightarrow> w\<lparr>uploadedFiles := (uploadedFiles w)(fid \<mapsto> change r)\<rparr>)"

definition previewOf :: "parsedTransaction \<Rightarrow> previewItem" where
  "previewOf t =
     \<lparr>pDescription = description t, pAmount = amount t, pDate = date t,
      pCategory = categorizeTransaction (description t) (merchantName t)\<rparr>"

definition uploadHandler :: "env \<Rightarrow> world \<Rightarrow> request \<Rightarrow> world \<times> response" where
  "uploadHandler e w req =
     (case reqFile req of
        None \<Rightarrow> (w, \<lparr>statusCode = 400, payload = ErrorBody ''No file uploaded''\<rparr>)
      | Some f \<Rightarrow>
     (let fileName = toLowerCase (originalname f);
          fid = newFileId e;
          sid = sourceOf req;
          w1 = w\<lparr>uploadedFiles := (uploadedFiles w)(fid \<mapsto>
                 \<lparr>fOriginalName = originalname f, fSourceId = sid, fStatus = ''processing'',
                  fErrorMessage = None, fTransactionsCount = 0, fProcessedCount = 0,
                  fDuplicateCount = 0\<rparr>)\<rparr>
      in (case readFileSync w1 (path f) of
            Inl msg \<Rightarrow>
              (setStatus w1 fid (\<lambda>r. r\<lparr>fStatus := ''failed'', fErrorMessage := Some msg\<rparr>),
               \<lparr>statusCode = 500, payload = ErrorBody (''File processing failed: '' @ msg)\<rparr>)
          | Inr content \<Rightarrow>
     (case detect fileName content of
        Unsupported \<Rightarrow>
          (w1, \<lparr>statusCode = 400,
                payload = ErrorBody ''Unsupported file type. Use CSV or PDF files.''\<rparr>)
      | strat \<Rightarrow>
     (let txs = (if strat = Delimited
                 then parseCSV (dateOfString e) (currentYear e) (csvRows e content)
                 else parsePDF content)
      in if txs = []
         then (w1, \<lparr>statusCode = 400,
                    payload = ErrorBody ''No transactions found in the file''\<rparr>)
         else
     (case storeLoop sid txs (transactions w1, 0, 0) of
        (rows', stored, dups) \<Rightarrow>
          (let w2 = setStatus (w1\<lparr>transactions := rows'\<rparr>) fid
                      (\<lambda>r. r\<lparr>fTransactionsCount := length txs, fProcessedCount := stored,
                              fDuplicateCount := dups, fStatus := ''completed''\<rparr>);
               w3 = tryUnlink w2 (path f)
           in (w3, \<lparr>statusCode = 200,
                    payload = SuccessBody
                      \<lparr>filename = originalname f, transactionCount = stored,
                       duplicateCount = dups,
                       totalAmount = foldl (\<lambda>sum t. addNumber sum (mathAbs (amount t))) (Num 0) txs,
                       fileId = fid, preview = map previewOf (take 5 txs)\<rparr>\<rparr>))))))))"

section \<open>The categorizer class\<close>

text \<open>
  \<open>TransactionCategorizer\<close> has a table of its own, with a confidence for each rule, and
  keeps the categories that it loaded from the database; \<open>categories\<close> below is the list
  of their ids. A rule whose category is not among them is passed over.
\<close>

record confRule = rule +
  confidence :: number

text \<open>A rule of the table; its confidence is a decimal literal, read as a double.\<close>

definition mkConfRule :: "string \<Rightarrow> string list \<Rightarrow> rat \<Rightarrow> confRule" where
  "mkConfRule c ks q = \<lparr>categoryId = c, keywordList = ks, confidence = toDouble q\<rparr>"

text \<open>The product of two numbers, and the quotient of two lengths.\<close>

fun timesNumber :: "number \<Rightarrow> number \<Rightarrow> number" where
  "timesNumber NaN _ = NaN"
| "timesNumber _ NaN = NaN"
| "timesNumber (Num a) (Num b) = toDouble (a * b)"
| "timesNumber (Num a) y =
     (if a = 0 then NaN else if (0 < a) = (y = Infinity) then Infinity else NegInfinity)"
| "timesNumber x (Num b) =
     (if b = 0 then NaN else if (0 < b) = (x = Infinity) then Infinity else NegInfinity)"
| "timesNumber x y = (if x = y then Infinity else NegInfinity)"

definition ratio :: "nat \<Rightarrow> nat \<Rightarrow> number" where
  "ratio m n =
     (if n = 0 then (if m = 0 then NaN else Infinity) else toDouble (of_nat m / of_nat n))"

definition categorizerRules :: "confRule list" where
  "categorizerRules =
    [mkConfRule ''groceries'' [''grocery'', ''supermarket'', ''walmart'', ''target'', ''costco'',
       ''safeway'', ''kroger'', ''food'', ''market''] (9 / 10),
     mkConfRule ''gas'' [''gas'', ''fuel'', ''shell'', ''exxon'', ''chevron'', ''bp'', ''76'',
       ''mobil'', ''station''] (9 / 10),
     mkConfRule ''restaurants'' [''restaurant'', ''cafe'', ''coffee'', ''pizza'', ''burger'',
       ''taco'', ''subway'', ''mcdonald'', ''starbucks'', ''kfc'', ''dining''] (85 / 100),
     mkConfRule ''shopping'' [''amazon'', ''ebay'', ''shop'', ''store'', ''retail'', ''mall'',
       ''outlet'', ''department''] (8 / 10),
     mkConfRule ''utilities'' [''electric'', ''water'', ''gas company'', ''utility'', ''power'',
       ''energy'', ''pge'', ''edison''] (9 / 10),
     mkConfRule ''transport'' [''uber'', ''lyft'', ''taxi'', ''bus'', ''metro'', ''transit'',
       ''parking'', ''toll''] (85 / 100),
     mkConfRule ''entertainment'' [''netflix'', ''spotify'', ''hulu'', ''disney'', ''movie'',
       ''theater'', ''cinema'', ''concert'', ''game''] (85 / 100),
     mkConfRule ''healthcare'' [''pharmacy'', ''cvs'', ''walgreens'', ''doctor'', ''hospital'',
       ''medical'', ''clinic'', ''health''] (9 / 10),
     mkConfRule ''travel'' [''airline'', ''hotel'', ''booking'', ''expedia'', ''airbnb'',
       ''flight'', ''airport''] (85 / 100)]"

record categorizationResult =
  resultCategoryId :: string
  resultConfidence :: number
  reasoning :: string

fun scanConfRules :: "string list \<Rightarrow> confRule list \<Rightarrow> string \<Rightarrow> categorizationResult" where
  "scanConfRules categories [] text =
     \<lparr>resultCategoryId = ''other'', resultConfidence = toDouble (3 / 10),
      reasoning = ''No specific category rules matched, defaulted to Other''\<rparr>"
| "scanConfRules categories (r # rs) text =
     (let matched = filter (\<lambda>keyword. strIncludes text keyword) (keywordList r);
          matchCount = length matched
      in if 0 < matchCount \<and> categoryId r \<in> set categories
         then \<lparr>resultCategoryId = categoryId r,
               resultConfidence =
                 timesNumber (confidence r) (ratio matchCount (length (keywordList r))),
               reasoning = ''Matched keywords: '' @ joinWith '', '' matched\<rparr>
         else scanConfRules categories rs text)"

definition categorizerCategorize ::
  "string list \<Rightarrow> string \<Rightarrow> string option \<Rightarrow> categorizationResult" where
  "categorizerCategorize categories desc merchant =
     scanConfRules categories categorizerRules (searchText desc merchant)"

subsection \<open>Vocabulary for the handler's properties\<close>

text \<open>
  Sample surroundings for the examples: what the CSV reader delivers for two small files,
  an environment around it, and a request that uploads a file stored at \<open>/tmp/u1\<close>.
\<close>

definition debitFile :: string where
  "debitFile = ''Date,Description,Debit'' @ [CHR 0x0A] @ ''07/28/2024,Coffee,abc''
     @ [CHR 0x0A] @ ''07/27/2024,Tea,3.50''"

definition amountFile :: string where
  "amountFile = ''Date,Description,Amount'' @ [CHR 0x0A] @ ''07/28/2024,Walmart Supercenter,-89.45''
     @ [CHR 0x0A] @ ''07/27/2024,Shell Gas Station,-45.67''"

definition csvSample :: "string \<Rightarrow> row list" where
  "csvSample content =
     (if content = debitFile
      then map objectOf
           [[(''Date'', ''07/28/2024''), (''Description'', ''Coffee''), (''Debit'', ''abc'')],
            [(''Date'', ''07/27/2024''), (''Description'', ''Tea''), (''Debit'', ''3.50'')]]
      else if content = amountFile
      then map objectOf
           [[(''Date'', ''07/28/2024''), (''Description'', ''Walmart Supercenter''),
             (''Amount'', ''-89.45'')],
            [(''Date'', ''07/27/2024''), (''Description'', ''Shell Gas Station''),
             (''Amount'', ''-45.67'')]]
      else [])"

definition sampleEnv :: "string \<Rightarrow> env" where
  "sampleEnv fid =
     \<lparr>dateOfString = dateOfStringSample, currentYear = 2026, csvRows = csvSample,
      newFileId = fid\<rparr>"

definition sampleRequest :: "string \<Rightarrow> request" where
  "sampleRequest name =
     \<lparr>reqFile = Some \<lparr>path = ''/tmp/u1'', originalname = name\<rparr>, sourceId = Some ''card_A'',
      source_id = None\<rparr>"

definition worldWith :: "txRow list \<Rightarrow> fileEntry \<Rightarrow> world" where
  "worldWith rows entry =
     \<lparr>transactions = rows, uploadedFiles = Map.empty, files = [''/tmp/u1'' \<mapsto> entry],
      undeletable = (\<lambda>p. False)\<rparr>"

text \<open>Uploading again: the temporary file is written anew.\<close>

definition storeUpload :: "world \<Rightarrow> string \<Rightarrow> string \<Rightarrow> world" where
  "storeUpload w p content = w\<lparr>files := (files w)(p \<mapsto> Readable content)\<rparr>"

text \<open>The counts of a response: stored and duplicate transactions.\<close>

definition countsOf :: "response \<Rightarrow> (nat \<times> nat) option" where
  "countsOf r =
     (case payload r of
        ErrorBody msg \<Rightarrow> None
      | SuccessBody s \<Rightarrow> Some (transactionCount s, duplicateCount s))"

definition statusOf :: "world \<Rightarrow> string \<Rightarrow> string option" where
  "statusOf w fid = map_option fStatus (uploadedFiles w fid)"

definition sampleTx :: "nat \<Rightarrow> parsedTransaction" where
  "sampleTx ms =
     \<lparr>date = \<lparr>fullYear = 2024, month = 6, dayOfMonth = 28, msOfDay = ms\<rparr>,
      description = ''Coffee'', amount = Num (- 5), originalText = Line ''Coffee'',
      merchantName = Some ''Coffee''\<rparr>"

definition sampleRow :: "string \<Rightarrow> txRow" where
  "sampleRow sid =
     \<lparr>rAmount = Num (- 5), rDescription = ''Coffee'', rMerchantName = Some ''Coffee'',
      rDate = \<lparr>fullYear = 2024, month = 6, dayOfMonth = 28, msOfDay = 0\<rparr>,
      rCategoryId = ''restaurants'', rSourceId = sid, rOriginalText = Line ''Coffee''\<rparr>"

text \<open>
  The file record written when the upload is received, the world after that write, and
  the transactions that the selected strategy extracts.
\<close>

definition processingRecord :: "upload \<Rightarrow> string \<Rightarrow> fileRecord" where
  "processingRecord f sid =
     \<lparr>fOriginalName = originalname f, fSourceId = sid, fStatus = ''processing'',
      fErrorMessage = None, fTransactionsCount = 0, fProcessedCount = 0,
      fDuplicateCount = 0\<rparr>"

definition received :: "env \<Rightarrow> world \<Rightarrow> request \<Rightarrow> upload \<Rightarrow> world" where
  "received e w req f =
     w\<lparr>uploadedFiles := (uploadedFiles w)(newFileId e \<mapsto> processingRecord f (sourceOf req))\<rparr>"

definition extracted :: "env \<Rightarrow> string \<Rightarrow> string \<Rightarrow> parsedTransaction list" where
  "extracted e fileName content =
     (if detect fileName content = Delimited
      then parseCSV (dateOfString e) (currentYear e) (csvRows e content)
      else parsePDF content)"

text \<open>
  The two runs of the examples: a first upload into an empty store, and the upload of
  the same content again into the store that the first run left.
\<close>

definition firstRun :: "string \<Rightarrow> world \<times> response" where
  "firstRun content =
     uploadHandler (sampleEnv ''file_1'') (worldWith [] (Readable content))
       (sampleRequest ''stmt.csv'')"

definition secondRun :: "string \<Rightarrow> world \<times> response" where
  "secondRun content =
     uploadHandler (sampleEnv ''file_2'')
       (storeUpload (fst (firstRun content)) ''/tmp/u1'' content) (sampleRequest ''stmt.csv'')"

definition sampleUpload :: "string \<Rightarrow> upload" where
  "sampleUpload name = \<lparr>path = ''/tmp/u1'', originalname = name\<rparr>"

definition teaRow :: txRow where
  "teaRow =
     \<lparr>rAmount = Num (- (7 / 2)), rDescription = ''Tea'', rMerchantName = Some ''Tea'',
      rDate = \<lparr>fullYear = 2024, month = 6, dayOfMonth = 27, msOfDay = 0\<rparr>,
      rCategoryId = ''other'', rSourceId = ''card_A'',
      rOriginalText = JsonOf [(''Date'', ''07/27/2024''), (''Description'', ''Tea''),
        (''Debit'', ''3.50'')]\<rparr>"

definition nanTx :: parsedTransaction where
  "nanTx =
     \<lparr>date = \<lparr>fullYear = 2024, month = 6, dayOfMonth = 28, msOfDay = 0\<rparr>,
      description = ''Coffee'', amount = NaN,
      originalText = JsonOf [(''Date'', ''07/28/2024''), (''Description'', ''Coffee''),
        (''Debit'', ''abc'')],
      merchantName = Some ''Coffee''\<rparr>"

definition teaTx :: parsedTransaction where
  "teaTx =
     \<lparr>date = \<lparr>fullYear = 2024, month = 6, dayOfMonth = 27, msOfDay = 0\<rparr>,
      description = ''Tea'', amount = Num (- (7 / 2)),
      originalText = JsonOf [(''Date'', ''07/27/2024''), (''Description'', ''Tea''),
        (''Debit'', ''3.50'')],
      merchantName = Some ''Tea''\<rparr>"

section \<open>Properties of the categorizer\<close>

lemma scanRules_none:
  "(\<forall>r \<in> set rs. \<not> ruleMatches text r) \<Longrightarrow> scanRules rs text = ''other''"
  by (induction rs) simp_all

lemma scanRules_first:
  "i < length rs \<Longrightarrow> ruleMatches text (rs ! i) \<Longrightarrow> (\<forall>j<i. \<not> ruleMatches text (rs ! j))
   \<Longrightarrow> scanRules rs text = categoryId (rs ! i)"
proof (induction rs arbitrary: i)
  case Nil
  then show ?case by simp
next
  case (Cons r rs)
  show ?case
  proof (cases i)
    case 0
    with Cons.prems show ?thesis by simp
  next
    case (Suc k)
    with Cons.prems have "\<not> ruleMatches text r" by auto
    moreover have "scanRules rs text = categoryId (rs ! k)"
    proof (rule Cons.IH)
      show "k < length rs" using Cons.prems(1) Suc by simp
      show "ruleMatches text (rs ! k)" using Cons.prems(2) Suc by simp
      show "\<forall>j<k. \<not> ruleMatches text (rs ! j)"
      proof (intro allI impI)
        fix j assume "j < k"
        then have "Suc j < i" using Suc by simp
        with Cons.prems(3) have "\<not> ruleMatches text ((r # rs) ! Suc j)" by blast
        then show "\<not> ruleMatches text (rs ! j)" by simp
      qed
    qed
    ultimately show ?thesis using Suc by simp
  qed
qed

lemma ruleMatches_filter:
  "ruleMatches text r \<longleftrightarrow> 0 < length (filter (\<lambda>keyword. strIncludes text keyword) (keywordList r))"
  by (simp add: ruleMatches_def list_ex_iff filter_empty_conv)

lemma scanConfRules_first:
  "i < length rs \<Longrightarrow> ruleMatches text (rs ! i) \<Longrightarrow> categoryId (rs ! i) \<in> set cats
   \<Longrightarrow> (\<forall>j<i. \<not> (ruleMatches text (rs ! j) \<and> categoryId (rs ! j) \<in> set cats))
   \<Longrightarrow> resultCategoryId (scanConfRules cats rs text) = categoryId (rs ! i)"
proof (induction rs arbitrary: i)
  case Nil
  then show ?case by simp
next
  case (Cons r rs)
  show ?case
  proof (cases i)
    case 0
    with Cons.prems show ?thesis by (simp add: ruleMatches_filter Let_def)
  next
    case (Suc k)
    have head: "\<not> (ruleMatches text r \<and> categoryId r \<in> set cats)"
      using Cons.prems(4) [rule_format, of 0] Suc by simp
    have "resultCategoryId (scanConfRules cats rs text) = categoryId (rs ! k)"
    proof (rule Cons.IH)
      show "k < length rs" using Cons.prems(1) Suc by simp
      show "ruleMatches text (rs ! k)" using Cons.prems(2) Suc by simp
      show "categoryId (rs ! k) \<in> set cats" using Cons.prems(3) Suc by simp
      show "\<forall>j<k. \<not> (ruleMatches text (rs ! j) \<and> categoryId (rs ! j) \<in> set cats)"
      proof (intro allI impI)
        fix j assume "j < k"
        then show "\<not> (ruleMatches text (rs ! j) \<and> categoryId (rs ! j) \<in> set cats)"
          using Cons.prems(4) [rule_format, of "Suc j"] Suc by simp
      qed
    qed
    then show ?thesis using head Suc by (auto simp: ruleMatches_filter Let_def)
  qed
qed

lemma scanConfRules_none:
  "(\<forall>r\<in>set rs. \<not> (ruleMatches text r \<and> categoryId r \<in> set cats))
   \<Longrightarrow> resultCategoryId (scanConfRules cats rs text) = ''other''"
  by (induction rs) (auto simp: ruleMatches_filter Let_def)

text \<open>
  C3, as the code has it. Both categorizers search the lowercased text
  \<open>description + ' ' + merchantName\<close> and go through their rule table in its order. The
  server's \<open>categorizeTransaction\<close> answers with the category of the first rule that has a
  keyword occurring in the text as a substring, whatever later rules match and however
  many of their keywords do; when no rule matches the answer is \<open>other\<close>. The class
  \<open>TransactionCategorizer\<close> answers with the first such rule whose category is among the
  loaded categories, and with \<open>other\<close> when there is none.
\<close>

theorem categorizers_first_rule_wins:
  "(\<forall>i<length rules.
      ruleMatches (searchText d m) (rules ! i)
      \<and> (\<forall>j<i. \<not> ruleMatches (searchText d m) (rules ! j))
      \<longrightarrow> categorizeTransaction d m = categoryId (rules ! i))
   \<and> ((\<forall>r\<in>set rules. \<not> ruleMatches (searchText d m) r)
      \<longrightarrow> categorizeTransaction d m = ''other'')
   \<and> (\<forall>i<length categorizerRules.
      ruleMatches (searchText d m) (categorizerRules ! i)
      \<and> categoryId (categorizerRules ! i) \<in> set cats
      \<and> (\<forall>j<i. \<not> (ruleMatches (searchText d m) (categorizerRules ! j)
                  \<and> categoryId (categorizerRules ! j) \<in> set cats))
      \<longrightarrow> resultCategoryId (categorizerCategorize cats d m) = categoryId (categorizerRules ! i))
   \<and> ((\<forall>r\<in>set categorizerRules.
          \<not> (ruleMatches (searchText d m) r \<and> categoryId r \<in> set cats))
      \<longrightarrow> resultCategoryId (categorizerCategorize cats d m) = ''other'')"
proof (intro conjI)
  show "\<forall>i<length rules.
      ruleMatches (searchText d m) (rules ! i)
      \<and> (\<forall>j<i. \<not> ruleMatches (searchText d m) (rules ! j))
      \<longrightarrow> categorizeTransaction d m = categoryId (rules ! i)"
    unfolding categorizeTransaction_def
    using scanRules_first [of _ rules "searchText d m"] by blast
next
  show "(\<forall>r\<in>set rules. \<not> ruleMatches (searchText d m) r)
      \<longrightarrow> categorizeTransaction d m = ''other''"
    unfolding categorizeTransaction_def
    using scanRules_none [of rules "searchText d m"] by blast
next
  show "\<forall>i<length categorizerRules.
      ruleMatches (searchText d m) (categorizerRules ! i)
      \<and> categoryId (categorizerRules ! i) \<in> set cats
      \<and> (\<forall>j<i. \<not> (ruleMatches (searchText d m) (categorizerRules ! j)
                  \<and> categoryId (categorizerRules ! j) \<in> set cats))
      \<longrightarrow> resultCategoryId (categorizerCategorize cats d m) = categoryId (categorizerRules ! i)"
    unfolding categorizerCategorize_def
    using scanConfRules_first [of _ categorizerRules "searchText d m" cats] by blast
next
  show "(\<forall>r\<in>set categorizerRules.
          \<not> (ruleMatches (searchText d m) r \<and> categoryId r \<in> set cats))
      \<longrightarrow> resultCategoryId (categorizerCategorize cats d m) = ''other''"
    unfolding categorizerCategorize_def
    using scanConfRules_none [of categorizerRules "searchText d m" cats] by blast
qed

theorem categorizers_first_rule_wins_witness:
  "ruleMatches (searchText ''NETFLIX GYM YOGA'' (Some ''Fitness'')) (rules ! 0)
   \<and> ruleMatches (searchText ''NETFLIX GYM YOGA'' (Some ''Fitness'')) (rules ! 1)
   \<and> length (filter (strIncludes (searchText ''NETFLIX GYM YOGA'' (Some ''Fitness'')))
        (keywordList (rules ! 0))) = 1
   \<and> length (filter (strIncludes (searchText ''NETFLIX GYM YOGA'' (Some ''Fitness'')))
        (keywordList (rules ! 1))) = 3
   \<and> categorizeTransaction ''NETFLIX GYM YOGA'' (Some ''Fitness'') = ''subscriptions''
   \<and> list_all (\<lambda>r. \<not> ruleMatches (searchText ''ACME 12'' None) r) rules
   \<and> categorizeTransaction ''ACME 12'' None = ''other''
   \<and> resultCategoryId (categorizerCategorize [''gas'', ''groceries''] ''Walmart gas station'' None)
       = ''groceries''
   \<and> resultCategoryId (categorizerCategorize [''gas'', ''groceries''] ''ACME 12'' None) = ''other''"
proof -
  let ?t = "searchText ''NETFLIX GYM YOGA'' (Some ''Fitness'')"
  have len: "0 < length rules" by code_simp
  have m0: "ruleMatches ?t (rules ! 0)" by code_simp
  have m1: "ruleMatches ?t (rules ! 1)" by code_simp
  have c0: "length (filter (strIncludes ?t) (keywordList (rules ! 0))) = 1" by code_simp
  have c1: "length (filter (strIncludes ?t) (keywordList (rules ! 1))) = 3" by code_simp
  have id0: "categoryId (rules ! 0) = ''subscriptions''" by code_simp
  have none: "list_all (\<lambda>r. \<not> ruleMatches (searchText ''ACME 12'' None) r) rules"
    by code_simp
  have first: "categorizeTransaction ''NETFLIX GYM YOGA'' (Some ''Fitness'') = ''subscriptions''"
    using categorizers_first_rule_wins [of "''NETFLIX GYM YOGA''" "Some ''Fitness''"]
      len m0 id0 by force
  have other: "categorizeTransaction ''ACME 12'' None = ''other''"
    using categorizers_first_rule_wins [of "''ACME 12''" None] none
    by (simp add: list_all_iff)
  let ?c = "[''gas'', ''groceries'']"
  let ?w = "searchText ''Walmart gas station'' None"
  have clen: "0 < length categorizerRules" by code_simp
  have w0: "ruleMatches ?w (categorizerRules ! 0)" by code_simp
  have l0: "categoryId (categorizerRules ! 0) \<in> set ?c" by code_simp
  have cid: "categoryId (categorizerRules ! 0) = ''groceries''" by code_simp
  have cfirst: "resultCategoryId (categorizerCategorize ?c ''Walmart gas station'' None)
      = ''groceries''"
    using categorizers_first_rule_wins [of "''Walmart gas station''" None ?c] clen w0 l0 cid
    by force
  have cnone: "list_all (\<lambda>r. \<not> (ruleMatches (searchText ''ACME 12'' None) r
      \<and> categoryId r \<in> set ?c)) categorizerRules"
    by code_simp
  have cother: "resultCategoryId (categorizerCategorize ?c ''ACME 12'' None) = ''other''"
    using categorizers_first_rule_wins [of "''ACME 12''" None ?c] cnone
    by (simp add: list_all_iff)
  show ?thesis using m0 m1 c0 c1 first other none cfirst cother by blast
qed

text \<open>
  The claim fails on the class: when the category of a matching rule is not loaded, a
  later rule wins or the answer is \<open>other\<close>.
\<close>

theorem categorizer_unloaded_category_counterexample:
  "ruleMatches (searchText ''Walmart gas station'' None) (categorizerRules ! 0)
   \<and> ruleMatches (searchText ''Walmart gas station'' None) (categorizerRules ! 1)
   \<and> resultCategoryId (categorizerCategorize [''gas''] ''Walmart gas station'' None) = ''gas''
   \<and> resultCategoryId (categorizerCategorize [] ''Walmart gas station'' None) = ''other''"
  by code_simp

section \<open>Properties of rounding\<close>

text \<open>
  \<open>toDouble\<close> rounds correctly: \<open>binade\<close> finds the binade of a positive value; the
  result is a multiple of the spacing of the doubles there, with a significand of at most
  53 bits, and lies within half that spacing of the value; values from \<open>2^1024\<close> on become an
  infinity and values below \<open>2^-1075\<close> become zero.
\<close>

lemma pow2_powi: "pow2 k = 2 powi k"
  by (simp add: pow2_def power_int_def inverse_eq_divide power_one_over)

lemma pow2_pos: "0 < pow2 k"
  by (simp add: pow2_def)

lemma pow2_add: "pow2 (i + j) = pow2 i * pow2 j"
  by (simp add: pow2_powi power_int_add)

lemma pow2_Suc: "pow2 (k + 1) = 2 * pow2 k"
  by (simp add: pow2_powi power_int_add)

lemma pow2_mono: "i \<le> j \<Longrightarrow> pow2 i \<le> pow2 j"
  by (simp add: pow2_powi power_int_increasing)

lemma bitLength_pos: "0 < n \<Longrightarrow> 1 \<le> bitLength n"
proof (induction n rule: bitLength.induct)
  case (1 n)
  show ?case
  proof (cases "0 < n div 2")
    case True
    then have "1 \<le> bitLength (n div 2)" using 1 by simp
    then show ?thesis using 1(2) by (simp add: bitLength.simps [of n])
  next
    case False
    then have "bitLength (n div 2) = 0" by (simp add: bitLength.simps [of "n div 2"])
    then show ?thesis using 1(2) by (simp add: bitLength.simps [of n])
  qed
qed

lemma bitLength_bounds:
  "0 < n \<Longrightarrow> pow2 (bitLength n - 1) \<le> of_int n \<and> of_int n < pow2 (bitLength n)"
proof (induction n rule: bitLength.induct)
  case (1 n)
  have bl: "bitLength n = 1 + bitLength (n div 2)" using 1(2) by (simp add: bitLength.simps [of n])
  show ?case
  proof (cases "0 < n div 2")
    case True
    let ?b = "bitLength (n div 2)"
    have ih: "pow2 (?b - 1) \<le> of_int (n div 2)" "of_int (n div 2) < pow2 ?b"
      using 1 True by simp_all
    have lo: "2 * (n div 2) \<le> n" by simp
    have hi: "n < 2 * (n div 2 + 1)" by simp
    have "pow2 ?b = 2 * pow2 (?b - 1)" using pow2_Suc [of "?b - 1"] by simp
    also have "\<dots> \<le> 2 * of_int (n div 2)" using ih(1) by simp
    also have "\<dots> = of_int (2 * (n div 2))" by simp
    also have "\<dots> \<le> of_int n" using lo by (simp only: of_int_le_iff)
    finally have a: "pow2 ?b \<le> of_int n" .
    have "(of_int (n div 2) :: rat) < pow2 ?b" by (rule ih(2))
    have int_lt: "n div 2 + 1 \<le> 2 ^ nat ?b"
    proof -
      have "0 \<le> ?b" using bitLength_pos [OF True] by simp
      then have "pow2 ?b = of_int (2 ^ nat ?b)" by (simp add: pow2_def)
      then have "(of_int (n div 2) :: rat) < of_int (2 ^ nat ?b)" using ih(2) by simp
      then have "n div 2 < 2 ^ nat ?b" by (simp only: of_int_less_iff)
      then show ?thesis by simp
    qed
    have "n < 2 * 2 ^ nat ?b" using hi int_lt by linarith
    then have "(of_int n :: rat) < of_int (2 * 2 ^ nat ?b)" by (simp only: of_int_less_iff)
    also have "\<dots> = 2 * pow2 ?b" using bitLength_pos [OF True] by (simp add: pow2_def)
    also have "\<dots> = pow2 (?b + 1)" by (simp add: pow2_Suc)
    finally have b: "(of_int n :: rat) < pow2 (1 + ?b)" by (simp add: add.commute)
    show ?thesis unfolding bl using a b by simp
  next
    case False
    then have "n = 1" using 1(2) by linarith
    have "bitLength (n div 2) = 0" using False by (simp add: bitLength.simps [of "n div 2"])
    then show ?thesis unfolding bl using \<open>n = 1\<close> by (simp add: pow2_def)
  qed
qed

lemma binade_bounds:
  assumes "0 < a"
  shows "pow2 (binade a) \<le> a \<and> a < pow2 (binade a + 1)"
proof -
  obtain p d where pd: "quotient_of a = (p, d)" by (cases "quotient_of a")
  have d: "0 < d" using pd quotient_of_denom_pos by blast
  have a: "a = of_int p / of_int d" using pd by (rule quotient_of_div)
  have p: "0 < p" using assms a d by (simp add: zero_less_divide_iff)
  let ?k = "bitLength p - bitLength d"
  note bp = bitLength_bounds [OF p]
  note bd = bitLength_bounds [OF d]
  have dpos: "(0::rat) < of_int d" using d by simp
  have up: "a < pow2 (?k + 1)"
  proof -
    have "of_int p < pow2 (bitLength p)" using bp by simp
    also have "\<dots> = pow2 (?k + 1) * pow2 (bitLength d - 1)"
      by (simp add: pow2_add [symmetric])
    also have "\<dots> \<le> pow2 (?k + 1) * of_int d"
      using bd pow2_pos [of "?k + 1"] by (simp add: mult_left_mono)
    finally show ?thesis using dpos by (simp add: a pos_divide_less_eq)
  qed
  have low: "pow2 (?k - 1) \<le> a"
  proof -
    have "pow2 (?k - 1) * of_int d \<le> pow2 (?k - 1) * pow2 (bitLength d)"
      using bd pow2_pos [of "?k - 1"] by (simp add: mult_left_mono)
    also have "\<dots> = pow2 (bitLength p - 1)" by (simp add: pow2_add [symmetric])
    also have "\<dots> \<le> of_int p" using bp by simp
    finally show ?thesis using dpos by (simp add: a pos_le_divide_eq)
  qed
  show ?thesis
  proof (cases "pow2 ?k \<le> a")
    case True
    then have "binade a = ?k" by (simp add: binade_def pd Let_def)
    then show ?thesis using True up by simp
  next
    case False
    then have "binade a = ?k - 1" by (simp add: binade_def pd Let_def)
    then show ?thesis using False low by simp
  qed
qed

lemma roundHalfEven_near: "\<bar>of_int (roundHalfEven x) - x\<bar> \<le> 1 / 2"
proof -
  define f where "f = \<lfloor>x\<rfloor>"
  have b: "of_int f \<le> x" "x < of_int f + 1" unfolding f_def by linarith+
  have r: "roundHalfEven x =
      (if x - of_int f < 1 / 2 then f else if 1 / 2 < x - of_int f then f + 1
       else if even f then f else f + 1)"
    by (simp add: roundHalfEven_def Let_def f_def)
  consider "x - of_int f < 1 / 2" | "1 / 2 < x - of_int f" | "x - of_int f = 1 / 2"
    by linarith
  then show ?thesis
  proof cases
    case 1
    then have "roundHalfEven x = f" using r by simp
    then show ?thesis using b 1 by linarith
  next
    case 2
    then have "roundHalfEven x = f + 1" using r by simp
    then have "of_int (roundHalfEven x) = (of_int f :: rat) + 1" by simp
    then show ?thesis using b 2 by linarith
  next
    case 3
    then have "roundHalfEven x = f \<or> roundHalfEven x = f + 1" using r by simp
    then have "of_int (roundHalfEven x) = (of_int f :: rat)
        \<or> of_int (roundHalfEven x) = (of_int f :: rat) + 1" by auto
    then show ?thesis using b 3 by linarith
  qed
qed

lemma nearestDouble_near:
  assumes "nearestDouble a = Some r"
  shows "\<bar>r - a\<bar> \<le> pow2 (max (binade a) (- 1022) - 53)"
proof -
  let ?e = "max (binade a) (- 1022)"
  let ?ulp = "pow2 (?e - 52)"
  let ?n = "roundHalfEven (a / ?ulp)"
  have r: "r = of_int ?n * ?ulp"
    using assms by (simp add: nearestDouble_def Let_def split: if_splits)
  have u: "0 < ?ulp" by (rule pow2_pos)
  have "\<bar>of_int ?n - a / ?ulp\<bar> \<le> 1 / 2" by (rule roundHalfEven_near)
  then have "\<bar>of_int ?n - a / ?ulp\<bar> * ?ulp \<le> 1 / 2 * ?ulp"
    using u by (simp add: mult_right_mono)
  moreover have "\<bar>of_int ?n - a / ?ulp\<bar> * ?ulp = \<bar>of_int ?n * ?ulp - a\<bar>"
  proof -
    have "\<bar>of_int ?n - a / ?ulp\<bar> * ?ulp = \<bar>(of_int ?n - a / ?ulp) * ?ulp\<bar>"
      using u by (simp add: abs_mult)
    also have "(of_int ?n - a / ?ulp) * ?ulp = of_int ?n * ?ulp - a"
      using u by (simp add: left_diff_distrib)
    finally show ?thesis .
  qed
  moreover have "1 / 2 * ?ulp = pow2 (?e - 53)"
    using pow2_Suc [of "?e - 53"] by simp
  ultimately show ?thesis using r by simp
qed

lemma nearestDouble_overflow:
  assumes "pow2 1024 \<le> a"
  shows "nearestDouble a = None"
proof -
  have pos: "0 < a" using assms pow2_pos [of 1024] by linarith
  have "a < pow2 (binade a + 1)" using binade_bounds [OF pos] by simp
  then have "pow2 1024 < pow2 (binade a + 1)" using assms by linarith
  then have "1024 < binade a + 1"
    using pow2_mono [of "binade a + 1" 1024] by (cases "1024 < binade a + 1") auto
  then show ?thesis by (simp add: nearestDouble_def Let_def)
qed

lemma toDouble_overflow: "pow2 1024 \<le> q \<Longrightarrow> toDouble q = Infinity"
  using nearestDouble_overflow [of q] pow2_pos [of 1024]
  by (auto simp: toDouble_def)

lemma toDouble_near:
  assumes "toDouble q = Num r"
  shows "\<bar>r - q\<bar> \<le> pow2 (max (binade \<bar>q\<bar>) (- 1022) - 53)"
proof (cases "q = 0")
  case True
  then show ?thesis using assms pow2_pos [of "max (binade \<bar>q\<bar>) (- 1022) - 53"]
    by (simp add: toDouble_def)
next
  case False
  then obtain m where m: "nearestDouble \<bar>q\<bar> = Some m" and r: "r = (if q < 0 then - m else m)"
    using assms by (auto simp: toDouble_def split: option.splits if_splits)
  note nearestDouble_near [OF m]
  then show ?thesis using r by (auto simp: abs_if split: if_splits)
qed

lemma nearestDouble_grid:
  assumes "0 < a" "nearestDouble a = Some r"
  shows "\<exists>n. r = of_int n * pow2 (max (binade a) (- 1022) - 52) \<and> 0 \<le> n \<and> n \<le> 2 ^ 53"
proof -
  let ?e = "max (binade a) (- 1022)"
  let ?ulp = "pow2 (?e - 52)"
  let ?n = "roundHalfEven (a / ?ulp)"
  have r: "r = of_int ?n * ?ulp"
    using assms(2) by (simp add: nearestDouble_def Let_def split: if_splits)
  have u: "0 < ?ulp" by (rule pow2_pos)
  have "a < pow2 (binade a + 1)" using binade_bounds [OF assms(1)] by simp
  also have "\<dots> \<le> pow2 (?e + 1)" by (rule pow2_mono) simp
  also have "\<dots> = pow2 53 * ?ulp"
  proof -
    have "?e + 1 = 53 + (?e - 52)" by simp
    then show ?thesis by (simp only: pow2_add)
  qed
  finally have "a / ?ulp < pow2 53" using u by (simp add: pos_divide_less_eq)
  then have lt: "a / ?ulp < of_int (2 ^ 53)" by (simp add: pow2_def)
  have near: "\<bar>of_int ?n - a / ?ulp\<bar> \<le> 1 / 2" by (rule roundHalfEven_near)
  have "(of_int ?n :: rat) < of_int (2 ^ 53) + 1 / 2" using near lt by linarith
  then have "(of_int ?n :: rat) < of_int (2 ^ 53 + 1)" by simp
  then have "?n < 2 ^ 53 + 1" by (simp only: of_int_less_iff)
  then have hi: "?n \<le> 2 ^ 53" by simp
  have "0 \<le> a / ?ulp" using assms(1) u by simp
  then have "0 \<le> \<lfloor>a / ?ulp\<rfloor>" by simp
  then have lo: "0 \<le> ?n" by (simp add: roundHalfEven_def Let_def)
  show ?thesis using r lo hi by blast
qed

lemma toDouble_underflow:
  assumes "\<bar>q\<bar> < pow2 (- 1075)"
  shows "toDouble q = Num 0"
proof (cases "q = 0")
  case True
  then show ?thesis by (simp add: toDouble_def)
next
  case False
  let ?a = "\<bar>q\<bar>"
  have pos: "0 < ?a" using False by simp
  have "pow2 (binade ?a) \<le> ?a" using binade_bounds [OF pos] by simp
  then have "pow2 (binade ?a) < pow2 (- 1075)" using assms by linarith
  then have "binade ?a < - 1075"
    using pow2_mono [of "- 1075" "binade ?a"] by (cases "binade ?a < - 1075") auto
  then have e: "max (binade ?a) (- 1022) = - 1022" by simp
  have half: "pow2 (- 1075) = 1 / 2 * pow2 (- 1074)"
    using pow2_Suc [of "- 1075"] by simp
  have u: "0 < pow2 (- 1074)" by (rule pow2_pos)
  have "?a / pow2 (- 1074) < 1 / 2"
    using assms u unfolding half by (simp add: pos_divide_less_eq)
  moreover have "0 \<le> ?a / pow2 (- 1074)" using u by simp
  ultimately have fl: "\<lfloor>?a / pow2 (- 1074)\<rfloor> = 0" by linarith
  have "roundHalfEven (?a / pow2 (- 1074)) = 0"
    using \<open>?a / pow2 (- 1074) < 1 / 2\<close> by (simp add: roundHalfEven_def Let_def fl)
  then have "nearestDouble ?a = Some 0"
    by (simp add: nearestDouble_def Let_def e)
  then show ?thesis using False by (simp add: toDouble_def)
qed

section \<open>Properties of the amount parser\<close>

lemma roundHalfEven_nonneg: "0 \<le> x \<Longrightarrow> 0 \<le> roundHalfEven x"
proof -
  assume "0 \<le> x"
  then have "0 \<le> \<lfloor>x\<rfloor>" by simp
  then show ?thesis by (simp add: roundHalfEven_def Let_def)
qed

lemma nearestDouble_nonneg:
  assumes "nearestDouble a = Some r" "0 \<le> a"
  shows "0 \<le> r"
proof -
  let ?ulp = "pow2 (max (binade a) (- 1022) - 52)"
  have "0 \<le> a / ?ulp" using assms(2) pow2_pos [of "max (binade a) (- 1022) - 52"] by simp
  then have "0 \<le> roundHalfEven (a / ?ulp)" by (rule roundHalfEven_nonneg)
  then have "0 \<le> of_int (roundHalfEven (a / ?ulp)) * ?ulp"
    using pow2_pos [of "max (binade a) (- 1022) - 52"] by simp
  moreover have "r = of_int (roundHalfEven (a / ?ulp)) * ?ulp"
    using assms(1) by (simp add: nearestDouble_def Let_def split: if_splits)
  ultimately show ?thesis by simp
qed

lemma isNaN_toDouble [simp]: "\<not> isNaN (toDouble q)"
  by (simp add: toDouble_def split: option.split)

lemma toDouble_nonneg: "0 \<le> q \<Longrightarrow> \<not> ltZero (toDouble q)"
  using nearestDouble_nonneg [of "\<bar>q\<bar>"]
  by (auto simp: toDouble_def split: option.split)

lemma toDouble_minus: "toDouble (- q) = neg (toDouble q)"
  by (auto simp: toDouble_def split: option.split)

lemma digitsInt_nonneg: "0 \<le> digitsInt ds"
proof -
  have "0 \<le> a \<Longrightarrow> 0 \<le> foldl (\<lambda>a c. 10 * a + int (digitVal c)) a ds" for a
    by (induction ds arbitrary: a) simp_all
  then show ?thesis by (simp add: digitsInt_def)
qed

lemma takeWhile_Nil_iff:
  "takeWhile P xs = [] \<longleftrightarrow> (case xs of [] \<Rightarrow> True | x # _ \<Rightarrow> \<not> P x)"
  by (cases xs) simp_all

lemma unsignedLiteral_None:
  "unsignedLiteral u = None \<longleftrightarrow>
     (case u of [] \<Rightarrow> True
      | c # r \<Rightarrow> \<not> isDigit c
          \<and> \<not> (c = CHR ''.'' \<and> (case r of [] \<Rightarrow> False | d # _ \<Rightarrow> isDigit d)))"
proof (cases u)
  case Nil
  then show ?thesis by (simp add: unsignedLiteral_def)
next
  case (Cons c r)
  show ?thesis
  proof (cases "isDigit c")
    case True
    then show ?thesis using Cons by (simp add: unsignedLiteral_def Let_def)
  next
    case False
    then show ?thesis using Cons
      by (cases r) (auto simp: unsignedLiteral_def Let_def takeWhile_Nil_iff)
  qed
qed

lemma isNaN_parseFloat:
  "isNaN (parseFloat t) \<longleftrightarrow>
     \<not> startsWith (dropSign (dropWhile isSpace t)) ''Infinity''
     \<and> unsignedLiteral (dropSign (dropWhile isSpace t)) = None"
  by (simp add: parseFloat_def Let_def split: option.split)

lemma parseFloat_NaN_iff: "isNaN (parseFloat t) \<longleftrightarrow> \<not> startsNumeric t"
  unfolding isNaN_parseFloat unsignedLiteral_None startsNumeric_def Let_def
  by (cases "dropSign (dropWhile isSpace t)") auto

lemma isNaN_neg_abs [simp]: "isNaN (neg (mathAbs x)) = isNaN x"
  by (cases x) simp_all

lemma gtZero_neg_abs [simp]: "\<not> gtZero (neg (mathAbs x))"
  by (cases x) simp_all

lemma isNaN_eq: "isNaN x \<longleftrightarrow> x = NaN"
  by (cases x) simp_all

lemma if_isNaN_id: "(if isNaN x then NaN else x) = x"
  by (cases x) simp_all

lemma if_isNaN_neg_abs: "(if isNaN x then NaN else neg (mathAbs x)) = neg (mathAbs x)"
  by (cases x) simp_all

lemma parseAmount_residue:
  "parseAmount s =
     (if hasParens (stripAmount s) then neg (mathAbs (parseFloat (amountResidue s)))
      else parseFloat (amountResidue s))"
  unfolding parseAmount_def amountResidue_def Let_def if_isNaN_id if_isNaN_neg_abs
  by simp

lemma stripAmount_insert:
  "c = CHR ''$'' \<or> c = CHR '','' \<or> isSpace c \<Longrightarrow> stripAmount (a @ c # b) = stripAmount (a @ b)"
  by (auto simp: stripAmount_def)

lemma startsWith_single: "startsWith t [c] \<longleftrightarrow> t \<noteq> [] \<and> hd t = c"
  by (cases t) auto

lemma strIncludes_single: "strIncludes t [c] \<longleftrightarrow> c \<in> set t"
  by (induction t) (auto simp: startsWith_single)

lemma hasParens_stripParens: "\<not> hasParens (stripParens t)"
  by (simp add: hasParens_def strIncludes_single stripParens_def)

lemma stripAmount_stripParens: "stripAmount (stripParens s) = stripParens (stripAmount s)"
  by (simp add: stripAmount_def stripParens_def conj_commute)

lemma parseAmount_stripParens:
  "parseAmount (stripParens s) = parseFloat (stripParens (stripAmount s))"
  unfolding parseAmount_def Let_def if_isNaN_id stripAmount_stripParens
  by (simp add: hasParens_stripParens)

lemma parseAmount_parenthesized:
  assumes "hasParens (stripAmount s)"
  shows "parseAmount s = neg (mathAbs (parseAmount (stripParens s)))"
proof -
  have "parseAmount s = neg (mathAbs (parseFloat (stripParens (stripAmount s))))"
    using assms by (simp add: parseAmount_residue amountResidue_def)
  then show ?thesis by (simp only: parseAmount_stripParens)
qed

text \<open>Reading a decimal numeral that is followed by other characters.\<close>

lemma takeWhile_stop:
  assumes "list_all P xs" "ys = [] \<or> \<not> P (hd ys)"
  shows "takeWhile P (xs @ ys) = xs" and "dropWhile P (xs @ ys) = ys"
proof -
  have t: "takeWhile P ys = []" and d: "dropWhile P ys = ys"
    using assms(2) by (cases ys; simp)+
  have all: "\<forall>x\<in>set xs. P x" using assms(1) by (simp add: list_all_iff)
  show "takeWhile P (xs @ ys) = xs" using all t by (simp add: takeWhile_append2)
  show "dropWhile P (xs @ ys) = ys" using all d by (simp add: dropWhile_append2)
qed

lemma exponentOf_stop: "rest = [] \<or> \<not> continuesNumeral (hd rest) \<Longrightarrow> exponentOf rest = 0"
  by (cases rest) (auto simp: exponentOf_def continuesNumeral_def)

lemma scale10_zero: "scale10 q 0 = q"
  by (simp add: scale10_def)

lemma unsignedLiteral_integer:
  assumes ip: "list_all isDigit ip" "ip \<noteq> []"
    and stop: "rest = [] \<or> \<not> continuesNumeral (hd rest)"
  shows "unsignedLiteral (ip @ rest) = Some (of_int (digitsInt ip))"
proof -
  have nd: "rest = [] \<or> \<not> isDigit (hd rest)" using stop by (auto simp: continuesNumeral_def)
  have np: "(rest \<noteq> [] \<and> hd rest = CHR ''.'') = False"
    using stop by (auto simp: continuesNumeral_def)
  note tw = takeWhile_stop [OF ip(1) nd]
  show ?thesis
    unfolding unsignedLiteral_def Let_def tw np
    using ip(2) by (simp add: exponentOf_stop [OF stop] scale10_zero digitsInt_def)
qed

lemma unsignedLiteral_fraction:
  assumes ip: "list_all isDigit ip" and fp: "list_all isDigit fp" and ne: "ip \<noteq> [] \<or> fp \<noteq> []"
    and stop: "rest = [] \<or> \<not> continuesNumeral (hd rest)"
  shows "unsignedLiteral (ip @ CHR ''.'' # fp @ rest)
     = Some (of_int (digitsInt ip) + of_int (digitsInt fp) / 10 ^ length fp)"
proof -
  have nd: "rest = [] \<or> \<not> isDigit (hd rest)" using stop by (auto simp: continuesNumeral_def)
  have pt: "CHR ''.'' # fp @ rest = [] \<or> \<not> isDigit (hd (CHR ''.'' # fp @ rest))"
    by (simp add: isDigit_def)
  note t1 = takeWhile_stop [OF ip pt]
  note t2 = takeWhile_stop [OF fp nd]
  show ?thesis
    unfolding unsignedLiteral_def Let_def t1
    using ne by (simp add: t2 exponentOf_stop [OF stop] scale10_zero)
qed

lemma decimalNumeral_cases:
  assumes "decimalNumeral n"
  obtains ip where "dropSign n = ip" "list_all isDigit ip" "ip \<noteq> []"
        "takeWhile isDigit (dropSign n) = ip" "dropWhile isDigit (dropSign n) = []"
    | ip fp where "dropSign n = ip @ CHR ''.'' # fp" "list_all isDigit ip" "list_all isDigit fp"
        "ip \<noteq> [] \<or> fp \<noteq> []"
        "takeWhile isDigit (dropSign n) = ip" "dropWhile isDigit (dropSign n) = CHR ''.'' # fp"
proof -
  let ?u = "dropSign n"
  let ?ip = "takeWhile isDigit ?u"
  let ?r = "dropWhile isDigit ?u"
  have split: "?u = ?ip @ ?r" by simp
  have ipd: "list_all isDigit ?ip" by (simp add: list_all_iff) (metis set_takeWhileD)
  from assms consider
      (a) "?ip \<noteq> []" "?r = []"
    | (b) "?r \<noteq> []" "hd ?r = CHR ''.''" "list_all isDigit (tl ?r)" "?ip \<noteq> [] \<or> tl ?r \<noteq> []"
    unfolding decimalNumeral_def Let_def by blast
  then show ?thesis
  proof cases
    case a
    have "?u = ?ip" using split a(2) by (metis append_Nil2)
    then show ?thesis using that(1) [of ?ip] ipd a by simp
  next
    case b
    have r: "?r = CHR ''.'' # tl ?r" using b(1,2) by (cases ?r) simp_all
    have "?u = ?ip @ CHR ''.'' # tl ?r" using split r by metis
    then show ?thesis using that(2) [of ?ip "tl ?r"] ipd b r by metis
  qed
qed

lemma decimalNumeral_nonempty: "decimalNumeral n \<Longrightarrow> dropSign n \<noteq> []"
  by (auto simp: decimalNumeral_def Let_def)

lemma not_Infinity:
  assumes "u \<noteq> []" "isDigit (hd u) \<or> hd u = CHR ''.''"
  shows "\<not> startsWith (u @ rest) ''Infinity''"
  using assms by (cases u) (auto simp: isDigit_def)

lemma parseFloat_numeral:
  assumes n: "decimalNumeral n" and stop: "rest = [] \<or> \<not> continuesNumeral (hd rest)"
  shows "parseFloat (n @ rest) = toDouble (numeralValue n)"
proof -
  let ?u = "dropSign n"
  have une: "?u \<noteq> []" using n by (rule decimalNumeral_nonempty)
  then have nne: "n \<noteq> []" by (auto simp: dropSign_def)
  have first: "isDigit (hd ?u) \<or> hd ?u = CHR ''.''"
    using n une
    by (cases ?u) (auto simp: decimalNumeral_def Let_def split: if_splits)
  have nospace_u: "\<not> isSpace (hd ?u)"
    using first by (auto simp: isSpace_def isDigit_def)
  have nospace: "\<not> isSpace (hd n)"
  proof (cases "hd n = CHR ''-'' \<or> hd n = CHR ''+''")
    case True
    then show ?thesis by (auto simp: isSpace_def)
  next
    case False
    then have "?u = n" by (simp add: dropSign_def)
    then show ?thesis using nospace_u by simp
  qed
  have dw: "dropWhile isSpace (n @ rest) = n @ rest"
    using nne nospace by (cases n) simp_all
  have ds: "dropSign (n @ rest) = ?u @ rest"
    using nne by (cases n) (auto simp: dropSign_def)
  have hdn: "hd (n @ rest) = hd n" using nne by simp
  have noinf: "\<not> startsWith (?u @ rest) ''Infinity''" using une first by (rule not_Infinity)
  have lit: "unsignedLiteral (?u @ rest)
      = Some (of_int (digitsInt (takeWhile isDigit ?u))
          + of_int (digitsInt (if dropWhile isDigit ?u = [] then [] else tl (dropWhile isDigit ?u)))
            / 10 ^ length (if dropWhile isDigit ?u = [] then [] else tl (dropWhile isDigit ?u)))"
  proof (rule decimalNumeral_cases [OF n])
    fix ip
    assume h: "?u = ip" "list_all isDigit ip" "ip \<noteq> []"
      "takeWhile isDigit ?u = ip" "dropWhile isDigit ?u = []"
    show ?thesis
      unfolding h(4) h(5) unfolding h(1)
      using unsignedLiteral_integer [OF h(2) h(3) stop] by (simp add: digitsInt_def)
  next
    fix ip fp
    assume h: "?u = ip @ CHR ''.'' # fp" "list_all isDigit ip" "list_all isDigit fp"
      "ip \<noteq> [] \<or> fp \<noteq> []"
      "takeWhile isDigit ?u = ip" "dropWhile isDigit ?u = CHR ''.'' # fp"
    show ?thesis
      unfolding h(5) h(6) unfolding h(1)
      using unsignedLiteral_fraction [OF h(2) h(3) h(4) stop] by simp
  qed
  show ?thesis
    unfolding parseFloat_def Let_def dw ds hdn
    using noinf nne by (simp add: lit numeralValue_def Let_def)
qed

text \<open>
  C4, as the code has it. \<open>parseAmount\<close> ignores every dollar sign, comma and white-space
  character, wherever it stands. When the remaining text holds both an opening and a
  closing parenthesis, the result is the negated absolute value of what the text without
  its parentheses gives, so it is never positive, and \<open>(12.34)\<close> gives the double nearest
  to \<open>-12.34\<close>; otherwise the result is what \<open>parseFloat\<close> reads from the remaining
  text. The result is \<open>NaN\<close> exactly when the remaining text (parentheses removed
  in the parenthesized case) does not begin with a numeral. When the remaining text is a
  decimal numeral followed by characters that cannot continue it, these characters are
  ignored rather than rejected: the result is the double nearest to the numeral's value,
  negated and made non-positive in the parenthesized case.
\<close>

theorem parseAmount_strips_and_signs:
  "(c = CHR ''$'' \<or> c = CHR '','' \<or> isSpace c \<longrightarrow> parseAmount (a @ c # b) = parseAmount (a @ b))
   \<and> (hasParens (stripAmount s) \<longrightarrow>
        parseAmount s = neg (mathAbs (parseAmount (stripParens s)))
        \<and> \<not> gtZero (parseAmount s))
   \<and> (\<not> hasParens (stripAmount s) \<longrightarrow> parseAmount s = parseFloat (stripAmount s))
   \<and> parseAmount ''(12.34)'' = neg (toDouble (1234 / 100))
   \<and> (isNaN (parseAmount s) \<longleftrightarrow> \<not> startsNumeric (amountResidue s))
   \<and> (amountResidue s = n @ rest \<and> decimalNumeral n
        \<and> (rest = [] \<or> \<not> continuesNumeral (hd rest)) \<longrightarrow>
        parseAmount s =
          (if hasParens (stripAmount s) then neg (mathAbs (toDouble (numeralValue n)))
           else toDouble (numeralValue n)))"
proof (intro conjI impI)
  assume "c = CHR ''$'' \<or> c = CHR '','' \<or> isSpace c"
  then have "stripAmount (a @ c # b) = stripAmount (a @ b)" by (rule stripAmount_insert)
  then show "parseAmount (a @ c # b) = parseAmount (a @ b)" by (simp add: parseAmount_def)
next
  assume h: "hasParens (stripAmount s)"
  then show "parseAmount s = neg (mathAbs (parseAmount (stripParens s)))"
    by (rule parseAmount_parenthesized)
  show "\<not> gtZero (parseAmount s)" using h by (simp add: parseAmount_residue)
next
  assume "\<not> hasParens (stripAmount s)"
  then show "parseAmount s = parseFloat (stripAmount s)"
    by (simp add: parseAmount_residue amountResidue_def)
next
  show "parseAmount ''(12.34)'' = neg (toDouble (1234 / 100))" by code_simp
next
  show "isNaN (parseAmount s) \<longleftrightarrow> \<not> startsNumeric (amountResidue s)"
    by (simp add: parseAmount_residue parseFloat_NaN_iff)
next
  assume "amountResidue s = n @ rest \<and> decimalNumeral n
        \<and> (rest = [] \<or> \<not> continuesNumeral (hd rest))"
  then have "parseFloat (amountResidue s) = toDouble (numeralValue n)"
    using parseFloat_numeral [of n rest] by simp
  then show "parseAmount s =
          (if hasParens (stripAmount s) then neg (mathAbs (toDouble (numeralValue n)))
           else toDouble (numeralValue n))"
    by (simp add: parseAmount_residue)
qed

theorem parseAmount_strips_and_signs_witness:
  "parseAmount ''$1,234.50'' = parseAmount ''1234.50''
   \<and> parseAmount ''$1,234.50'' = Num (2469 / 2)
   \<and> hasParens (stripAmount ''($ 7.25)'')
   \<and> parseAmount ''($ 7.25)'' = neg (mathAbs (parseAmount ''$ 7.25''))
   \<and> parseAmount ''($ 7.25)'' = Num (- (29 / 4))
   \<and> amountResidue ''12.34 USD'' = ''12.34'' @ ''USD'' \<and> decimalNumeral ''12.34''
   \<and> \<not> continuesNumeral (hd ''USD'')
   \<and> parseAmount ''12.34 USD'' = toDouble (numeralValue ''12.34'')
   \<and> toDouble (numeralValue ''12.34'') = Num (3473401212609495 / 281474976710656)
   \<and> \<not> hasParens (stripAmount ''$1.5e3'')
   \<and> parseAmount ''$1.5e3'' = parseFloat ''1.5e3''
   \<and> parseFloat ''1.5e3'' = Num 1500"
proof -
  have sp: "hasParens (stripAmount ''($ 7.25)'')" by code_simp
  have a: "parseAmount (''1'' @ CHR '','' # ''234.50'') = parseAmount (''1'' @ ''234.50'')"
    using parseAmount_strips_and_signs [of "CHR '',''" "''1''" "''234.50''"] by simp
  have b: "parseAmount ([] @ CHR ''$'' # ''1,234.50'') = parseAmount ([] @ ''1,234.50'')"
    using parseAmount_strips_and_signs [of "CHR ''$''" "[]" "''1,234.50''"] by simp
  have sq: "stripParens ''($ 7.25)'' = ''$ 7.25''" by code_simp
  have c: "parseAmount ''($ 7.25)'' = neg (mathAbs (parseAmount ''$ 7.25''))"
    using parseAmount_strips_and_signs [of _ _ _ "''($ 7.25)''"] sp sq by simp
  have d: "parseAmount ''1234.50'' = Num (2469 / 2)" by code_simp
  have e: "parseAmount ''$ 7.25'' = Num (29 / 4)" by code_simp
  have r: "amountResidue ''12.34 USD'' = ''12.34'' @ ''USD''" by code_simp
  have nump: "decimalNumeral ''12.34''" by code_simp
  have st: "\<not> continuesNumeral (hd ''USD'')" by code_simp
  have np: "\<not> hasParens (stripAmount ''12.34 USD'')" by code_simp
  have f: "parseAmount ''12.34 USD'' = toDouble (numeralValue ''12.34'')"
    using parseAmount_strips_and_signs [of _ _ _ "''12.34 USD''" "''12.34''" "''USD''"]
      r nump st np by metis
  have g: "toDouble (numeralValue ''12.34'') = Num (3473401212609495 / 281474976710656)"
    by code_simp
  have ne: "\<not> hasParens (stripAmount ''$1.5e3'')" by code_simp
  have se: "stripAmount ''$1.5e3'' = ''1.5e3''" by code_simp
  have h: "parseAmount ''$1.5e3'' = parseFloat ''1.5e3''"
    using parseAmount_strips_and_signs [of _ _ _ "''$1.5e3''"] ne se by simp
  have i: "parseFloat ''1.5e3'' = Num 1500" by code_simp
  from a b have "parseAmount ''$1,234.50'' = parseAmount ''1234.50''" by simp
  with c d e sp r nump st f g ne h i show ?thesis by simp
qed

text \<open>
  The claim's last part fails: \<open>12.34abc\<close> keeps its letters after stripping, is not a
  number, and is still parsed, as the double nearest to \<open>12.34\<close>.
\<close>

theorem parseAmount_nonnumeric_residue_counterexample:
  "stripAmount ''12.34abc'' = ''12.34abc''
   \<and> \<not> decimalNumeral (stripAmount ''12.34abc'')
   \<and> parseAmount ''12.34abc'' = toDouble (1234 / 100)
   \<and> toDouble (1234 / 100) = Num (3473401212609495 / 281474976710656)"
  by code_simp

section \<open>Properties of the date parsers\<close>

lemma tryFormats_None_iff:
  "tryFormats cy c i fs = None \<longleftrightarrow>
     (\<forall>k<length fs. \<forall>m. match c (fs ! k) = Some m
        \<longrightarrow> \<not> isValidDate (Some (dateOfFormat cy (i + k) m)))"
proof (induction fs arbitrary: i)
  case Nil
  show ?case by simp
next
  case (Cons f fs)
  have split: "(\<forall>k<length (f # fs). \<forall>m. match c ((f # fs) ! k) = Some m
        \<longrightarrow> \<not> isValidDate (Some (dateOfFormat cy (i + k) m)))
     \<longleftrightarrow> (\<forall>m. match c f = Some m \<longrightarrow> \<not> isValidDate (Some (dateOfFormat cy i m)))
        \<and> (\<forall>k<length fs. \<forall>m. match c (fs ! k) = Some m
              \<longrightarrow> \<not> isValidDate (Some (dateOfFormat cy (Suc i + k) m)))"
    (is "?L \<longleftrightarrow> ?A \<and> ?B")
  proof
    assume l: ?L
    have ?A using l [rule_format, of 0] by simp
    moreover have ?B
    proof (intro allI impI)
      fix k m assume "k < length fs" "match c (fs ! k) = Some m"
      then show "\<not> isValidDate (Some (dateOfFormat cy (Suc i + k) m))"
        using l [rule_format, of "Suc k" m] by simp
    qed
    ultimately show "?A \<and> ?B" ..
  next
    assume ab: "?A \<and> ?B"
    show ?L
    proof (intro allI impI)
      fix k m assume k: "k < length (f # fs)" and m: "match c ((f # fs) ! k) = Some m"
      show "\<not> isValidDate (Some (dateOfFormat cy (i + k) m))"
      proof (cases k)
        case 0
        then show ?thesis using ab m by simp
      next
        case (Suc j)
        then show ?thesis using ab k m by simp
      qed
    qed
  qed
  show ?case
    unfolding split
    by (cases "match c f") (simp_all add: Cons.IH Let_def)
qed

lemma tryFormats_first:
  "k < length fs \<Longrightarrow> match c (fs ! k) = Some m
   \<Longrightarrow> isValidDate (Some (dateOfFormat cy (i + k) m))
   \<Longrightarrow> (\<forall>j<k. \<forall>m'. match c (fs ! j) = Some m'
          \<longrightarrow> \<not> isValidDate (Some (dateOfFormat cy (i + j) m')))
   \<Longrightarrow> tryFormats cy c i fs = Some (dateOfFormat cy (i + k) m)"
proof (induction fs arbitrary: i k)
  case Nil
  then show ?case by simp
next
  case (Cons f fs)
  show ?case
  proof (cases k)
    case 0
    with Cons.prems show ?thesis by (simp add: Let_def)
  next
    case (Suc n)
    have head: "\<forall>m'. match c f = Some m' \<longrightarrow> \<not> isValidDate (Some (dateOfFormat cy i m'))"
      using Cons.prems(4) [rule_format, of 0] Suc by simp
    have "tryFormats cy c (Suc i) fs = Some (dateOfFormat cy (Suc i + n) m)"
    proof (rule Cons.IH)
      show "n < length fs" using Cons.prems(1) Suc by simp
      show "match c (fs ! n) = Some m" using Cons.prems(2) Suc by simp
      show "isValidDate (Some (dateOfFormat cy (Suc i + n) m))" using Cons.prems(3) Suc by simp
      show "\<forall>j<n. \<forall>m'. match c (fs ! j) = Some m'
              \<longrightarrow> \<not> isValidDate (Some (dateOfFormat cy (Suc i + j) m'))"
      proof (intro allI impI)
        fix j m' assume "j < n" "match c (fs ! j) = Some m'"
        then show "\<not> isValidDate (Some (dateOfFormat cy (Suc i + j) m'))"
          using Cons.prems(4) [rule_format, of "Suc j" m'] Suc by simp
      qed
    qed
    then show ?thesis using head Suc by (cases "match c f") (simp_all add: Let_def)
  qed
qed

lemma tryFormats_valid:
  "tryFormats cy c i fs = Some d \<Longrightarrow> isValidDate (Some d)"
  by (induction fs arbitrary: i) (auto simp: Let_def split: option.splits if_splits)



lemma length_formats: "length formats = 3"
  by (simp add: formats_def)




lemma daysInMonth_pos: "Suc 0 \<le> daysInMonth y m"
  by (simp add: daysInMonth_def)

lemma rollForward_calendar:
  "snd ym < 12 \<Longrightarrow> 1 \<le> d \<Longrightarrow> calendarDate (rollForward ym d)"
proof (induction ym d rule: rollForward.induct)
  case (1 ym d)
  show ?case
  proof (cases "daysInMonth (fst ym) (snd ym) < d")
    case True
    have "calendarDate (rollForward (nextMonth ym) (d - daysInMonth (fst ym) (snd ym)))"
    proof (rule "1.IH" [OF True])
      show "snd (nextMonth ym) < 12" using "1.prems"(1) by (simp add: nextMonth_def)
      show "1 \<le> d - daysInMonth (fst ym) (snd ym)" using True by simp
    qed
    then show ?thesis using True by (subst rollForward.simps) simp
  next
    case False
    then show ?thesis using "1.prems"
      by (subst rollForward.simps) (simp add: calendarDate_def)
  qed
qed

lemma prevMonth_lt: "snd ym < 12 \<Longrightarrow> snd (prevMonth ym) < 12"
  by (auto simp: prevMonth_def)

lemma newDate_calendar: "calendarDate (newDate y mi d)"
proof (cases "d = 0")
  case True
  have "nat (mi mod 12) < 12" by simp
  then have "snd (prevMonth (y', nat (mi mod 12))) < 12" for y' :: int
    by (simp add: prevMonth_lt)
  then show ?thesis using True
    by (simp add: newDate_def Let_def calendarDate_def daysInMonth_pos)
next
  case False
  then show ?thesis
    by (simp add: newDate_def Let_def rollForward_calendar)
qed


lemma dateOfFormat_calendar: "calendarDate (dateOfFormat cy i m)"
  by (simp add: dateOfFormat_def newDate_calendar)

lemma tryFormats_Some_form:
  "tryFormats cy c i fs = Some d \<Longrightarrow> \<exists>j m. d = dateOfFormat cy j m"
  by (induction fs arbitrary: i) (auto simp: Let_def split: option.splits if_splits)

lemma newDate_plain:
  "100 \<le> y \<Longrightarrow> 0 < d \<Longrightarrow> newDate y mi d = rollForward (y + mi div 12, nat (mi mod 12)) d"
  by (simp add: newDate_def Let_def)

lemma newDate_day_carry:
  assumes y: "100 \<le> y" and mi: "0 \<le> mi" "mi < 12" and d: "daysInMonth y (nat mi) < d"
  shows "newDate y mi d = newDate y (mi + 1) (d - daysInMonth y (nat mi))"
proof -
  have d0: "0 < d" using d by simp
  have d1: "0 < d - daysInMonth y (nat mi)" using d by simp
  have nm: "nextMonth (y, nat mi) = (y + (mi + 1) div 12, nat ((mi + 1) mod 12))"
  proof (cases "mi = 11")
    case True
    then show ?thesis by (simp add: nextMonth_def)
  next
    case False
    then have lt: "mi + 1 < 12" using mi by simp
    have "nat mi \<noteq> 11" using False mi by simp
    moreover have "(mi + 1) div 12 = 0" using lt mi by simp
    moreover have "(mi + 1) mod 12 = mi + 1" using lt mi by simp
    moreover have "nat (mi + 1) = Suc (nat mi)" using mi by simp
    ultimately show ?thesis by (simp add: nextMonth_def)
  qed
  have a: "mi div 12 = 0" "mi mod 12 = mi" using mi by simp_all
  have "newDate y mi d = rollForward (y, nat mi) d"
    using newDate_plain [OF y d0, of mi] a by simp
  also have "\<dots> = rollForward (nextMonth (y, nat mi)) (d - daysInMonth y (nat mi))"
    using d by (subst rollForward.simps) simp
  also have "\<dots> = newDate y (mi + 1) (d - daysInMonth y (nat mi))"
    using newDate_plain [OF y d1, of "mi + 1"] nm by simp
  finally show ?thesis .
qed

lemma newDate_month_carry:
  assumes y: "100 \<le> y" and d: "0 < d"
  shows "newDate y (mi + 12) d = newDate (y + 1) mi d"
proof -
  have y1: "100 \<le> y + 1" using y by simp
  have "(mi + 12) div 12 = mi div 12 + 1" "(mi + 12) mod 12 = mi mod 12" by simp_all
  then have "newDate y (mi + 12) d = rollForward (y + (mi div 12 + 1), nat (mi mod 12)) d"
    using newDate_plain [OF y d, of "mi + 12"] by simp
  moreover have "y + (mi div 12 + 1) = y + 1 + mi div 12" by simp
  ultimately show ?thesis using newDate_plain [OF y1 d, of mi] by simp
qed

lemma newDate_month_zero:
  assumes y: "101 \<le> y" and d: "0 < d"
  shows "newDate y (- 1) d = newDate (y - 1) 11 d"
proof -
  have y0: "100 \<le> y" and y1: "100 \<le> y - 1" using y by simp_all
  have "newDate y (- 1) d = rollForward (y + (- 1) div 12, nat ((- 1) mod 12)) d"
    by (rule newDate_plain [OF y0 d])
  moreover have "newDate (y - 1) 11 d = rollForward (y - 1 + 11 div 12, nat (11 mod 12)) d"
    by (rule newDate_plain [OF y1 d])
  moreover have "((- 1)::int) div 12 = - 1" "((- 1)::int) mod 12 = 11" by simp_all
  ultimately show ?thesis by simp
qed

lemma newDate_day_zero:
  "fullYear (newDate y mi 0) = fst (prevMonth (fullYear (newDate y mi 1), month (newDate y mi 1)))
   \<and> month (newDate y mi 0) = snd (prevMonth (fullYear (newDate y mi 1), month (newDate y mi 1)))
   \<and> dayOfMonth (newDate y mi 0) = daysInMonth (fullYear (newDate y mi 0)) (month (newDate y mi 0))"
proof -
  have one: "rollForward ym (Suc 0) = \<lparr>fullYear = fst ym, month = snd ym, dayOfMonth = Suc 0, msOfDay = 0\<rparr>" for ym
    using daysInMonth_pos [of "fst ym" "snd ym"] by (subst rollForward.simps) simp
  show ?thesis by (simp add: newDate_def Let_def one)
qed

text \<open>
  C10, as the code has it. A string that matches a format is never refused for its month
  or day: whenever a matching format builds a date whose year passes the check,
  \<open>parseDate\<close> returns a date of the calendar, and for the first format it is the date
  that the built-in constructor normalizes from the three numbers. A day past the end
  of its month is carried into the next month and a month past December into the next
  year; a month \<open>00\<close> is December of the year before and a day \<open>00\<close> the last day of the
  month before.
\<close>

theorem parseDate_normalizes_out_of_range:
  "(\<forall>i<length formats. \<forall>m.
       match (cleanDateOf s) (formats ! i) = Some m \<and> isValidDate (Some (dateOfFormat cy i m))
       \<longrightarrow> (\<exists>d. parseDate f cy s = Some d \<and> calendarDate d \<and> isValidDate (Some d)))
   \<and> (\<forall>m. match (cleanDateOf s) (formats ! 0) = Some m
         \<and> isValidDate (Some (newDate (intGrp m 3) (intGrp m 1 - 1) (nat (intGrp m 2))))
       \<longrightarrow> parseDate f cy s = Some (newDate (intGrp m 3) (intGrp m 1 - 1) (nat (intGrp m 2))))
   \<and> (100 \<le> y \<and> 0 \<le> mi \<and> mi < 12 \<and> daysInMonth y (nat mi) < d
       \<longrightarrow> newDate y mi d = newDate y (mi + 1) (d - daysInMonth y (nat mi)))
   \<and> (100 \<le> y \<and> 0 < d \<longrightarrow> newDate y (mi + 12) d = newDate (y + 1) mi d)
   \<and> (101 \<le> y \<and> 0 < d \<longrightarrow> newDate y (- 1) d = newDate (y - 1) 11 d)
   \<and> fullYear (newDate y mi 0)
       = fst (prevMonth (fullYear (newDate y mi 1), month (newDate y mi 1)))
   \<and> month (newDate y mi 0)
       = snd (prevMonth (fullYear (newDate y mi 1), month (newDate y mi 1)))
   \<and> dayOfMonth (newDate y mi 0)
       = daysInMonth (fullYear (newDate y mi 0)) (month (newDate y mi 0))"
proof (intro conjI)
  show "\<forall>i<length formats. \<forall>m.
       match (cleanDateOf s) (formats ! i) = Some m \<and> isValidDate (Some (dateOfFormat cy i m))
       \<longrightarrow> (\<exists>d. parseDate f cy s = Some d \<and> calendarDate d \<and> isValidDate (Some d))"
  proof (intro allI impI)
    fix i m
    assume i: "i < length formats"
      and h: "match (cleanDateOf s) (formats ! i) = Some m
               \<and> isValidDate (Some (dateOfFormat cy i m))"
    have "tryFormats cy (cleanDateOf s) 0 formats \<noteq> None"
      using i h by (auto simp: tryFormats_None_iff)
    then obtain d where d: "tryFormats cy (cleanDateOf s) 0 formats = Some d" by blast
    have "parseDate f cy s = Some d" using d by (simp add: parseDate_def)
    moreover have "isValidDate (Some d)" using d by (rule tryFormats_valid)
    moreover have "calendarDate d"
      using tryFormats_Some_form [OF d] dateOfFormat_calendar by blast
    ultimately show "\<exists>d. parseDate f cy s = Some d \<and> calendarDate d \<and> isValidDate (Some d)"
      by blast
  qed
next
  show "\<forall>m. match (cleanDateOf s) (formats ! 0) = Some m
         \<and> isValidDate (Some (newDate (intGrp m 3) (intGrp m 1 - 1) (nat (intGrp m 2))))
       \<longrightarrow> parseDate f cy s = Some (newDate (intGrp m 3) (intGrp m 1 - 1) (nat (intGrp m 2)))"
  proof (intro allI impI)
    fix m
    assume h: "match (cleanDateOf s) (formats ! 0) = Some m
         \<and> isValidDate (Some (newDate (intGrp m 3) (intGrp m 1 - 1) (nat (intGrp m 2))))"
    have eq: "dateOfFormat cy 0 m = newDate (intGrp m 3) (intGrp m 1 - 1) (nat (intGrp m 2))"
      by (simp add: dateOfFormat_def)
    have "tryFormats cy (cleanDateOf s) 0 formats = Some (dateOfFormat cy (0 + 0) m)"
      by (rule tryFormats_first) (use h eq in \<open>simp_all add: length_formats\<close>)
    then show "parseDate f cy s = Some (newDate (intGrp m 3) (intGrp m 1 - 1) (nat (intGrp m 2)))"
      using eq by (simp add: parseDate_def)
  qed
next
  show "100 \<le> y \<and> 0 \<le> mi \<and> mi < 12 \<and> daysInMonth y (nat mi) < d
       \<longrightarrow> newDate y mi d = newDate y (mi + 1) (d - daysInMonth y (nat mi))"
    using newDate_day_carry by blast
next
  show "100 \<le> y \<and> 0 < d \<longrightarrow> newDate y (mi + 12) d = newDate (y + 1) mi d"
    using newDate_month_carry by blast
next
  show "101 \<le> y \<and> 0 < d \<longrightarrow> newDate y (- 1) d = newDate (y - 1) 11 d"
    using newDate_month_zero by blast
next
  show "fullYear (newDate y mi 0)
       = fst (prevMonth (fullYear (newDate y mi 1), month (newDate y mi 1)))"
    using newDate_day_zero by blast
next
  show "month (newDate y mi 0)
       = snd (prevMonth (fullYear (newDate y mi 1), month (newDate y mi 1)))"
    using newDate_day_zero by blast
next
  show "dayOfMonth (newDate y mi 0)
       = daysInMonth (fullYear (newDate y mi 0)) (month (newDate y mi 0))"
    using newDate_day_zero by blast
qed

theorem parseDate_normalizes_out_of_range_witness:
  "parseDate dateOfStringSample 2026 ''02/30/2024''
     = Some \<lparr>fullYear = 2024, month = 2, dayOfMonth = 1, msOfDay = 0\<rparr>
   \<and> parseDate dateOfStringSample 2026 ''13/05/2024''
     = Some \<lparr>fullYear = 2025, month = 0, dayOfMonth = 5, msOfDay = 0\<rparr>
   \<and> calendarDate \<lparr>fullYear = 2024, month = 2, dayOfMonth = 1, msOfDay = 0\<rparr>
   \<and> newDate 2024 1 30 = newDate 2024 2 1
   \<and> newDate 2024 12 5 = newDate 2025 0 5
   \<and> newDate 2024 (- 1) 15 = newDate 2023 11 15"
proof -
  let ?s = "''02/30/2024''"
  let ?m = "\<lparr>mIndex = 0, mText = ''02/30/2024'',
             mGroups = [(3, ''2024''), (2, ''30''), (1, ''02'')]\<rparr>"
  let ?d = "\<lparr>fullYear = 2024, month = 2, dayOfMonth = 1, msOfDay = 0\<rparr>"
  let ?t = "''13/05/2024''"
  let ?n = "\<lparr>mIndex = 0, mText = ''13/05/2024'',
             mGroups = [(3, ''2024''), (2, ''05''), (1, ''13'')]\<rparr>"
  let ?e = "\<lparr>fullYear = 2025, month = 0, dayOfMonth = 5, msOfDay = 0\<rparr>"
  have len: "0 < length formats" by (simp add: length_formats)
  have m: "match (cleanDateOf ?s) (formats ! 0) = Some ?m" by code_simp
  have d: "newDate (intGrp ?m 3) (intGrp ?m 1 - 1) (nat (intGrp ?m 2)) = ?d" by code_simp
  have vd: "isValidDate (Some ?d)" by code_simp
  have r1: "parseDate dateOfStringSample 2026 ?s = Some ?d"
    using parseDate_normalizes_out_of_range [of ?s 2026 dateOfStringSample] m d vd by simp
  have n: "match (cleanDateOf ?t) (formats ! 0) = Some ?n" by code_simp
  have e: "newDate (intGrp ?n 3) (intGrp ?n 1 - 1) (nat (intGrp ?n 2)) = ?e" by code_simp
  have ve: "isValidDate (Some ?e)" by code_simp
  have r2: "parseDate dateOfStringSample 2026 ?t = Some ?e"
    using parseDate_normalizes_out_of_range [of ?t 2026 dateOfStringSample] n e ve by simp
  have df: "dateOfFormat 2026 0 ?m = ?d" by code_simp
  have "\<exists>x. parseDate dateOfStringSample 2026 ?s = Some x \<and> calendarDate x
          \<and> isValidDate (Some x)"
    using parseDate_normalizes_out_of_range [of ?s 2026 dateOfStringSample] len m vd df
    by (metis (no_types, lifting))
  then have cal: "calendarDate ?d" using r1 by auto
  have feb: "daysInMonth 2024 (nat 1) = 29" by code_simp
  have c1: "newDate 2024 1 30 = newDate 2024 (1 + 1) (30 - daysInMonth 2024 (nat 1))"
    using parseDate_normalizes_out_of_range [of _ _ _ 2024 1 30] feb by simp
  have c2: "newDate 2024 (0 + 12) 5 = newDate (2024 + 1) 0 5"
    using parseDate_normalizes_out_of_range [of _ _ _ 2024 0 5] by simp
  have c3: "newDate 2024 (- 1) 15 = newDate (2024 - 1) 11 15"
    using parseDate_normalizes_out_of_range [of _ _ _ 2024 _ 15] by simp
  show ?thesis using r1 r2 cal c1 c2 c3 feb by simp
qed

text \<open>
  The claim speaks of a later date only. \<open>00/15/2024\<close> matches the first format with the
  month \<open>00\<close>, and the date returned is 15 December 2023, before every day of the year
  that is written.
\<close>

theorem parseDate_month_zero_counterexample:
  "map_option (\<lambda>m. (intGrp m 1, intGrp m 2, intGrp m 3))
       (match (cleanDateOf ''00/15/2024'') (formats ! 0)) = Some (0, 15, 2024)
   \<and> parseDate dateOfStringSample 2026 ''00/15/2024''
       = Some \<lparr>fullYear = 2023, month = 11, dayOfMonth = 15, msOfDay = 0\<rparr>"
  by code_simp

section \<open>Properties of the matcher\<close>

lemma take_le_takeWhile:
  assumes k: "k \<le> length (takeWhile P s)"
  shows "\<forall>c\<in>set (take k s). P c"
proof -
  have "take k (takeWhile P s @ dropWhile P s) = take k (takeWhile P s)"
    using k by (simp del: takeWhile_dropWhile_id)
  then have "take k s = take k (takeWhile P s)" by simp
  then have "set (take k s) \<subseteq> set (takeWhile P s)" by (metis set_take_subset)
  then show ?thesis by (auto dest: set_takeWhileD)
qed

lemma soundI:
  "s = t @ s' \<Longrightarrow> p' = p + length t \<Longrightarrow> g' = new @ g \<Longrightarrow> list_all (rxAccepts r) t
   \<Longrightarrow> list_all (\<lambda>kx. list_all (rxAccepts r) (snd kx)) new
   \<Longrightarrow> sound r (p, s, g) (p', s', g')"
  unfolding sound_def by auto

lemma soundE:
  assumes "sound r (p, s, g) (p', s', g')"
  obtains t new where "s = t @ s'" "p' = p + length t" "g' = new @ g"
    "list_all (rxAccepts r) t" "list_all (\<lambda>kx. list_all (rxAccepts r) (snd kx)) new"
  using assms unfolding sound_def by auto

lemma rxAccepts_Seq: "rxAccepts (Seq a b) c \<longleftrightarrow> rxAccepts a c \<or> rxAccepts b c"
  by (auto simp: rxAccepts_def)

lemma rxAccepts_Alt: "rxAccepts (Alt a b) c \<longleftrightarrow> rxAccepts a c \<or> rxAccepts b c"
  by (auto simp: rxAccepts_def)

lemma rxAccepts_Group: "rxAccepts (Group k r) c \<longleftrightarrow> rxAccepts r c"
  by (simp add: rxAccepts_def)

lemma sound_weaken:
  "sound r st st' \<Longrightarrow> (\<And>c. rxAccepts r c \<Longrightarrow> rxAccepts r' c) \<Longrightarrow> sound r' st st'"
  unfolding sound_def list_all_iff by blast

lemma rxRun_sound: "st' \<in> set (rxRun r st) \<Longrightarrow> sound r st st'"
proof (induction r arbitrary: st st')
  case (Atom c)
  obtain p s g where st: "st = (p, s, g)" by (cases st)
  show ?case
  proof (cases s)
    case Nil
    then show ?thesis using Atom st by simp
  next
    case (Cons x xs)
    with Atom st have ok: "clsOk c x" and st': "st' = (Suc p, xs, g)"
      by (auto split: if_splits)
    show ?thesis unfolding st st' Cons
      by (rule soundI [where t = "[x]" and new = "[]"]) (use ok in \<open>simp_all add: rxAccepts_def\<close>)
  qed
next
  case (Repeat c lo hi greedy)
  obtain p s g where st: "st = (p, s, g)" by (cases st)
  define m where "m = (case hi of None \<Rightarrow> length (takeWhile (clsOk c) s)
      | Some h \<Rightarrow> min h (length (takeWhile (clsOk c) s)))"
  have mle: "m \<le> length (takeWhile (clsOk c) s)" by (simp add: m_def split: option.split)
  from Repeat obtain k where k: "k \<in> {lo..<Suc m}" and st': "st' = (p + k, drop k s, g)"
    unfolding st by (auto simp: Let_def m_def split: if_splits)
  have kl: "k \<le> length (takeWhile (clsOk c) s)" using k mle by simp
  then have acc: "\<forall>x\<in>set (take k s). clsOk c x" by (rule take_le_takeWhile)
  have "k \<le> length s" using kl length_takeWhile_le [of "clsOk c" s] by (rule order_trans)
  then have len: "length (take k s) = k" by simp
  show ?case unfolding st st'
    by (rule soundI [where t = "take k s" and new = "[]"])
       (use acc len in \<open>simp_all add: list_all_iff rxAccepts_def\<close>)
next
  case (Seq a b)
  from Seq.prems obtain mid where m1: "mid \<in> set (rxRun a st)" and m2: "st' \<in> set (rxRun b mid)"
    by auto
  obtain p s g where st: "st = (p, s, g)" by (cases st)
  obtain p1 s1 g1 where mid: "mid = (p1, s1, g1)" by (cases mid)
  obtain p2 s2 g2 where st': "st' = (p2, s2, g2)" by (cases st')
  have "sound (Seq a b) (p, s, g) (p1, s1, g1)"
    using Seq.IH(1) [OF m1] unfolding st mid by (rule sound_weaken) (simp add: rxAccepts_Seq)
  then obtain t1 n1 where a: "s = t1 @ s1" "p1 = p + length t1" "g1 = n1 @ g"
     "list_all (rxAccepts (Seq a b)) t1"
     "list_all (\<lambda>kx. list_all (rxAccepts (Seq a b)) (snd kx)) n1"
    by (rule soundE)
  have "sound (Seq a b) (p1, s1, g1) (p2, s2, g2)"
    using Seq.IH(2) [OF m2] unfolding st' mid by (rule sound_weaken) (simp add: rxAccepts_Seq)
  then obtain t2 n2 where b: "s1 = t2 @ s2" "p2 = p1 + length t2" "g2 = n2 @ g1"
     "list_all (rxAccepts (Seq a b)) t2"
     "list_all (\<lambda>kx. list_all (rxAccepts (Seq a b)) (snd kx)) n2"
    by (rule soundE)
  show ?case unfolding st st'
    by (rule soundI [where t = "t1 @ t2" and new = "n2 @ n1"]) (use a b in simp_all)
next
  case (Alt a b)
  from Alt.prems consider "st' \<in> set (rxRun a st)" | "st' \<in> set (rxRun b st)" by auto
  then show ?case
  proof cases
    case 1
    show ?thesis using Alt.IH(1) [OF 1] by (rule sound_weaken) (simp add: rxAccepts_Alt)
  next
    case 2
    show ?thesis using Alt.IH(2) [OF 2] by (rule sound_weaken) (simp add: rxAccepts_Alt)
  qed
next
  case (Group k r)
  obtain p s g where st: "st = (p, s, g)" by (cases st)
  from Group.prems obtain p1 s1 g1 where in1: "(p1, s1, g1) \<in> set (rxRun r (p, s, g))"
    and st': "st' = (p1, s1, (k, take (p1 - p) s) # g1)"
    unfolding st by auto
  have "sound (Group k r) (p, s, g) (p1, s1, g1)"
    using Group.IH [OF in1] by (rule sound_weaken) (simp add: rxAccepts_Group)
  then obtain t new where a: "s = t @ s1" "p1 = p + length t" "g1 = new @ g"
     "list_all (rxAccepts (Group k r)) t"
     "list_all (\<lambda>kx. list_all (rxAccepts (Group k r)) (snd kx)) new"
    by (rule soundE)
  have tk: "take (p1 - p) s = t" using a by simp
  show ?case unfolding st st' tk
    by (rule soundI [where t = t and new = "(k, t) # new"]) (use a in simp_all)
next
  case StartAnchor
  obtain p s g where st: "st = (p, s, g)" by (cases st)
  from StartAnchor have "st' = st" unfolding st by (auto split: if_splits)
  then show ?case unfolding st
    by (simp add: soundI [where t = "[]" and new = "[]"])
next
  case EndAnchor
  obtain p s g where st: "st = (p, s, g)" by (cases st)
  from EndAnchor have "st' = st" unfolding st by (auto split: if_splits)
  then show ?case unfolding st
    by (simp add: soundI [where t = "[]" and new = "[]"])
next
  case Eps
  obtain p s g where st: "st = (p, s, g)" by (cases st)
  from Eps have "st' = st" by simp
  then show ?case unfolding st
    by (simp add: soundI [where t = "[]" and new = "[]"])
qed

lemma rxRun_groups:
  assumes "rxRun r (p, s, []) = (e, s', g) # rest"
  shows "list_all (\<lambda>kx. list_all (rxAccepts r) (snd kx)) g"
proof -
  have "(e, s', g) \<in> set (rxRun r (p, s, []))" using assms by simp
  then have "sound r (p, s, []) (e, s', g)" by (rule rxRun_sound)
  then show ?thesis by (rule soundE) simp
qed

lemma rxSearch_groups: "rxSearch r p s = Some m \<Longrightarrow> groupsOk r m"
proof (induction s arbitrary: p)
  case Nil
  then show ?case
    by (auto simp: groupsOk_def split: list.splits dest: rxRun_groups)
next
  case (Cons x xs)
  show ?case
  proof (cases "rxRun r (p, x # xs, [])")
    case Nil
    then show ?thesis using Cons by simp
  next
    case (Cons st rest)
    obtain e s' g where st: "st = (e, s', g)" by (cases st)
    have "list_all (\<lambda>kx. list_all (rxAccepts r) (snd kx)) g"
      using Cons st rxRun_groups by blast
    then show ?thesis using Cons.prems Cons st by (auto simp: groupsOk_def)
  qed
qed

lemma matchAllFrom_groups: "m \<in> set (matchAllFrom r p s) \<Longrightarrow> groupsOk r m"
proof (induction r p s rule: matchAllFrom.induct)
  case (1 r p s)
  show ?case
  proof (cases "rxSearch r p s")
    case None
    then show ?thesis using "1.prems" by (simp add: matchAllFrom.simps)
  next
    case (Some m0)
    let ?nxt = "mIndex m0 - p + max 1 (length (mText m0))"
    have unf: "matchAllFrom r p s =
        m0 # (if ?nxt \<le> length s then matchAllFrom r (p + ?nxt) (drop ?nxt s) else [])"
      by (subst matchAllFrom.simps) (simp add: Some Let_def)
    from "1.prems" consider "m = m0"
      | "?nxt \<le> length s" "m \<in> set (matchAllFrom r (p + ?nxt) (drop ?nxt s))"
      unfolding unf by (auto split: if_splits)
    then show ?thesis
    proof cases
      case 1
      then show ?thesis using Some rxSearch_groups by blast
    next
      case 2
      show ?thesis by (rule "1.IH" [OF Some refl 2])
    qed
  qed
qed

lemma unsignedLiteral_nonneg: "unsignedLiteral u = Some q \<Longrightarrow> 0 \<le> q"
  using digitsInt_nonneg
  by (auto simp: unsignedLiteral_def Let_def scale10_def split: if_splits)

lemma parseFloat_no_minus:
  assumes "CHR ''-'' \<notin> set s"
  shows "\<not> ltZero (parseFloat s)"
proof -
  let ?t = "dropWhile isSpace s"
  have neg: "\<not> (?t \<noteq> [] \<and> hd ?t = CHR ''-'')"
  proof
    assume h: "?t \<noteq> [] \<and> hd ?t = CHR ''-''"
    then have "hd ?t \<in> set ?t" using hd_in_set by blast
    then have "hd ?t \<in> set s" by (rule set_dropWhileD)
    with h assms show False by metis
  qed
  show ?thesis
    using neg unsignedLiteral_nonneg [of "dropSign ?t"] toDouble_nonneg
    by (auto simp: parseFloat_def Let_def split: option.splits)
qed

lemma amountRegex_no_minus: "\<not> rxAccepts amountRegex CHR ''-''"
  by code_simp

lemma strGrp_accepted:
  assumes "groupsOk r m" shows "list_all (rxAccepts r) (strGrp m k)"
proof (cases "map_of (mGroups m) k")
  case None
  then show ?thesis by (simp add: strGrp_def grp_def)
next
  case (Some x)
  then have "(k, x) \<in> set (mGroups m)" by (rule map_of_SomeD)
  then have "list_all (rxAccepts r) x" using assms by (auto simp: groupsOk_def list_all_iff)
  then show ?thesis using Some by (simp add: strGrp_def grp_def)
qed

lemma spAmount_not_negative:
  assumes "m \<in> set (matchAll line amountRegex)"
  shows "\<not> ltZero (spParseAmount (strGrp m 1))"
proof -
  have "groupsOk amountRegex m" using assms unfolding matchAll_def by (rule matchAllFrom_groups)
  then have "list_all (rxAccepts amountRegex) (strGrp m 1)" by (rule strGrp_accepted)
  then have "CHR ''-'' \<notin> set (strGrp m 1)"
    using amountRegex_no_minus by (auto simp: list_all_iff)
  then have "CHR ''-'' \<notin> set (filter (\<lambda>c. \<not> (c = CHR ''$'' \<or> c = CHR '','')) (strGrp m 1))"
    by simp
  then show ?thesis unfolding spParseAmount_def by (rule parseFloat_no_minus)
qed

lemma positive_cases: "\<not> isNaN a \<Longrightarrow> \<not> isZero a \<Longrightarrow> \<not> ltZero a \<Longrightarrow> gtZero a \<and> ltZero (neg a)"
  by (cases a) auto

lemma flip_negative: "\<not> isNaN a \<Longrightarrow> \<not> isZero a \<Longrightarrow> ltZero (if gtZero a then neg a else a)"
  by (cases a) auto

section \<open>Properties of the line parsers\<close>

lemma flip_is_neg_abs: "\<not> isNaN a \<Longrightarrow> (if gtZero a then neg a else a) = neg (mathAbs a)"
  by (cases a) auto

lemma lineOfMatch_amount:
  assumes "lineOfMatch f cy line m = Some u"
  shows "amount u = neg (mathAbs (parseAmount (strGrp m 3))) \<and> ltZero (amount u)"
proof -
  let ?a = "parseAmount (strGrp m 3)"
  from assms have ok: "\<not> isNaN ?a" "\<not> isZero ?a"
    and am: "amount u = (if gtZero ?a then neg ?a else ?a)"
    by (auto simp: lineOfMatch_def Let_def split: option.splits if_splits)
  show ?thesis using am flip_is_neg_abs [OF ok(1)] flip_negative [OF ok] by simp
qed

lemma tryPatterns_Some:
  "tryPatterns f cy line ps = Some u
   \<Longrightarrow> \<exists>i<length ps. \<exists>m. match line (ps ! i) = Some m \<and> lineOfMatch f cy line m = Some u"
proof (induction ps)
  case Nil
  then show ?case by simp
next
  case (Cons p ps)
  show ?case
  proof (cases "\<exists>m. match line p = Some m \<and> lineOfMatch f cy line m = Some u")
    case True
    then have "\<exists>m. match line ((p # ps) ! 0) = Some m \<and> lineOfMatch f cy line m = Some u"
      by simp
    then show ?thesis by blast
  next
    case False
    with Cons.prems have "tryPatterns f cy line ps = Some u"
      by (auto split: option.splits)
    from Cons.IH [OF this] obtain i m where "i < length ps" "match line (ps ! i) = Some m"
      "lineOfMatch f cy line m = Some u" by blast
    then have "Suc i < length (p # ps) \<and> match line ((p # ps) ! Suc i) = Some m
        \<and> lineOfMatch f cy line m = Some u" by simp
    then show ?thesis by blast
  qed
qed

lemma spParsePDFLine_amount:
  assumes "spParsePDFLine cy line = Some t"
  shows "matchAll line amountRegex \<noteq> []
     \<and> \<not> isNaN (spParseAmount (strGrp (last (matchAll line amountRegex)) 1))
     \<and> \<not> isZero (spParseAmount (strGrp (last (matchAll line amountRegex)) 1))
     \<and> amount t = (if hasCreditKeyword line
          then spParseAmount (strGrp (last (matchAll line amountRegex)) 1)
          else neg (spParseAmount (strGrp (last (matchAll line amountRegex)) 1)))"
  using assms
  by (auto simp: spParsePDFLine_def Let_def split: option.splits if_splits)

text \<open>
  C6, as the code has it. The two line parsers differ. In \<open>StatementParser.parsePDFLine\<close>
  the amount of a row that builds is the magnitude read from the last amount on the
  line, positive when the line contains \<open>payment\<close> or \<open>credit\<close> in any case, and its
  negation otherwise. In the stand-alone parser's \<open>parsePDFLine\<close> the amount of a row
  that builds is always the negation of the magnitude, whatever the line says. Both give
  \<open>-5.75\<close> for the Starbucks line.
\<close>

theorem line_amount_sign:
  "(spParsePDFLine cy line = Some t \<longrightarrow>
       gtZero (spParseAmount (strGrp (last (matchAll line amountRegex)) 1))
       \<and> (hasCreditKeyword line \<longrightarrow>
             amount t = spParseAmount (strGrp (last (matchAll line amountRegex)) 1)
             \<and> gtZero (amount t))
       \<and> (\<not> hasCreditKeyword line \<longrightarrow>
             amount t = neg (spParseAmount (strGrp (last (matchAll line amountRegex)) 1))
             \<and> ltZero (amount t)))
   \<and> (parsePDFLine f cy line = Some u \<longrightarrow>
       ltZero (amount u)
       \<and> (\<exists>i<length patterns. \<exists>m. match line (patterns ! i) = Some m
             \<and> amount u = neg (mathAbs (parseAmount (strGrp m 3)))))
   \<and> map_option amount (spParsePDFLine 2026 ''07/28/2024 STARBUCKS #4521 COFFEE $5.75'')
       = Some (Num (- (575 / 100)))
   \<and> map_option amount
         (parsePDFLine dateOfStringSample 2026 ''07/28/2024 STARBUCKS #4521 COFFEE $5.75'')
       = Some (Num (- (575 / 100)))"
proof (intro conjI impI)
  assume h: "spParsePDFLine cy line = Some t"
  let ?a = "spParseAmount (strGrp (last (matchAll line amountRegex)) 1)"
  note am = spParsePDFLine_amount [OF h]
  have "last (matchAll line amountRegex) \<in> set (matchAll line amountRegex)"
    using am by simp
  then have "\<not> ltZero ?a" by (rule spAmount_not_negative)
  with am have pos: "gtZero ?a \<and> ltZero (neg ?a)" by (simp add: positive_cases)
  show "gtZero ?a" using pos ..
  {
    assume k: "hasCreditKeyword line"
    show "amount t = ?a" using am k by simp
    then show "gtZero (amount t)" using pos by simp
  }
  {
    assume k: "\<not> hasCreditKeyword line"
    show "amount t = neg ?a" using am k by simp
    then show "ltZero (amount t)" using pos by simp
  }
next
  assume h: "parsePDFLine f cy line = Some u"
  then obtain i m where im: "i < length patterns" "match line (patterns ! i) = Some m"
    "lineOfMatch f cy line m = Some u"
    unfolding parsePDFLine_def using tryPatterns_Some by blast
  note la = lineOfMatch_amount [OF im(3)]
  show "ltZero (amount u)" using la ..
  show "\<exists>i<length patterns. \<exists>m. match line (patterns ! i) = Some m
          \<and> amount u = neg (mathAbs (parseAmount (strGrp m 3)))"
    using im la by blast
next
  show "map_option amount (spParsePDFLine 2026 ''07/28/2024 STARBUCKS #4521 COFFEE $5.75'')
       = Some (Num (- (575 / 100)))"
    by code_simp
next
  show "map_option amount
         (parsePDFLine dateOfStringSample 2026 ''07/28/2024 STARBUCKS #4521 COFFEE $5.75'')
       = Some (Num (- (575 / 100)))"
    by code_simp
qed

theorem line_amount_sign_witness:
  "hasCreditKeyword ''07/28/2024 Payment thank you $50.00''
   \<and> map_option amount (spParsePDFLine 2026 ''07/28/2024 Payment thank you $50.00'')
       = Some (Num 50)
   \<and> \<not> hasCreditKeyword ''07/28/2024 STARBUCKS #4521 COFFEE $5.75''
   \<and> list_ex (\<lambda>t. ltZero (amount t))
        [the (spParsePDFLine 2026 ''07/28/2024 STARBUCKS #4521 COFFEE $5.75'')]
   \<and> list_ex (\<lambda>u. ltZero (amount u))
        [the (parsePDFLine dateOfStringSample 2026 ''07/28/2024 STARBUCKS #4521 COFFEE $5.75'')]"
proof -
  let ?pay = "''07/28/2024 Payment thank you $50.00''"
  let ?sb = "''07/28/2024 STARBUCKS #4521 COFFEE $5.75''"
  have k: "hasCreditKeyword ?pay" by code_simp
  have nk: "\<not> hasCreditKeyword ?sb" by code_simp
  have "spParsePDFLine 2026 ?pay \<noteq> None" by code_simp
  then obtain t where t: "spParsePDFLine 2026 ?pay = Some t" by blast
  have a: "spParseAmount (strGrp (last (matchAll ?pay amountRegex)) 1) = Num 50" by code_simp
  have "amount t = spParseAmount (strGrp (last (matchAll ?pay amountRegex)) 1)"
    using line_amount_sign [of 2026 ?pay t] t k by blast
  then have "amount t = Num 50" using a by simp
  then have r1: "map_option amount (spParsePDFLine 2026 ?pay) = Some (Num 50)" using t by simp
  have "spParsePDFLine 2026 ?sb \<noteq> None" by code_simp
  then obtain v where v: "spParsePDFLine 2026 ?sb = Some v" by blast
  have r2: "ltZero (amount v)" using line_amount_sign [of 2026 ?sb v] v nk by blast
  have "parsePDFLine dateOfStringSample 2026 ?sb \<noteq> None" by code_simp
  then obtain u where u: "parsePDFLine dateOfStringSample 2026 ?sb = Some u" by blast
  have r3: "ltZero (amount u)"
    using line_amount_sign [of 2026 ?sb _ dateOfStringSample u] u by blast
  show ?thesis using k nk r1 r2 r3 v u by simp
qed

text \<open>
  The claim fails on the stand-alone parser: a line that says \<open>PAYMENT\<close> gets a negative
  amount there.
\<close>

theorem parsePDFLine_payment_counterexample:
  "hasCreditKeyword ''07/28/2024 PAYMENT THANK YOU $50.00''
   \<and> map_option amount
         (parsePDFLine dateOfStringSample 2026 ''07/28/2024 PAYMENT THANK YOU $50.00'')
       = Some (Num (- 50))"
  by code_simp

section \<open>Properties of the row builders\<close>

lemma parseDate_valid: "parseDate f cy s = Some d \<Longrightarrow> isValidDate (Some d)"
  by (auto simp: parseDate_def Let_def split: option.splits if_splits dest: tryFormats_valid)

lemma findDate_valid: "findDate f cy r names = Some d \<Longrightarrow> isValidDate (Some d)"
  by (induction names) (auto split: if_splits option.splits dest: parseDate_valid)

lemma findDescription_trimmed:
  "findDescription r names \<noteq> []
   \<Longrightarrow> \<exists>field\<in>set names. findDescription r names = trim (cell r field)"
  by (induction names) (auto split: if_splits)


lemma findAmount_cases:
  "findAmount r names = Num 0 \<or> (\<not> isNaN (findAmount r names) \<and> \<not> isZero (findAmount r names))"
proof (induction names)
  case Nil
  show ?case by simp
next
  case (Cons n ns)
  show ?case
  proof (cases "truthy r n \<and> \<not> isNaN (parseAmount (cell r n)) \<and> \<not> isZero (parseAmount (cell r n))")
    case True
    then show ?thesis by (simp add: Let_def)
  next
    case False
    then have "findAmount r (n # ns) = findAmount r ns" by (auto simp: Let_def)
    then show ?thesis using Cons.IH by simp
  qed
qed

lemma isNaN_mathAbs [simp]: "isNaN (mathAbs x) = isNaN x"
  by (cases x) simp_all

lemma isNaN_neg [simp]: "isNaN (neg x) = isNaN x"
  by (cases x) simp_all

lemma debitCredit_not_NaN:
  assumes "\<not> isNaN a" shows "\<not> isNaN (debitCredit r a)"
proof -
  let ?ad = "case firstTruthy r [''Debit'', ''debit'', ''DEBIT''] of
               None \<Rightarrow> a
             | Some debit \<Rightarrow>
                 (let debitAmount = parseAmount debit
                  in if \<not> isNaN debitAmount then neg (mathAbs debitAmount) else a)"
  have ad: "\<not> isNaN ?ad" using assms by (simp add: Let_def split: option.split)
  have "debitCredit r a = (case firstTruthy r [''Credit'', ''credit'', ''CREDIT''] of
            None \<Rightarrow> ?ad
          | Some credit \<Rightarrow>
              (let creditAmount = parseAmount credit
               in if \<not> isNaN creditAmount then mathAbs creditAmount else ?ad))"
    by (simp add: debitCredit_def Let_def)
  then show ?thesis using ad by (simp add: Let_def split: option.split)
qed


lemma parseCSVRow_Some:
  assumes "parseCSVRow f cy r = Some t"
  shows "findDate f cy r [''Date'', ''Transaction Date'', ''Posted Date'', ''date'', ''DATE'']
            = Some (date t)
     \<and> description t = findDescription r
            [''Description'', ''Merchant'', ''Transaction Description'', ''description'',
             ''DESCRIPTION'', ''Payee'']
     \<and> description t \<noteq> []
     \<and> \<not> isZero (amount t)
     \<and> amount t = (if isZero (findAmount r
            [''Amount'', ''Transaction Amount'', ''Debit'', ''Credit'', ''amount'', ''AMOUNT''])
          then debitCredit r (findAmount r
            [''Amount'', ''Transaction Amount'', ''Debit'', ''Credit'', ''amount'', ''AMOUNT''])
          else findAmount r
            [''Amount'', ''Transaction Amount'', ''Debit'', ''Credit'', ''amount'', ''AMOUNT''])"
proof -
  define dd where "dd = findDate f cy r
     [''Date'', ''Transaction Date'', ''Posted Date'', ''date'', ''DATE'']"
  define ds where "ds = findDescription r
            [''Description'', ''Merchant'', ''Transaction Description'', ''description'',
             ''DESCRIPTION'', ''Payee'']"
  define a0 where "a0 = findAmount r
            [''Amount'', ''Transaction Amount'', ''Debit'', ''Credit'', ''amount'', ''AMOUNT'']"
  define a1 where "a1 = (if isZero a0 then debitCredit r a0 else a0)"
  have unf: "parseCSVRow f cy r = (case dd of None \<Rightarrow> None
     | Some d \<Rightarrow> if ds = [] \<or> isZero a1 then None
        else Some \<lparr>date = d, description = ds, amount = a1, originalText = JsonOf r,
                   merchantName = Some (extractMerchantName ds)\<rparr>)"
    unfolding parseCSVRow_def dd_def ds_def a0_def a1_def Let_def ..
  from assms obtain d where d: "dd = Some d" unfolding unf by (cases dd) simp_all
  from assms have ok: "\<not> (ds = [] \<or> isZero a1)" unfolding unf d by (auto split: if_splits)
  from assms have t: "t = \<lparr>date = d, description = ds, amount = a1, originalText = JsonOf r,
                   merchantName = Some (extractMerchantName ds)\<rparr>"
    unfolding unf d using ok by simp
  show ?thesis
    unfolding dd_def [symmetric] ds_def [symmetric] a0_def [symmetric] a1_def [symmetric]
    using d ok t by simp
qed

lemma parseCSVRow_valid:
  assumes "parseCSVRow f cy r = Some t"
  shows "isValidDate (Some (date t)) \<and> description t \<noteq> []
     \<and> (\<exists>field. description t = trim (cell r field))
     \<and> \<not> isNaN (amount t) \<and> \<not> isZero (amount t)"
proof -
  define a0 where "a0 = findAmount r
            [''Amount'', ''Transaction Amount'', ''Debit'', ''Credit'', ''amount'', ''AMOUNT'']"
  define ds where "ds = findDescription r
            [''Description'', ''Merchant'', ''Transaction Description'', ''description'',
             ''DESCRIPTION'', ''Payee'']"
  note s = parseCSVRow_Some [OF assms, folded a0_def ds_def]
  have v: "isValidDate (Some (date t))" using s findDate_valid by blast
  have "a0 = Num 0 \<or> (\<not> isNaN a0 \<and> \<not> isZero a0)"
    unfolding a0_def by (rule findAmount_cases)
  then have a0: "\<not> isNaN a0" by auto
  then have "\<not> isNaN (debitCredit r a0)" by (rule debitCredit_not_NaN)
  with a0 have "\<not> isNaN (if isZero a0 then debitCredit r a0 else a0)" by simp
  then have an: "\<not> isNaN (amount t)" using s by simp
  have "ds \<noteq> []" using s by auto
  then have "\<exists>field. ds = trim (cell r field)"
    unfolding ds_def using findDescription_trimmed by blast
  then have "\<exists>field. description t = trim (cell r field)" using s by simp
  then show ?thesis using v an s by blast
qed

text \<open>
  C7. The stand-alone parser's \<open>parseCSVRow\<close> keeps the invariant (\<open>parseCSVRow_valid\<close>
  above): a row that builds has a date that passed the check, a description that is
  trimmed and not empty, and an amount that is a number other than zero. The server's
  builder for rows with headers does not: a \<open>Debit\<close> cell that is not a number gives the
  amount \<open>NaN\<close>, which the test \<open>amount !== 0\<close> lets through; the other paths of the same
  builder, and \<open>parseCSVRow\<close>, test \<open>isNaN\<close>.
\<close>

theorem rowWithHeaders_unparseable_debit:
  "hasHeaders [(''Date'', ''07/28/2024''), (''Description'', ''Coffee''), (''Debit'', ''abc'')]
   \<and> parseAmount ''abc'' = NaN
   \<and> map_option amount
        (rowWithHeaders dateOfStringSample 2026
           [(''Date'', ''07/28/2024''), (''Description'', ''Coffee''), (''Debit'', ''abc'')])
       = Some NaN
   \<and> map amount
        (parseCSV dateOfStringSample 2026
           [[(''Date'', ''07/28/2024''), (''Description'', ''Coffee''), (''Debit'', ''abc'')]])
       = [NaN]
   \<and> parseCSVRow dateOfStringSample 2026
         [(''Date'', ''07/28/2024''), (''Description'', ''Coffee''), (''Debit'', ''abc'')] = None"
  by code_simp

section \<open>Properties of the storage loop\<close>

lemma storeLoop_step:
  "storeLoop sid (tx # txs) acc = storeLoop sid txs (storeLoop sid [tx] acc)"
  by (cases acc) (simp add: Let_def split: option.split)

lemma storeLoop_single:
  "storeLoop sid [tx] (rows, s, d) =
     (if isDuplicate rows tx then (rows, s, Suc d)
      else if isNaN (amount tx) then (rows, s, d)
      else (rows @ [\<lparr>rAmount = amount tx, rDescription = description tx,
                      rMerchantName = merchantName tx, rDate = date tx,
                      rCategoryId = categorizeTransaction (description tx) (merchantName tx),
                      rSourceId = sid, rOriginalText = originalText tx\<rparr>], Suc s, d))"
  by (simp add: Let_def insertTransaction_def)

lemma isDuplicate_iff:
  "isDuplicate rows tx \<longleftrightarrow>
     \<not> isNaN (amount tx)
     \<and> (\<exists>r\<in>set rows. rDescription r = description tx \<and> rAmount r = amount tx \<and> rDate r = date tx)"
  by (simp add: isDuplicate_def list_ex_iff sameKey_def)

lemma isDuplicate_mono: "isDuplicate rows tx \<Longrightarrow> isDuplicate (rows @ extra) tx"
  by (auto simp: isDuplicate_iff)

lemma storeLoop_extends: "\<exists>extra. fst (storeLoop sid txs (rows, s, d)) = rows @ extra"
proof (induction txs arbitrary: rows s d)
  case Nil
  show ?case by simp
next
  case (Cons tx txs)
  obtain rows1 s1 d1 where one: "storeLoop sid [tx] (rows, s, d) = (rows1, s1, d1)"
    by (cases "storeLoop sid [tx] (rows, s, d)")
  have "\<exists>e. rows1 = rows @ e"
    using one unfolding storeLoop_single by (auto split: if_splits)
  then obtain e where e: "rows1 = rows @ e" ..
  have eq: "storeLoop sid (tx # txs) (rows, s, d) = storeLoop sid txs (rows1, s1, d1)"
    unfolding storeLoop_step [of sid tx txs] one ..
  from Cons.IH [of rows1 s1 d1] obtain e' where
    "fst (storeLoop sid txs (rows1, s1, d1)) = rows1 @ e'" ..
  then have "fst (storeLoop sid (tx # txs) (rows, s, d)) = rows @ (e @ e')"
    unfolding eq using e by simp
  then show ?case ..
qed

lemma storeLoop_all_duplicates:
  "\<forall>tx\<in>set txs. isDuplicate rows tx
   \<Longrightarrow> storeLoop sid txs (rows, s, d) = (rows, s, d + length txs)"
  by (induction txs arbitrary: d) simp_all

lemma storeLoop_makes_duplicates:
  "\<forall>tx\<in>set txs. \<not> isNaN (amount tx)
   \<Longrightarrow> \<forall>tx\<in>set txs. isDuplicate (fst (storeLoop sid txs (rows, s, d))) tx"
proof (induction txs arbitrary: rows s d)
  case Nil
  show ?case by simp
next
  case (Cons tx txs)
  obtain rows1 s1 d1 where one: "storeLoop sid [tx] (rows, s, d) = (rows1, s1, d1)"
    by (cases "storeLoop sid [tx] (rows, s, d)")
  have nn: "\<not> isNaN (amount tx)" using Cons.prems by simp
  have dup1: "isDuplicate rows1 tx"
    using one nn unfolding storeLoop_single by (auto simp: isDuplicate_iff split: if_splits)
  have eq: "storeLoop sid (tx # txs) (rows, s, d) = storeLoop sid txs (rows1, s1, d1)"
    unfolding storeLoop_step [of sid tx txs] one ..
  obtain e where e: "fst (storeLoop sid txs (rows1, s1, d1)) = rows1 @ e"
    using storeLoop_extends by blast
  have "isDuplicate (fst (storeLoop sid txs (rows1, s1, d1))) tx"
    unfolding e using dup1 by (rule isDuplicate_mono)
  moreover have "\<forall>t\<in>set txs. isDuplicate (fst (storeLoop sid txs (rows1, s1, d1))) t"
    by (rule Cons.IH) (use Cons.prems in simp)
  ultimately show ?case unfolding eq by simp
qed

lemma storeLoop_second_run:
  assumes "\<forall>tx\<in>set txs. \<not> isNaN (amount tx)"
    and "storeLoop sid txs (rows, 0, 0) = (rows1, s1, d1)"
  shows "storeLoop sid' txs (rows1, 0, 0) = (rows1, 0, length txs)"
proof -
  have "\<forall>tx\<in>set txs. isDuplicate (fst (storeLoop sid txs (rows, 0, 0))) tx"
    using assms(1) by (rule storeLoop_makes_duplicates)
  then have "\<forall>tx\<in>set txs. isDuplicate rows1 tx" using assms(2) by simp
  then show ?thesis using storeLoop_all_duplicates [of txs rows1 sid' 0 0] by simp
qed

text \<open>
  C2, as the code has it. For a transaction whose amount is a number, one pass of the loop
  looks for a stored row with the same description, the same amount and the same date and
  time, in any source: when there is one, the rows stay as they are and the duplicate
  counter goes up by one; when there is none, a row with the upload's source is appended
  and the stored counter goes up by one. The loop is the repetition of such passes, and no
  pass raises an error.
\<close>

theorem duplicate_filter_step:
  "(\<not> isNaN (amount tx) \<longrightarrow>
      ((\<exists>r\<in>set rows. rDescription r = description tx \<and> rAmount r = amount tx
            \<and> rDate r = date tx)
        \<longrightarrow> storeLoop sid [tx] (rows, s, d) = (rows, s, Suc d))
      \<and> (\<not> (\<exists>r\<in>set rows. rDescription r = description tx \<and> rAmount r = amount tx
              \<and> rDate r = date tx)
        \<longrightarrow> storeLoop sid [tx] (rows, s, d) =
             (rows @ [\<lparr>rAmount = amount tx, rDescription = description tx,
                        rMerchantName = merchantName tx, rDate = date tx,
                        rCategoryId = categorizeTransaction (description tx) (merchantName tx),
                        rSourceId = sid, rOriginalText = originalText tx\<rparr>], Suc s, d)))
   \<and> storeLoop sid (tx # txs) acc = storeLoop sid txs (storeLoop sid [tx] acc)"
proof (intro conjI impI)
  assume "\<not> isNaN (amount tx)"
    and "\<exists>r\<in>set rows. rDescription r = description tx \<and> rAmount r = amount tx
            \<and> rDate r = date tx"
  then have "isDuplicate rows tx" by (simp add: isDuplicate_iff)
  then show "storeLoop sid [tx] (rows, s, d) = (rows, s, Suc d)"
    unfolding storeLoop_single by simp
next
  assume n: "\<not> isNaN (amount tx)"
    and "\<not> (\<exists>r\<in>set rows. rDescription r = description tx \<and> rAmount r = amount tx
            \<and> rDate r = date tx)"
  then have "\<not> isDuplicate rows tx" by (simp add: isDuplicate_iff)
  then show "storeLoop sid [tx] (rows, s, d) =
             (rows @ [\<lparr>rAmount = amount tx, rDescription = description tx,
                        rMerchantName = merchantName tx, rDate = date tx,
                        rCategoryId = categorizeTransaction (description tx) (merchantName tx),
                        rSourceId = sid, rOriginalText = originalText tx\<rparr>], Suc s, d)"
    unfolding storeLoop_single using n by simp
next
  show "storeLoop sid (tx # txs) acc = storeLoop sid txs (storeLoop sid [tx] acc)"
    by (rule storeLoop_step)
qed

theorem duplicate_filter_step_witness:
  "storeLoop ''card_A'' [sampleTx 0] ([sampleRow ''card_A''], 2, 3) = ([sampleRow ''card_A''], 2, 4)
   \<and> storeLoop ''card_A'' [sampleTx 0] ([], 0, 0) = ([sampleRow ''card_A''], 1, 0)
   \<and> storeLoop ''card_A'' [sampleTx 0, sampleTx 0] ([], 0, 0) = ([sampleRow ''card_A''], 1, 1)"
proof -
  let ?tx = "sampleTx 0"
  let ?r = "sampleRow ''card_A''"
  have n: "\<not> isNaN (amount ?tx)" by code_simp
  have same: "rDescription ?r = description ?tx \<and> rAmount ?r = amount ?tx \<and> rDate ?r = date ?tx"
    by code_simp
  have a: "storeLoop ''card_A'' [?tx] ([?r], 2, 3) = ([?r], 2, Suc 3)"
    using duplicate_filter_step [of ?tx "[?r]" "''card_A''" 2 3] n same by simp
  have new: "\<lparr>rAmount = amount ?tx, rDescription = description ?tx,
        rMerchantName = merchantName ?tx, rDate = date ?tx,
        rCategoryId = categorizeTransaction (description ?tx) (merchantName ?tx),
        rSourceId = ''card_A'', rOriginalText = originalText ?tx\<rparr> = ?r"
    by code_simp
  have b: "storeLoop ''card_A'' [?tx] ([], 0, 0) = ([?r], Suc 0, 0)"
    using duplicate_filter_step [of ?tx "[]" "''card_A''" 0 0] n new by simp
  have c1: "storeLoop ''card_A'' [?tx] ([?r], Suc 0, 0) = ([?r], Suc 0, Suc 0)"
    using duplicate_filter_step [of ?tx "[?r]" "''card_A''" "Suc 0" 0] n same by simp
  have "storeLoop ''card_A'' (?tx # [?tx]) ([], 0, 0)
      = storeLoop ''card_A'' [?tx] (storeLoop ''card_A'' [?tx] ([], 0, 0))"
    using duplicate_filter_step [of ?tx _ "''card_A''" _ _ "[?tx]" "([], 0, 0)"] by blast
  then have c: "storeLoop ''card_A'' [?tx, ?tx] ([], 0, 0) = ([?r], Suc 0, Suc 0)"
    unfolding b c1 .
  show ?thesis using a b c by simp
qed

text \<open>
  The claim's scope and granularity fail. A row stored for another source makes the
  transaction a duplicate although its own source holds no such row; and a row of the same
  day with another time of day does not.
\<close>

theorem duplicate_scope_counterexample:
  "list_all (\<lambda>r. rSourceId r \<noteq> ''card_B'') [sampleRow ''card_A'']
   \<and> storeLoop ''card_B'' [sampleTx 0] ([sampleRow ''card_A''], 0, 0)
       = ([sampleRow ''card_A''], 0, 1)
   \<and> dayOfMonth (date (sampleTx 3600000)) = dayOfMonth (rDate (sampleRow ''card_A''))
   \<and> month (date (sampleTx 3600000)) = month (rDate (sampleRow ''card_A''))
   \<and> fullYear (date (sampleTx 3600000)) = fullYear (rDate (sampleRow ''card_A''))
   \<and> snd (storeLoop ''card_A'' [sampleTx 3600000] ([sampleRow ''card_A''], 0, 0)) = (1, 0)"
proof -
  have src: "list_all (\<lambda>r. rSourceId r \<noteq> ''card_B'') [sampleRow ''card_A'']"
    by (simp add: sampleRow_def)
  have dup: "isDuplicate [sampleRow ''card_A''] (sampleTx 0)"
    by (simp add: isDuplicate_iff sampleRow_def sampleTx_def)
  have a: "storeLoop ''card_B'' [sampleTx 0] ([sampleRow ''card_A''], 0, 0)
      = ([sampleRow ''card_A''], 0, 1)"
    unfolding storeLoop_single using dup by simp
  have nodup: "\<not> isDuplicate [sampleRow ''card_A''] (sampleTx 3600000)"
    by (simp add: isDuplicate_iff sampleRow_def sampleTx_def)
  have num: "\<not> isNaN (amount (sampleTx 3600000))" by (simp add: sampleTx_def)
  have b: "snd (storeLoop ''card_A'' [sampleTx 3600000] ([sampleRow ''card_A''], 0, 0)) = (1, 0)"
    unfolding storeLoop_single using nodup num by simp
  show ?thesis using src a b by (simp add: sampleRow_def sampleTx_def)
qed

section \<open>Properties of the upload handler\<close>

lemma readFileSync_uploadedFiles [simp]:
  "readFileSync (w\<lparr>uploadedFiles := u\<rparr>) p = readFileSync w p"
  by (simp add: readFileSync_def)

lemma files_setStatus [simp]: "files (setStatus w fid g) = files w"
  by (simp add: setStatus_def split: option.split)

lemma transactions_setStatus [simp]: "transactions (setStatus w fid g) = transactions w"
  by (simp add: setStatus_def split: option.split)

lemma uploadedFiles_setStatus:
  "uploadedFiles (setStatus w fid g) fid = map_option g (uploadedFiles w fid)"
  by (simp add: setStatus_def split: option.split)

lemma transactions_tryUnlink [simp]: "transactions (tryUnlink w p) = transactions w"
  by (simp add: tryUnlink_def unlinkSync_def)

lemma uploadedFiles_tryUnlink [simp]: "uploadedFiles (tryUnlink w p) = uploadedFiles w"
  by (simp add: tryUnlink_def unlinkSync_def)

lemma undeletable_tryUnlink [simp]: "undeletable (tryUnlink w p) = undeletable w"
  by (simp add: tryUnlink_def unlinkSync_def)

lemma files_tryUnlink:
  "files (tryUnlink w p) p = (if undeletable w p then files w p else None)"
  by (simp add: tryUnlink_def unlinkSync_def)

lemma undeletable_setStatus [simp]: "undeletable (setStatus w fid g) = undeletable w"
  by (simp add: setStatus_def split: option.split)

lemma upload_no_file:
  "reqFile req = None
   \<Longrightarrow> uploadHandler e w req = (w, \<lparr>statusCode = 400, payload = ErrorBody ''No file uploaded''\<rparr>)"
  by (simp add: uploadHandler_def)

lemma upload_read_error:
  "reqFile req = Some f \<Longrightarrow> readFileSync w (path f) = Inl msg
   \<Longrightarrow> uploadHandler e w req =
         (setStatus (received e w req f) (newFileId e)
            (\<lambda>r. r\<lparr>fStatus := ''failed'', fErrorMessage := Some msg\<rparr>),
          \<lparr>statusCode = 500, payload = ErrorBody (''File processing failed: '' @ msg)\<rparr>)"
  by (simp add: uploadHandler_def Let_def received_def processingRecord_def)

lemma upload_unsupported:
  "reqFile req = Some f \<Longrightarrow> readFileSync w (path f) = Inr content
   \<Longrightarrow> detect (toLowerCase (originalname f)) content = Unsupported
   \<Longrightarrow> uploadHandler e w req =
         (received e w req f,
          \<lparr>statusCode = 400, payload = ErrorBody ''Unsupported file type. Use CSV or PDF files.''\<rparr>)"
  by (simp add: uploadHandler_def Let_def received_def processingRecord_def)

lemma upload_no_transactions:
  "reqFile req = Some f \<Longrightarrow> readFileSync w (path f) = Inr content
   \<Longrightarrow> detect (toLowerCase (originalname f)) content \<noteq> Unsupported
   \<Longrightarrow> extracted e (toLowerCase (originalname f)) content = []
   \<Longrightarrow> uploadHandler e w req =
         (received e w req f,
          \<lparr>statusCode = 400, payload = ErrorBody ''No transactions found in the file''\<rparr>)"
  by (cases "detect (toLowerCase (originalname f)) content")
     (simp_all add: uploadHandler_def Let_def received_def processingRecord_def extracted_def)

lemma upload_stored:
  "reqFile req = Some f \<Longrightarrow> readFileSync w (path f) = Inr content
   \<Longrightarrow> detect (toLowerCase (originalname f)) content \<noteq> Unsupported
   \<Longrightarrow> extracted e (toLowerCase (originalname f)) content = txs \<Longrightarrow> txs \<noteq> []
   \<Longrightarrow> storeLoop (sourceOf req) txs (transactions w, 0, 0) = (rows', stored, dups)
   \<Longrightarrow> uploadHandler e w req =
         (tryUnlink
            (setStatus ((received e w req f)\<lparr>transactions := rows'\<rparr>) (newFileId e)
               (\<lambda>r. r\<lparr>fTransactionsCount := length txs, fProcessedCount := stored,
                       fDuplicateCount := dups, fStatus := ''completed''\<rparr>))
            (path f),
          \<lparr>statusCode = 200,
           payload = SuccessBody
             \<lparr>filename = originalname f, transactionCount = stored, duplicateCount = dups,
              totalAmount = foldl (\<lambda>sum t. addNumber sum (mathAbs (amount t))) (Num 0) txs,
              fileId = newFileId e, preview = map previewOf (take 5 txs)\<rparr>\<rparr>)"
  by (cases "detect (toLowerCase (originalname f)) content")
     (simp_all add: uploadHandler_def Let_def received_def processingRecord_def extracted_def)

lemma upload_stored_facts:
  assumes "reqFile req = Some f" "readFileSync w (path f) = Inr content"
    "detect (toLowerCase (originalname f)) content \<noteq> Unsupported"
    "extracted e (toLowerCase (originalname f)) content = txs" "txs \<noteq> []"
    "storeLoop (sourceOf req) txs (transactions w, 0, 0) = (rows', stored, dups)"
  shows "statusCode (snd (uploadHandler e w req)) = 200"
    and "countsOf (snd (uploadHandler e w req)) = Some (stored, dups)"
    and "transactions (fst (uploadHandler e w req)) = rows'"
    and "files (fst (uploadHandler e w req)) (path f)
           = (if undeletable w (path f) then files w (path f) else None)"
    and "statusOf (fst (uploadHandler e w req)) (newFileId e) = Some ''completed''"
    and "map_option fTransactionsCount (uploadedFiles (fst (uploadHandler e w req)) (newFileId e))
           = Some (length txs)"
  unfolding upload_stored [OF assms]
  by (simp_all add: countsOf_def statusOf_def files_tryUnlink)
     (simp_all add: setStatus_def received_def)

lemma sampleRequest_file: "reqFile (sampleRequest name) = Some (sampleUpload name)"
  by (simp add: sampleRequest_def sampleUpload_def)

lemma sampleRequest_source: "sourceOf (sampleRequest name) = ''card_A''"
  by (simp add: sampleRequest_def sourceOf_def orElse_def)

lemma sampleUpload_fields: "path (sampleUpload name) = ''/tmp/u1''" "originalname (sampleUpload name) = name"
  by (simp_all add: sampleUpload_def)

lemma read_worldWith: "readFileSync (worldWith rows (Readable c)) ''/tmp/u1'' = Inr c"
  by (simp add: readFileSync_def worldWith_def)

lemma read_worldWith_unreadable: "readFileSync (worldWith rows (Unreadable msg)) ''/tmp/u1'' = Inl msg"
  by (simp add: readFileSync_def worldWith_def)

lemma read_storeUpload: "readFileSync (storeUpload w p c) p = Inr c"
  by (simp add: readFileSync_def storeUpload_def)

lemma sampleEnv_fields:
  "dateOfString (sampleEnv fid) = dateOfStringSample" "currentYear (sampleEnv fid) = 2026"
  "csvRows (sampleEnv fid) = csvSample" "newFileId (sampleEnv fid) = fid"
  by (simp_all add: sampleEnv_def)

lemma lower_stmt: "toLowerCase ''stmt.csv'' = ''stmt.csv''"
  by code_simp

lemma detect_stmt: "detect ''stmt.csv'' c = Delimited"
proof -
  have "endsWith ''stmt.csv'' ''.csv''" by code_simp
  then show ?thesis by (simp add: detect_def Let_def)
qed

lemma extracted_same_env:
  "dateOfString e' = dateOfString e \<Longrightarrow> currentYear e' = currentYear e
   \<Longrightarrow> csvRows e' = csvRows e \<Longrightarrow> extracted e' name content = extracted e name content"
  by (simp add: extracted_def)

text \<open>
  Idempotence for files whose amounts are all numbers: after a run that stored the file,
  a second upload of the same content finds every transaction in the store.
\<close>

lemma reingest_idempotent:
  assumes f: "reqFile req = Some f"
    and rd: "readFileSync w (path f) = Inr content"
    and det: "detect (toLowerCase (originalname f)) content \<noteq> Unsupported"
    and ex: "extracted e (toLowerCase (originalname f)) content = txs" "txs \<noteq> []"
    and num: "\<forall>tx\<in>set txs. \<not> isNaN (amount tx)"
    and env: "dateOfString e' = dateOfString e" "currentYear e' = currentYear e"
      "csvRows e' = csvRows e"
  shows "countsOf (snd (uploadHandler e'
            (storeUpload (fst (uploadHandler e w req)) (path f) content) req))
         = Some (0, length txs)"
proof -
  obtain rows1 s1 d1 where
    st: "storeLoop (sourceOf req) txs (transactions w, 0, 0) = (rows1, s1, d1)"
    by (cases "storeLoop (sourceOf req) txs (transactions w, 0, 0)")
  let ?w1 = "fst (uploadHandler e w req)"
  let ?w2 = "storeUpload ?w1 (path f) content"
  have tr: "transactions ?w2 = rows1"
    unfolding upload_stored [OF f rd det ex st] by (simp add: storeUpload_def)
  have rd2: "readFileSync ?w2 (path f) = Inr content"
    by (simp add: readFileSync_def storeUpload_def)
  have ex2: "extracted e' (toLowerCase (originalname f)) content = txs"
    using extracted_same_env [OF env] ex(1) by simp
  have st2: "storeLoop (sourceOf req) txs (transactions ?w2, 0, 0) = (rows1, 0, length txs)"
    unfolding tr using num st by (rule storeLoop_second_run)
  show ?thesis
    unfolding upload_stored [OF f rd2 det ex2 ex(2) st2] by (simp add: countsOf_def)
qed

lemma extracted_debit:
  "extracted (sampleEnv ''file_1'') ''stmt.csv'' debitFile = [nanTx, teaTx]"
  by code_simp

lemma store_debit_first: "storeLoop ''card_A'' [nanTx, teaTx] ([], 0, 0) = ([teaRow], 1, 0)"
  by code_simp

lemma store_debit_second: "storeLoop ''card_A'' [nanTx, teaTx] ([teaRow], 0, 0) = ([teaRow], 0, 1)"
  by code_simp

text \<open>
  C1. Re-ingestion is not idempotent for a file with a \<open>Debit\<close> cell that is not a number.
  The file below has two rows; the first gets the amount \<open>NaN\<close> from the row builder. The
  first run stores one transaction of the two; the second run counts one duplicate, not
  two.
\<close>

theorem reingest_unparseable_debit:
  "countsOf (snd (firstRun debitFile)) = Some (1, 0)
   \<and> map_option fTransactionsCount (uploadedFiles (fst (firstRun debitFile)) ''file_1'') = Some 2
   \<and> countsOf (snd (secondRun debitFile)) = Some (0, 1)
   \<and> map_option fTransactionsCount (uploadedFiles (fst (secondRun debitFile)) ''file_2'') = Some 2"
proof -
  let ?req = "sampleRequest ''stmt.csv''"
  let ?f = "sampleUpload ''stmt.csv''"
  let ?w0 = "worldWith [] (Readable debitFile)"
  have f: "reqFile ?req = Some ?f" by (rule sampleRequest_file)
  have rd: "readFileSync ?w0 (path ?f) = Inr debitFile"
    by (simp add: sampleUpload_fields read_worldWith)
  have det: "detect (toLowerCase (originalname ?f)) debitFile \<noteq> Unsupported"
    by (simp add: sampleUpload_fields lower_stmt detect_stmt)
  have ex: "extracted (sampleEnv ''file_1'') (toLowerCase (originalname ?f)) debitFile
      = [nanTx, teaTx]"
    by (simp add: sampleUpload_fields lower_stmt extracted_debit)
  have ne: "[nanTx, teaTx] \<noteq> []" by simp
  have st: "storeLoop (sourceOf ?req) [nanTx, teaTx] (transactions ?w0, 0, 0) = ([teaRow], 1, 0)"
  proof -
    have "transactions ?w0 = []" by (simp add: worldWith_def)
    then show ?thesis unfolding sampleRequest_source by (simp only: store_debit_first)
  qed
  note r1 = upload_stored_facts [OF f rd det ex ne st]
  let ?w1 = "storeUpload (fst (firstRun debitFile)) ''/tmp/u1'' debitFile"
  have tr: "transactions ?w1 = [teaRow]"
    using r1(3) by (simp add: storeUpload_def firstRun_def)
  have rd2: "readFileSync ?w1 (path ?f) = Inr debitFile"
    by (simp add: sampleUpload_fields read_storeUpload)
  have ex2: "extracted (sampleEnv ''file_2'') (toLowerCase (originalname ?f)) debitFile
      = [nanTx, teaTx]"
    using ex extracted_same_env [of "sampleEnv ''file_2''" "sampleEnv ''file_1''"]
    by (simp add: sampleEnv_fields)
  have st2: "storeLoop (sourceOf ?req) [nanTx, teaTx] (transactions ?w1, 0, 0) = ([teaRow], 0, 1)"
    unfolding tr sampleRequest_source by (rule store_debit_second)
  note r2 = upload_stored_facts [OF f rd2 det ex2 ne st2]
  have two: "length [nanTx, teaTx] = 2" by simp
  show ?thesis
    unfolding firstRun_def secondRun_def
    using r1(2) r1(6) r2(2) r2(6) unfolding two firstRun_def sampleEnv_fields
    by simp
qed

text \<open>
  C8, as the code has it. The delimited strategy is selected when the lowercased name ends
  in \<open>.csv\<close> or the first hundred bytes contain a comma, whatever the content begins with;
  otherwise the line-based strategy is selected when the content begins with \<open>%PDF\<close> or the
  name ends in \<open>.pdf\<close>; every other file is rejected with the unsupported-type error.
\<close>

theorem detect_routing:
  "(detect fileName content = Delimited \<longleftrightarrow>
      endsWith fileName ''.csv'' \<or> strIncludes (take 100 content) '','')
   \<and> (detect fileName content = LineBased \<longleftrightarrow>
      \<not> (endsWith fileName ''.csv'' \<or> strIncludes (take 100 content) '','')
      \<and> (take 4 content = ''%PDF'' \<or> endsWith fileName ''.pdf''))
   \<and> (detect fileName content = Unsupported \<longleftrightarrow>
      \<not> endsWith fileName ''.csv'' \<and> \<not> strIncludes (take 100 content) '',''
      \<and> take 4 content \<noteq> ''%PDF'' \<and> \<not> endsWith fileName ''.pdf'')
   \<and> (reqFile req = Some f \<and> readFileSync w (path f) = Inr body0
        \<and> detect (toLowerCase (originalname f)) body0 = Unsupported
      \<longrightarrow> snd (uploadHandler e w req) =
            \<lparr>statusCode = 400,
             payload = ErrorBody ''Unsupported file type. Use CSV or PDF files.''\<rparr>)"
proof (intro conjI impI)
  show "detect fileName content = Delimited \<longleftrightarrow>
      endsWith fileName ''.csv'' \<or> strIncludes (take 100 content) '',''"
    by (simp add: detect_def Let_def)
next
  show "detect fileName content = LineBased \<longleftrightarrow>
      \<not> (endsWith fileName ''.csv'' \<or> strIncludes (take 100 content) '','')
      \<and> (take 4 content = ''%PDF'' \<or> endsWith fileName ''.pdf'')"
    by (simp add: detect_def Let_def)
next
  show "detect fileName content = Unsupported \<longleftrightarrow>
      \<not> endsWith fileName ''.csv'' \<and> \<not> strIncludes (take 100 content) '',''
      \<and> take 4 content \<noteq> ''%PDF'' \<and> \<not> endsWith fileName ''.pdf''"
    by (simp add: detect_def Let_def)
next
  assume "reqFile req = Some f \<and> readFileSync w (path f) = Inr body0
        \<and> detect (toLowerCase (originalname f)) body0 = Unsupported"
  then show "snd (uploadHandler e w req) =
            \<lparr>statusCode = 400,
             payload = ErrorBody ''Unsupported file type. Use CSV or PDF files.''\<rparr>"
    by (simp add: upload_unsupported)
qed

theorem detect_routing_witness:
  "detect ''notes.txt'' ''hello world'' = Unsupported
   \<and> snd (uploadHandler (sampleEnv ''file_1'') (worldWith [] (Readable ''hello world''))
        (sampleRequest ''notes.txt''))
       = \<lparr>statusCode = 400,
          payload = ErrorBody ''Unsupported file type. Use CSV or PDF files.''\<rparr>
   \<and> detect ''statement.pdf'' ''%PDF-1.4'' = LineBased"
proof -
  let ?w = "worldWith [] (Readable ''hello world'')"
  let ?req = "sampleRequest ''notes.txt''"
  let ?f = "\<lparr>path = ''/tmp/u1'', originalname = ''notes.txt''\<rparr>"
  have f: "reqFile ?req = Some ?f" by (simp add: sampleRequest_def)
  have rd: "readFileSync ?w (path ?f) = Inr ''hello world''" by code_simp
  have lower: "toLowerCase (originalname ?f) = ''notes.txt''" by code_simp
  have u: "detect ''notes.txt'' ''hello world'' = Unsupported" by code_simp
  have l: "detect ''statement.pdf'' ''%PDF-1.4'' = LineBased" by code_simp
  have "snd (uploadHandler (sampleEnv ''file_1'') ?w ?req)
       = \<lparr>statusCode = 400,
          payload = ErrorBody ''Unsupported file type. Use CSV or PDF files.''\<rparr>"
    using detect_routing [of _ _ ?req ?f ?w "''hello world''" "sampleEnv ''file_1''"]
      f rd u lower by simp
  then show ?thesis using u l by simp
qed

text \<open>
  The claim's priority fails: a file that begins with the PDF magic header goes to the
  delimited strategy when a comma follows within the first hundred bytes, or when its
  name ends in \<open>.csv\<close>; and a file named \<open>.pdf\<close> without the header is not rejected.
\<close>

theorem detect_pdf_header_counterexample:
  "take 4 ''%PDF-1.4, x'' = ''%PDF''
   \<and> detect ''statement.pdf'' ''%PDF-1.4, x'' = Delimited
   \<and> detect ''scan.csv'' ''%PDF-1.4'' = Delimited
   \<and> detect ''a.pdf'' ''hello'' = LineBased"
  by code_simp

text \<open>
  The order of the properties matters for a file without a header line: the reader takes
  the cells of the first line as names, and a cell that is an array index moves the value
  of its column to the front of \<open>Object.values\<close>.
\<close>

lemma objectOf_array_index_first:
  "map snd (objectOf [(''07/28/2024'', ''07/29/2024''), (''-5.75'', ''-3.50''), (''5'', ''1''),
      (''x'', ''y''), (''Coffee'', ''Tea'')])
     = [''1'', ''07/29/2024'', ''-3.50'', ''y'', ''Tea'']
   \<and> objectOf [(''Date'', ''07/28/2024''), (''Description'', ''Coffee''), (''Debit'', ''abc'')]
     = [(''Date'', ''07/28/2024''), (''Description'', ''Coffee''), (''Debit'', ''abc'')]
   \<and> objectOf [(''a'', ''1''), (''b'', ''2''), (''a'', ''3'')] = [(''a'', ''3''), (''b'', ''2'')]"
  by code_simp

text \<open>
  The failure paths of the handler, for every request. When reading the uploaded file
  raises an error, the catch handler answers 500 and the file record gets the status
  \<open>failed\<close> with the error's message. When the type is unsupported or no transaction is
  extracted, the handler returns 400 at once: the file record keeps the status
  \<open>processing\<close>. On all of these paths the temporary file stays as it was.
\<close>

lemma upload_read_error_failed:
  assumes "reqFile req = Some f" "readFileSync w (path f) = Inl msg"
  shows "statusCode (snd (uploadHandler e w req)) = 500"
    and "statusOf (fst (uploadHandler e w req)) (newFileId e) = Some ''failed''"
    and "map_option fErrorMessage (uploadedFiles (fst (uploadHandler e w req)) (newFileId e))
           = Some (Some msg)"
    and "files (fst (uploadHandler e w req)) = files w"
  unfolding upload_read_error [OF assms]
  by (simp_all add: statusOf_def uploadedFiles_setStatus received_def)

lemma early_return_keeps_record:
  assumes "reqFile req = Some f" "readFileSync w (path f) = Inr content"
    and "detect (toLowerCase (originalname f)) content = Unsupported
         \<or> extracted e (toLowerCase (originalname f)) content = []"
  shows "statusCode (snd (uploadHandler e w req)) = 400"
    and "statusOf (fst (uploadHandler e w req)) (newFileId e) = Some ''processing''"
    and "map_option fErrorMessage (uploadedFiles (fst (uploadHandler e w req)) (newFileId e))
           = Some None"
    and "files (fst (uploadHandler e w req)) = files w"
proof -
  have "uploadHandler e w req =
      (received e w req f,
       \<lparr>statusCode = 400, payload = ErrorBody ''Unsupported file type. Use CSV or PDF files.''\<rparr>)
    \<or> uploadHandler e w req =
      (received e w req f,
       \<lparr>statusCode = 400, payload = ErrorBody ''No transactions found in the file''\<rparr>)"
    using upload_unsupported [OF assms(1,2)] upload_no_transactions [OF assms(1,2)] assms(3)
    by blast
  then show "statusCode (snd (uploadHandler e w req)) = 400"
    and "statusOf (fst (uploadHandler e w req)) (newFileId e) = Some ''processing''"
    and "map_option fErrorMessage (uploadedFiles (fst (uploadHandler e w req)) (newFileId e))
           = Some None"
    and "files (fst (uploadHandler e w req)) = files w"
    by (auto simp: statusOf_def received_def processingRecord_def)
qed

text \<open>
  The success path: the answer is 200 and the record gets the status \<open>completed\<close>, also
  when the removal of the temporary file is refused; the file is gone unless it is.
\<close>

lemma upload_success_cleanup:
  assumes "reqFile req = Some f" "readFileSync w (path f) = Inr content"
    and "detect (toLowerCase (originalname f)) content \<noteq> Unsupported"
    and "extracted e (toLowerCase (originalname f)) content \<noteq> []"
  shows "statusCode (snd (uploadHandler e w req)) = 200"
    and "statusOf (fst (uploadHandler e w req)) (newFileId e) = Some ''completed''"
    and "files (fst (uploadHandler e w req)) (path f)
           = (if undeletable w (path f) then files w (path f) else None)"
proof -
  obtain rows1 s1 d1 where st: "storeLoop (sourceOf req)
      (extracted e (toLowerCase (originalname f)) content) (transactions w, 0, 0)
      = (rows1, s1, d1)"
    by (cases "storeLoop (sourceOf req)
      (extracted e (toLowerCase (originalname f)) content) (transactions w, 0, 0)")
  note facts = upload_stored_facts [OF assms(1,2,3) refl assms(4) st]
  show "statusCode (snd (uploadHandler e w req)) = 200" by (rule facts(1))
  show "statusOf (fst (uploadHandler e w req)) (newFileId e) = Some ''completed''"
    by (rule facts(5))
  show "files (fst (uploadHandler e w req)) (path f)
           = (if undeletable w (path f) then files w (path f) else None)"
    by (rule facts(4))
qed

lemma extracted_amount_nonempty:
  "extracted (sampleEnv ''file_1'') ''stmt.csv'' amountFile \<noteq> []"
  by code_simp

lemma upload_success_example:
  "statusCode (snd (firstRun amountFile)) = 200
   \<and> statusOf (fst (firstRun amountFile)) ''file_1'' = Some ''completed''
   \<and> files (fst (firstRun amountFile)) ''/tmp/u1'' = None"
proof -
  let ?e = "sampleEnv ''file_1''"
  let ?req = "sampleRequest ''stmt.csv''"
  let ?f = "sampleUpload ''stmt.csv''"
  let ?w = "worldWith [] (Readable amountFile)"
  have rd: "readFileSync ?w (path ?f) = Inr amountFile"
    by (simp add: sampleUpload_fields read_worldWith)
  have det: "detect (toLowerCase (originalname ?f)) amountFile \<noteq> Unsupported"
    by (simp add: sampleUpload_fields lower_stmt detect_stmt)
  have ne: "extracted ?e (toLowerCase (originalname ?f)) amountFile \<noteq> []"
    by (simp add: sampleUpload_fields lower_stmt extracted_amount_nonempty)
  note facts = upload_success_cleanup [OF sampleRequest_file rd det ne]
  have free: "\<not> undeletable ?w (path ?f)" by (simp add: worldWith_def)
  show ?thesis
    unfolding firstRun_def
    using facts free by (simp add: sampleEnv_fields sampleUpload_fields)
qed

text \<open>
  C9. The handler does not treat its early returns as failures, and removes the
  temporary file on no failure path. A file of an unsupported type and a file from which
  no transaction is extracted are answered with 400: the file record keeps the status
  \<open>processing\<close>, without a message, and the temporary file stays. An unreadable file is
  answered with 500 and its record gets the status \<open>failed\<close> with the error's message,
  as the claim says, but the temporary file stays there too.
\<close>

theorem upload_early_returns_leave_processing:
  "snd (uploadHandler (sampleEnv ''file_1'') (worldWith [] (Readable ''hello world''))
        (sampleRequest ''notes.txt''))
     = \<lparr>statusCode = 400, payload = ErrorBody ''Unsupported file type. Use CSV or PDF files.''\<rparr>
   \<and> uploadedFiles (fst (uploadHandler (sampleEnv ''file_1'')
        (worldWith [] (Readable ''hello world'')) (sampleRequest ''notes.txt''))) ''file_1''
     = Some (processingRecord (sampleUpload ''notes.txt'') ''card_A'')
   \<and> files (fst (uploadHandler (sampleEnv ''file_1'') (worldWith [] (Readable ''hello world''))
        (sampleRequest ''notes.txt''))) ''/tmp/u1'' = Some (Readable ''hello world'')
   \<and> snd (uploadHandler (sampleEnv ''file_1'') (worldWith [] (Readable ''%PDF-1.4''))
        (sampleRequest ''statement.pdf''))
     = \<lparr>statusCode = 400, payload = ErrorBody ''No transactions found in the file''\<rparr>
   \<and> uploadedFiles (fst (uploadHandler (sampleEnv ''file_1'')
        (worldWith [] (Readable ''%PDF-1.4'')) (sampleRequest ''statement.pdf''))) ''file_1''
     = Some (processingRecord (sampleUpload ''statement.pdf'') ''card_A'')
   \<and> files (fst (uploadHandler (sampleEnv ''file_1'') (worldWith [] (Readable ''%PDF-1.4''))
        (sampleRequest ''statement.pdf''))) ''/tmp/u1'' = Some (Readable ''%PDF-1.4'')
   \<and> fStatus (processingRecord (sampleUpload ''notes.txt'') ''card_A'') = ''processing''
   \<and> fErrorMessage (processingRecord (sampleUpload ''notes.txt'') ''card_A'') = None
   \<and> snd (uploadHandler (sampleEnv ''file_1'')
        (worldWith [] (Unreadable ''EACCES: permission denied'')) (sampleRequest ''stmt.csv''))
     = \<lparr>statusCode = 500,
        payload = ErrorBody ''File processing failed: EACCES: permission denied''\<rparr>
   \<and> statusOf (fst (uploadHandler (sampleEnv ''file_1'')
        (worldWith [] (Unreadable ''EACCES: permission denied'')) (sampleRequest ''stmt.csv'')))
        ''file_1'' = Some ''failed''
   \<and> files (fst (uploadHandler (sampleEnv ''file_1'')
        (worldWith [] (Unreadable ''EACCES: permission denied'')) (sampleRequest ''stmt.csv'')))
        ''/tmp/u1'' = Some (Unreadable ''EACCES: permission denied'')"
proof -
  let ?e = "sampleEnv ''file_1''"
  have rc: "uploadedFiles (received ?e w req f) ''file_1''
      = Some (processingRecord f (sourceOf req))" for w req f
    by (simp add: received_def sampleEnv_fields)
  have fl: "files (received ?e (worldWith [] entry) req f) ''/tmp/u1'' = Some entry"
    for entry req f
    by (simp add: received_def worldWith_def)
  have l1: "toLowerCase ''notes.txt'' = ''notes.txt''" by code_simp
  have d1: "detect ''notes.txt'' ''hello world'' = Unsupported" by code_simp
  have u1: "uploadHandler ?e (worldWith [] (Readable ''hello world'')) (sampleRequest ''notes.txt'')
      = (received ?e (worldWith [] (Readable ''hello world'')) (sampleRequest ''notes.txt'')
           (sampleUpload ''notes.txt''),
         \<lparr>statusCode = 400,
          payload = ErrorBody ''Unsupported file type. Use CSV or PDF files.''\<rparr>)"
  proof (rule upload_unsupported [OF sampleRequest_file])
    show "readFileSync (worldWith [] (Readable ''hello world'')) (path (sampleUpload ''notes.txt''))
        = Inr ''hello world''"
      by (simp add: sampleUpload_fields read_worldWith)
    show "detect (toLowerCase (originalname (sampleUpload ''notes.txt''))) ''hello world''
        = Unsupported"
      by (simp add: sampleUpload_fields l1 d1)
  qed
  have l2: "toLowerCase ''statement.pdf'' = ''statement.pdf''" by code_simp
  have d2: "detect ''statement.pdf'' ''%PDF-1.4'' = LineBased" by code_simp
  have x2: "extracted ?e ''statement.pdf'' ''%PDF-1.4'' = []"
    by (simp add: extracted_def d2 parsePDF_def)
  have u2: "uploadHandler ?e (worldWith [] (Readable ''%PDF-1.4'')) (sampleRequest ''statement.pdf'')
      = (received ?e (worldWith [] (Readable ''%PDF-1.4'')) (sampleRequest ''statement.pdf'')
           (sampleUpload ''statement.pdf''),
         \<lparr>statusCode = 400, payload = ErrorBody ''No transactions found in the file''\<rparr>)"
  proof (rule upload_no_transactions [OF sampleRequest_file])
    show "readFileSync (worldWith [] (Readable ''%PDF-1.4'')) (path (sampleUpload ''statement.pdf''))
        = Inr ''%PDF-1.4''"
      by (simp add: sampleUpload_fields read_worldWith)
    show "detect (toLowerCase (originalname (sampleUpload ''statement.pdf''))) ''%PDF-1.4''
        \<noteq> Unsupported"
      by (simp add: sampleUpload_fields l2 d2)
    show "extracted ?e (toLowerCase (originalname (sampleUpload ''statement.pdf''))) ''%PDF-1.4''
        = []"
      by (simp add: sampleUpload_fields l2 x2)
  qed
  let ?wu = "worldWith [] (Unreadable ''EACCES: permission denied'')"
  have u3: "uploadHandler ?e ?wu (sampleRequest ''stmt.csv'')
      = (setStatus (received ?e ?wu (sampleRequest ''stmt.csv'') (sampleUpload ''stmt.csv''))
           (newFileId ?e)
           (\<lambda>r. r\<lparr>fStatus := ''failed'',
                   fErrorMessage := Some ''EACCES: permission denied''\<rparr>),
         \<lparr>statusCode = 500,
          payload = ErrorBody (''File processing failed: '' @ ''EACCES: permission denied'')\<rparr>)"
  proof (rule upload_read_error [OF sampleRequest_file])
    show "readFileSync ?wu (path (sampleUpload ''stmt.csv'')) = Inl ''EACCES: permission denied''"
      by (simp add: sampleUpload_fields read_worldWith_unreadable)
  qed
  have s3: "statusOf (setStatus (received ?e w req f) (newFileId ?e)
        (\<lambda>r. r\<lparr>fStatus := ''failed'', fErrorMessage := Some msg\<rparr>)) ''file_1''
      = Some ''failed''" for w req f msg
    by (simp add: statusOf_def uploadedFiles_setStatus [of _ "newFileId ?e", unfolded sampleEnv_fields]
        sampleEnv_fields received_def)
  show ?thesis
    unfolding u1 u2 u3
    by (simp add: rc fl s3 sampleRequest_source processingRecord_def)
qed

end
